theory Spec2Isabelle
  imports Complex_Main "HOL-Library.Log_Nat"
begin

section \<open>SetLog seeding script: data model\<close>

text \<open>
  This theory embeds \<^verbatim>\<open>scripts/db_scripts/db_population/populate_database.py\<close>
  and the parts of \<^verbatim>\<open>models/\<close> it uses.

  Modelling decisions, each visible in the definitions below:
  \<^item> \<^verbatim>\<open>uuid.uuid4()\<close> draws an identifier; identifiers are natural numbers handed out
    by a counter (\<open>next_uuid\<close>), so two calls never collide.
  \<^item> The ambient \<^verbatim>\<open>random\<close> module is an explicit stream of draws of
    \<^verbatim>\<open>random.random()\<close>, carried in the state (\<open>rng\<close>). Each draw is a
    rational; its fractional part, cut to a multiple of \<open>1 / 2 ^ 53\<close>, is the unit draw
    in \<open>[0,1)\<close>. An exhausted stream yields \<open>0\<close>. Distributions are not modelled, only
    which values can be drawn.
  \<^item> A Python float is an IEEE 754 double, modelled by the rational it denotes. Every
    float operation of the script is the exact operation followed by rounding to the
    nearest double, ties to the even significand (\<open>fl\<close>). Doubles have a 53-bit
    significand; the exponent range is not modelled (no overflow, no subnormal
    numbers), and the floats of the script are 0 or of a magnitude far inside that range. The literals \<^verbatim>\<open>0.5\<close>, \<^verbatim>\<open>2.0\<close>, \<^verbatim>\<open>2.5\<close> and \<^verbatim>\<open>4.5\<close> are doubles; the other float literals are written \<open>fl\<close> of their decimal.
  \<^item> A \<^verbatim>\<open>datetime\<close> is its proleptic Gregorian ordinal day together with the
    time-of-day fields. The text \<^verbatim>\<open>%Y-%m-%d\<close> of a date is modelled by the ordinal
    it encodes, the text \<^verbatim>\<open>%Y-%m-%d %H:%M:%S\<close> by the datetime with its microseconds
    dropped. The range limits of \<^verbatim>\<open>datetime\<close> (years 1 to 9999) are not modelled.
  \<^item> The SQLAlchemy session is the list of calls made to it (\<open>log\<close>), in order.
    Constraint checking by the database is outside the script and is not modelled.
  \<^item> \<^verbatim>\<open>print\<close> is dropped.
\<close>

type_synonym uuid = nat

datatype py_error = IndexError | KeyError string | StopIteration | ValueError

subsection \<open>Dates and times\<close>

record datetime =
  ordinal :: int
  hour :: int
  minute :: int
  second :: int
  microsecond :: int

text \<open>A \<^verbatim>\<open>timedelta\<close> is its total number of microseconds.\<close>

type_synonym timedelta = int

definition day_us :: int where
  "day_us = 86400000000"

definition to_micros :: "datetime \<Rightarrow> int" where
  "to_micros d =
     (((ordinal d * 24 + hour d) * 60 + minute d) * 60 + second d) * 1000000 + microsecond d"

definition of_micros :: "int \<Rightarrow> datetime" where
  "of_micros n =
     \<lparr>ordinal = n div day_us,
      hour = (n mod day_us) div 3600000000,
      minute = ((n mod day_us) mod 3600000000) div 60000000,
      second = ((n mod day_us) mod 60000000) div 1000000,
      microsecond = n mod 1000000\<rparr>"

text \<open>\<^verbatim>\<open>a - b\<close> on datetimes, and \<^verbatim>\<open>.days\<close> of the normalised difference.\<close>

definition dt_sub :: "datetime \<Rightarrow> datetime \<Rightarrow> timedelta" where
  "dt_sub a b = to_micros a - to_micros b"

definition td_days :: "timedelta \<Rightarrow> int" where
  "td_days t = t div day_us"

text \<open>\<^verbatim>\<open>d + timedelta(days=n)\<close> and \<^verbatim>\<open>d - timedelta(days=n)\<close>.\<close>

definition plus_days :: "datetime \<Rightarrow> int \<Rightarrow> datetime" where
  "plus_days d n = d\<lparr>ordinal := ordinal d + n\<rparr>"

definition minus_days :: "datetime \<Rightarrow> int \<Rightarrow> datetime" where
  "minus_days d n = d\<lparr>ordinal := ordinal d - n\<rparr>"

text \<open>\<^verbatim>\<open>d.replace(hour=h, minute=m)\<close>.\<close>

definition replace_hm :: "datetime \<Rightarrow> int \<Rightarrow> int \<Rightarrow> datetime" where
  "replace_hm d h m = d\<lparr>hour := h, minute := m\<rparr>"

text \<open>\<^verbatim>\<open>d.weekday()\<close>: Monday is 0.\<close>

definition weekday :: "datetime \<Rightarrow> int" where
  "weekday d = (ordinal d + 6) mod 7"

text \<open>\<^verbatim>\<open>strftime("%Y-%m-%d")\<close> and \<^verbatim>\<open>strptime(s, "%Y-%m-%d")\<close>.\<close>

type_synonym date_text = int

definition strftime_date :: "datetime \<Rightarrow> date_text" where
  "strftime_date d = ordinal d"

definition strptime_date :: "date_text \<Rightarrow> datetime" where
  "strptime_date s = \<lparr>ordinal = s, hour = 0, minute = 0, second = 0, microsecond = 0\<rparr>"

text \<open>\<^verbatim>\<open>strftime("%Y-%m-%d %H:%M:%S")\<close>.\<close>

definition strftime_secs :: "datetime \<Rightarrow> datetime" where
  "strftime_secs d = d\<lparr>microsecond := 0\<rparr>"

text \<open>Python's \<^verbatim>\<open>round\<close> to an integer: ties go to the even neighbour.\<close>

definition py_round :: "rat \<Rightarrow> int" where
  "py_round x =
     (let f = \<lfloor>x\<rfloor>; d = x - of_int f
      in if d < 1 / 2 then f
         else if 1 / 2 < d then f + 1
         else if even f then f else f + 1)"

text \<open>
  The exponent of a positive rational: the \<open>e\<close> with \<open>2 powi e \<le> x < 2 powi (e + 1)\<close>.
\<close>

definition exponent :: "rat \<Rightarrow> int" where
  "exponent x = (if 1 \<le> x then bitlen \<lfloor>x\<rfloor> - 1 else - bitlen (\<lceil>1 / x\<rceil> - 1))"

text \<open>
  Rounding to the nearest double: the significand is rounded to 53 bits, ties to even.
\<close>

definition fl :: "rat \<Rightarrow> rat" where
  "fl x =
     (if x = 0 then 0
      else (let ulp = 2 powi (exponent \<bar>x\<bar> - 52)
            in sgn x * (of_int (py_round (\<bar>x\<bar> / ulp)) * ulp)))"

text \<open>The float operations \<^verbatim>\<open>+\<close>, \<^verbatim>\<open>-\<close>, \<^verbatim>\<open>*\<close> and \<^verbatim>\<open>/\<close>.\<close>

definition fadd :: "rat \<Rightarrow> rat \<Rightarrow> rat" where
  "fadd x y = fl (x + y)"

definition fsub :: "rat \<Rightarrow> rat \<Rightarrow> rat" where
  "fsub x y = fl (x - y)"

definition fmul :: "rat \<Rightarrow> rat \<Rightarrow> rat" where
  "fmul x y = fl (x * y)"

definition fdiv :: "rat \<Rightarrow> rat \<Rightarrow> rat" where
  "fdiv x y = fl (x / y)"

text \<open>
  \<^verbatim>\<open>round(x, 1)\<close> on a float: the decimal with one digit nearest to the exact value of
  \<open>x\<close>, ties to the even digit, and of that decimal the nearest double.
\<close>

definition round1 :: "rat \<Rightarrow> rat" where
  "round1 x = fl (of_int (py_round (x * 10)) / 10)"

text \<open>\<^verbatim>\<open>int(x)\<close> truncates toward zero.\<close>

definition py_int :: "rat \<Rightarrow> int" where
  "py_int x = (if 0 \<le> x then \<lfloor>x\<rfloor> else \<lceil>x\<rceil>)"

text \<open>
  \<^verbatim>\<open>d + timedelta(hours=x)\<close> for a float \<open>x\<close>: the whole hours are converted exactly,
  the fraction of an hour is multiplied by the microseconds of an hour as a float,
  and the product is rounded to whole microseconds.
\<close>

definition plus_hours :: "datetime \<Rightarrow> rat \<Rightarrow> datetime" where
  "plus_hours d x =
     of_micros (to_micros d + \<lfloor>x\<rfloor> * 3600000000
                  + py_round (fmul 3600000000 (x - of_int \<lfloor>x\<rfloor>)))"

subsection \<open>Entities\<close>

record user =
  u_id :: uuid
  email :: string
  password_hash :: string

record exercise =
  ex_id :: uuid
  slug :: string
  ex_name :: string
  ex_description :: string
  target_muscles :: "string list"
  created_by :: uuid

record program_entry =
  pe_id :: uuid
  pe_program_id :: uuid
  pe_exercise_id :: uuid
  day_of_week :: int
  position :: int

text \<open>
  \<open>entries\<close> is the ORM relationship \<^verbatim>\<open>Program.entries\<close>: the entries whose
  \<^verbatim>\<open>program_id\<close> is this program, in insertion order.
\<close>

record program =
  p_id :: uuid
  p_name :: string
  p_description :: string
  owner_id :: uuid
  entries :: "program_entry list"

record user_program =
  up_id :: uuid
  up_user_id :: uuid
  up_program_id :: uuid
  start_date :: date_text
  active :: bool

record session =
  s_id :: uuid
  s_user_id :: uuid
  user_program_id :: "uuid option"
  prog_week_index :: "int option"
  prog_day_of_week :: "int option"
  started_at :: datetime
  ended_at :: datetime

record set_record =
  set_id :: uuid
  session_id :: uuid
  exercise_id :: uuid
  set_index :: int
  reps :: int
  weight_kg :: rat
  rpe :: "string option"

datatype entity =
    EUser user
  | EExercise exercise
  | EProgram program
  | EProgramEntry program_entry
  | EUserProgram user_program
  | ESession session
  | ESet set_record

subsection \<open>The persistence session and the ambient state\<close>

datatype db_event = Add entity | Flush | Commit | Rollback | Close

record gen_state =
  rng :: "rat list"
  next_uuid :: nat
  log :: "db_event list"

definition add :: "entity \<Rightarrow> gen_state \<Rightarrow> gen_state" where
  "add e st = st\<lparr>log := log st @ [Add e]\<rparr>"

definition flush :: "gen_state \<Rightarrow> gen_state" where
  "flush st = st\<lparr>log := log st @ [Flush]\<rparr>"

definition commit :: "gen_state \<Rightarrow> gen_state" where
  "commit st = st\<lparr>log := log st @ [Commit]\<rparr>"

definition rollback :: "gen_state \<Rightarrow> gen_state" where
  "rollback st = st\<lparr>log := log st @ [Rollback]\<rparr>"

definition close :: "gen_state \<Rightarrow> gen_state" where
  "close st = st\<lparr>log := log st @ [Close]\<rparr>"

definition uuid4 :: "gen_state \<Rightarrow> uuid \<times> gen_state" where
  "uuid4 st = (next_uuid st, st\<lparr>next_uuid := Suc (next_uuid st)\<rparr>)"

subsection \<open>The \<^verbatim>\<open>random\<close> module\<close>

text \<open>\<^verbatim>\<open>random.random()\<close>: a multiple of \<open>1 / 2 ^ 53\<close> in \<open>[0,1)\<close>.\<close>

definition random_unit :: "gen_state \<Rightarrow> rat \<times> gen_state" where
  "random_unit st =
     (case rng st of
        [] \<Rightarrow> (0, st)
      | r # rs \<Rightarrow> (of_int \<lfloor>frac r * 2 ^ 53\<rfloor> / 2 ^ 53, st\<lparr>rng := rs\<rparr>))"

text \<open>\<^verbatim>\<open>random.uniform(a, b)\<close> is \<^verbatim>\<open>a + (b - a) * self.random()\<close>, in floats.\<close>

definition uniform :: "rat \<Rightarrow> rat \<Rightarrow> gen_state \<Rightarrow> rat \<times> gen_state" where
  "uniform a b st = (let (u, st') = random_unit st in (fadd a (fmul (fsub b a) u), st'))"

text \<open>An index below \<open>n\<close>.\<close>

definition randbelow :: "nat \<Rightarrow> gen_state \<Rightarrow> nat \<times> gen_state" where
  "randbelow n st = (let (u, st') = random_unit st in (nat \<lfloor>u * of_nat n\<rfloor>, st'))"

text \<open>
  \<^verbatim>\<open>random.randint(lo, hi)\<close>, both ends included. Every call of the script has
  \<open>lo \<le> hi\<close>: the bounds are literals, except \<^verbatim>\<open>randint(0, total_days)\<close>, which
  runs only inside a loop of \<^verbatim>\<open>int(total_days * f / 7)\<close> rounds with \<open>f > 0\<close>.
\<close>

definition randint :: "int \<Rightarrow> int \<Rightarrow> gen_state \<Rightarrow> int \<times> gen_state" where
  "randint lo hi st = (let (k, st') = randbelow (nat (hi - lo + 1)) st in (lo + int k, st'))"

text \<open>\<^verbatim>\<open>random.choice(seq)\<close> raises \<^verbatim>\<open>IndexError\<close> on an empty sequence.\<close>

definition choice :: "'a list \<Rightarrow> gen_state \<Rightarrow> (py_error + 'a) \<times> gen_state" where
  "choice xs st =
     (if xs = [] then (Inl IndexError, st)
      else (let (k, st') = randbelow (length xs) st in (Inr (xs ! k), st')))"

text \<open>
  \<^verbatim>\<open>random.sample(population, k)\<close>, by the pool algorithm of the standard library:
  draw a position of the pool, take the element there, move the last element of the
  pool into its place. \<open>k\<close> larger than the population raises \<^verbatim>\<open>ValueError\<close>.
\<close>

fun sample_pool :: "'a list \<Rightarrow> nat \<Rightarrow> gen_state \<Rightarrow> 'a list \<times> gen_state" where
  "sample_pool pool 0 st = ([], st)"
| "sample_pool pool (Suc k) st =
     (let (j, st1) = randbelow (length pool) st;
          x = pool ! j;
          (rest, st2) = sample_pool (butlast (pool[j := last pool])) k st1
      in (x # rest, st2))"

definition sample :: "'a list \<Rightarrow> int \<Rightarrow> gen_state \<Rightarrow> (py_error + 'a list) \<times> gen_state" where
  "sample population k st =
     (if k < 0 \<or> int (length population) < k then (Inl ValueError, st)
      else (let (xs, st') = sample_pool population (nat k) st in (Inr xs, st')))"

subsection \<open>The process environment\<close>

text \<open>
  What the script reads from outside: the three fixture files (already parsed, so a
  missing file or a malformed record has no counterpart here), the clock, bcrypt, and
  Python's string hash. \<open>hash_str u\<close> is \<^verbatim>\<open>hash(str(u))\<close>: the salt of the string hash
  is chosen when the interpreter starts, so within one run it is a fixed function.
  Clock readings taken inside one function are one instant.
\<close>

record user_fixture =
  uf_email :: string
  uf_password :: string

record exercise_fixture =
  ef_slug :: string
  ef_name :: string
  ef_description :: string
  ef_target_muscles :: "string list"

record entry_fixture =
  nf_exercise_slug :: string
  nf_day_of_week :: int
  nf_position :: int

record program_fixture =
  pf_name :: string
  pf_description :: string
  pf_entries :: "entry_fixture list"

record env =
  users_json :: "user_fixture list"
  exercises_json :: "exercise_fixture list"
  programs_json :: "program_fixture list"
  now :: datetime
  bcrypt :: "string \<Rightarrow> string"
  hash_str :: "uuid \<Rightarrow> int"

section \<open>The weight and rep models\<close>

definition base_weights :: "(string \<times> int) list" where
  "base_weights =
     [(''squat'', 80),
      (''deadlift'', 100),
      (''barbell-bench-press'', 70),
      (''overhead-press'', 40),
      (''barbell-row'', 60),
      (''front-squat'', 60),
      (''romanian-deadlift'', 80),
      (''incline-bench-press'', 50),
      (''dumbbell-bench-press'', 25),
      (''dumbbell-row'', 20),
      (''lateral-raises'', 8),
      (''bicep-curls'', 12),
      (''tricep-dips'', 0),
      (''pull-ups'', 0),
      (''dips'', 0),
      (''push-ups'', 0),
      (''leg-press'', 100),
      (''leg-curls'', 20),
      (''leg-extensions'', 15),
      (''calf-raises'', 30),
      (''shoulder-press'', 25),
      (''hammer-curls'', 10),
      (''tricep-pushdowns'', 15),
      (''skull-crushers'', 12),
      (''plank'', 0),
      (''mountain-climbers'', 0),
      (''burpees'', 0),
      (''box-jumps'', 0),
      (''jumping-jacks'', 0),
      (''high-knees'', 0),
      (''jumping-squats'', 0)]"

text \<open>\<^verbatim>\<open>d.get(k, default)\<close> on a dict literal with distinct keys.\<close>

definition dict_get :: "('k \<times> 'v) list \<Rightarrow> 'k \<Rightarrow> 'v \<Rightarrow> 'v" where
  "dict_get d k dflt = (case map_of d k of None \<Rightarrow> dflt | Some v \<Rightarrow> v)"

text \<open>
  The float literals \<^verbatim>\<open>0.2\<close>, \<^verbatim>\<open>0.6\<close>, \<^verbatim>\<open>0.8\<close> and \<^verbatim>\<open>1.2\<close> are the doubles nearest to
  them; the integers \<open>user_hash\<close> and \<open>base_weight\<close> are converted exactly.
\<close>

definition generate_realistic_weight ::
  "env \<Rightarrow> string \<Rightarrow> uuid \<Rightarrow> gen_state \<Rightarrow> rat \<times> gen_state" where
  "generate_realistic_weight e exercise_slug user_id st =
     (let base_weight = dict_get base_weights exercise_slug 20
      in if base_weight = 0 then (0, st)
         else (let user_hash = hash_str e user_id mod 3;
                   user_variation = fmul (of_int user_hash) (fl (2 / 10));
                   weight_multiplier = fadd (fl (6 / 10)) user_variation;
                   (random_variation, st') = uniform (fl (8 / 10)) (fl (12 / 10)) st;
                   final_weight =
                     fmul (fmul (of_int base_weight) weight_multiplier) random_variation
               in (round1 final_weight, st')))"

definition generate_realistic_reps ::
  "string \<Rightarrow> int \<Rightarrow> int \<Rightarrow> gen_state \<Rightarrow> int \<times> gen_state" where
  "generate_realistic_reps exercise_slug set_num total_sets st =
     (let (base_reps, st1) =
            (if exercise_slug \<in> set [''squat'', ''deadlift'', ''barbell-bench-press'',
                                     ''overhead-press'', ''barbell-row'']
             then randint 3 8 st
             else if exercise_slug \<in> set [''bicep-curls'', ''tricep-dips'',
                                          ''lateral-raises'', ''calf-raises'']
             then randint 8 15 st
             else if exercise_slug \<in> set [''plank'', ''mountain-climbers'', ''burpees'']
             then randint 10 30 st
             else randint 5 12 st);
          (base_reps', st2) =
            (if set_num > total_sets div 2
             then (let (f, st') = randint 1 3 st1 in (max 1 (base_reps - f), st'))
             else (base_reps, st1))
      in (max 1 base_reps', st2))"

section \<open>The workout synthesizer\<close>

text \<open>\<^verbatim>\<open>str\<close> of an integer, for the f-strings of the RPE values.\<close>

fun digits_of :: "nat \<Rightarrow> string" where
  "digits_of n =
     (if n < 10 then [char_of (48 + n)]
      else digits_of (n div 10) @ [char_of (48 + n mod 10)])"

definition str_int :: "int \<Rightarrow> string" where
  "str_int i = (if i < 0 then CHR ''-'' # digits_of (nat (- i)) else digits_of (nat i))"

text \<open>\<^verbatim>\<open>random.choice\<close> on a list literal, which is never empty.\<close>

definition choice_lit :: "'a \<Rightarrow> 'a list \<Rightarrow> gen_state \<Rightarrow> 'a \<times> gen_state" where
  "choice_lit x xs st = (let (k, st') = randbelow (Suc (length xs)) st in ((x # xs) ! k, st'))"

text \<open>The local counters of \<^verbatim>\<open>generate_realistic_workout_data\<close>.\<close>

record counters =
  sessions_created :: int
  sets_created :: int

text \<open>
  The body of \<^verbatim>\<open>for set_num in range(1, num_sets + 1)\<close>, the same text in the
  program branch and in the freeform branch, without the counter.
\<close>

definition make_set ::
  "env \<Rightarrow> user \<Rightarrow> session \<Rightarrow> exercise \<Rightarrow> int \<Rightarrow> int \<Rightarrow> gen_state \<Rightarrow> gen_state" where
  "make_set e usr session_obj ex set_num num_sets st =
     (let (weight, st1) = generate_realistic_weight e (slug ex) (u_id usr) st;
          (n_reps, st2) = generate_realistic_reps (slug ex) set_num num_sets st1;
          (a, st3) = randint 6 10 st2;
          (b, st4) = randint 6 9 st3;
          (rpe_v, st5) = choice_lit None [Some (str_int a @ ''.0''), Some (str_int b @ ''.5'')] st4;
          (i, st6) = uuid4 st5
      in add (ESet \<lparr>set_id = i, session_id = s_id session_obj, exercise_id = ex_id ex,
                     set_index = set_num, reps = n_reps, weight_kg = weight, rpe = rpe_v\<rparr>) st6)"

fun sets_loop ::
  "env \<Rightarrow> user \<Rightarrow> session \<Rightarrow> exercise \<Rightarrow> int \<Rightarrow> int list \<Rightarrow> int \<times> gen_state
     \<Rightarrow> int \<times> gen_state" where
  "sets_loop e usr session_obj ex num_sets [] (n, st) = (n, st)"
| "sets_loop e usr session_obj ex num_sets (set_num # rest) (n, st) =
     sets_loop e usr session_obj ex num_sets rest
       (n + 1, make_set e usr session_obj ex set_num num_sets st)"

text \<open>
  \<^verbatim>\<open>for program_entry in day_exercises\<close>. \<^verbatim>\<open>next(...)\<close> on a generator with no
  match raises \<^verbatim>\<open>StopIteration\<close>.
\<close>

fun program_sets ::
  "env \<Rightarrow> user \<Rightarrow> session \<Rightarrow> exercise list \<Rightarrow> program_entry list \<Rightarrow> int \<times> gen_state
     \<Rightarrow> (py_error + int) \<times> gen_state" where
  "program_sets e usr session_obj exercises [] (n, st) = (Inr n, st)"
| "program_sets e usr session_obj exercises (pe # pes) (n, st) =
     (case find (\<lambda>ex. ex_id ex = pe_exercise_id pe) exercises of
        None \<Rightarrow> (Inl StopIteration, st)
      | Some ex \<Rightarrow>
          (let (num_sets, st1) = randint 3 6 st
           in program_sets e usr session_obj exercises pes
                (sets_loop e usr session_obj ex num_sets [1..num_sets] (n, st1))))"

text \<open>\<^verbatim>\<open>for exercise in selected_exercises\<close>.\<close>

fun freeform_loop ::
  "env \<Rightarrow> user \<Rightarrow> session \<Rightarrow> exercise list \<Rightarrow> int \<times> gen_state \<Rightarrow> int \<times> gen_state" where
  "freeform_loop e usr session_obj [] (n, st) = (n, st)"
| "freeform_loop e usr session_obj (ex # exs) (n, st) =
     (let (num_sets, st1) = randint 2 5 st
      in freeform_loop e usr session_obj exs
           (sets_loop e usr session_obj ex num_sets [1..num_sets] (n, st1)))"

definition freeform_sets ::
  "env \<Rightarrow> user \<Rightarrow> session \<Rightarrow> exercise list \<Rightarrow> int \<times> gen_state
     \<Rightarrow> (py_error + int) \<times> gen_state" where
  "freeform_sets e usr session_obj exercises nst =
     (let (num_exercises, st1) = randint 3 8 (snd nst)
      in case sample exercises (min num_exercises (int (length exercises))) st1 of
           (Inl err, st2) \<Rightarrow> (Inl err, st2)
         | (Inr selected_exercises, st2) \<Rightarrow>
             (let (n', st3) = freeform_loop e usr session_obj selected_exercises (fst nst, st2)
              in (Inr n', st3)))"

text \<open>The random workout date: a day of the horizon, then hour and minute replaced.\<close>

definition draw_workout_date :: "datetime \<Rightarrow> int \<Rightarrow> gen_state \<Rightarrow> datetime \<times> gen_state" where
  "draw_workout_date horizon_start total_days st =
     (let (d, st1) = randint 0 total_days st;
          (h, st2) = randint 6 20 st1;
          (m, st3) = randint 0 59 st2
      in (replace_hm (plus_days horizon_start d) h m, st3))"

text \<open>
  The first half of the loop body, up to the construction of \<^verbatim>\<open>session_obj\<close>.
  \<open>None\<close> is \<^verbatim>\<open>continue\<close>. Otherwise the result is \<open>use_program\<close> (as a
  truth value), the session and \<open>day_exercises\<close>; in the freeform branch the script
  never reads \<open>day_exercises\<close>, and the empty list stands for it.
\<close>

definition draft_session ::
  "env \<Rightarrow> user \<Rightarrow> program list \<Rightarrow> user_program list \<Rightarrow> datetime \<Rightarrow> int \<Rightarrow> gen_state
     \<Rightarrow> (py_error + (bool \<times> session \<times> program_entry list) option) \<times> gen_state" where
  "draft_session e usr programs user_active_programs horizon_start total_days st =
     (let (workout_date, st3) = draw_workout_date horizon_start total_days st;
          (coin, st4) = choice_lit True [False] st3;
          use_program = (coin \<and> user_active_programs \<noteq> [])
      in if use_program \<and> user_active_programs \<noteq> [] then
           (case choice user_active_programs st4 of
              (Inl err, st5) \<Rightarrow> (Inl err, st5)
            | (Inr up, st5) \<Rightarrow>
                (case find (\<lambda>p. p_id p = up_program_id up) programs of
                   None \<Rightarrow> (Inl StopIteration, st5)
                 | Some prog \<Rightarrow>
                     (let program_start = strptime_date (start_date up);
                          weeks_since_start = td_days (dt_sub workout_date program_start) div 7;
                          dow = weekday workout_date;
                          day_exercises = filter (\<lambda>pe. day_of_week pe = dow) (entries prog)
                      in if day_exercises = [] then (Inr None, st5)
                         else (let (i, st6) = uuid4 st5;
                                   (dur, st7) = uniform (1 / 2) 2 st6
                               in (Inr (Some (use_program,
                                      \<lparr>s_id = i, s_user_id = u_id usr,
                                       user_program_id = Some (up_id up),
                                       prog_week_index = Some weeks_since_start,
                                       prog_day_of_week = Some dow,
                                       started_at = strftime_secs workout_date,
                                       ended_at = strftime_secs (plus_hours workout_date dur)\<rparr>,
                                      day_exercises)), st7)))))
         else (let (i, st5) = uuid4 st4;
                   (dur, st6) = uniform (1 / 2) 2 st5
               in (Inr (Some (use_program,
                      \<lparr>s_id = i, s_user_id = u_id usr,
                       user_program_id = None,
                       prog_week_index = None,
                       prog_day_of_week = None,
                       started_at = strftime_secs workout_date,
                       ended_at = strftime_secs (plus_hours workout_date dur)\<rparr>,
                      [])), st6)))"

text \<open>
  The second half of the loop body: add and flush the session, generate its sets,
  count the session, commit every hundredth.
\<close>

definition materialise ::
  "env \<Rightarrow> user \<Rightarrow> exercise list \<Rightarrow> user_program list
     \<Rightarrow> bool \<times> session \<times> program_entry list \<Rightarrow> counters \<times> gen_state
     \<Rightarrow> (py_error + counters) \<times> gen_state" where
  "materialise e usr exercises user_active_programs plan cst =
     (let use_program = fst plan;
          session_obj = fst (snd plan);
          day_exercises = snd (snd plan);
          st1 = flush (add (ESession session_obj) (snd cst))
      in case (if use_program \<and> user_active_programs \<noteq> [] \<and> day_exercises \<noteq> []
               then program_sets e usr session_obj exercises day_exercises
                      (sets_created (fst cst), st1)
               else freeform_sets e usr session_obj exercises (sets_created (fst cst), st1)) of
           (Inl err, st2) \<Rightarrow> (Inl err, st2)
         | (Inr n, st2) \<Rightarrow>
             (let sc = sessions_created (fst cst) + 1
              in (Inr \<lparr>sessions_created = sc, sets_created = n\<rparr>,
                  if sc mod 100 = 0 then commit st2 else st2)))"

definition workout_draft ::
  "env \<Rightarrow> user \<Rightarrow> exercise list \<Rightarrow> program list \<Rightarrow> user_program list \<Rightarrow> datetime \<Rightarrow> int
     \<Rightarrow> counters \<times> gen_state \<Rightarrow> (py_error + counters) \<times> gen_state" where
  "workout_draft e usr exercises programs user_active_programs horizon_start total_days cst =
     (case draft_session e usr programs user_active_programs horizon_start total_days (snd cst) of
        (Inl err, st1) \<Rightarrow> (Inl err, st1)
      | (Inr None, st1) \<Rightarrow> (Inr (fst cst), st1)
      | (Inr (Some plan), st1) \<Rightarrow>
          materialise e usr exercises user_active_programs plan (fst cst, st1))"

text \<open>\<^verbatim>\<open>for _ in range(num_workouts)\<close>.\<close>

fun drafts_loop ::
  "nat \<Rightarrow> env \<Rightarrow> user \<Rightarrow> exercise list \<Rightarrow> program list \<Rightarrow> user_program list \<Rightarrow> datetime
     \<Rightarrow> int \<Rightarrow> counters \<times> gen_state \<Rightarrow> (py_error + counters) \<times> gen_state" where
  "drafts_loop 0 e usr exercises programs uaps horizon_start total_days cst = (Inr (fst cst), snd cst)"
| "drafts_loop (Suc k) e usr exercises programs uaps horizon_start total_days cst =
     (case workout_draft e usr exercises programs uaps horizon_start total_days cst of
        (Inl err, st1) \<Rightarrow> (Inl err, st1)
      | (Inr c1, st1) \<Rightarrow>
          drafts_loop k e usr exercises programs uaps horizon_start total_days (c1, st1))"

text \<open>The body of \<^verbatim>\<open>for user in users\<close>.\<close>

definition user_workouts ::
  "env \<Rightarrow> exercise list \<Rightarrow> program list \<Rightarrow> user_program list \<Rightarrow> datetime \<Rightarrow> datetime
     \<Rightarrow> user \<Rightarrow> counters \<times> gen_state \<Rightarrow> (py_error + counters) \<times> gen_state" where
  "user_workouts e exercises programs user_programs horizon_start end_date usr cst =
     (let (workout_frequency, st1) = uniform (25 / 10) (45 / 10) (snd cst);
          total_days = td_days (dt_sub end_date horizon_start);
          num_workouts = py_int (fdiv (fmul (of_int total_days) workout_frequency) 7);
          user_active_programs =
            filter (\<lambda>up. up_user_id up = u_id usr \<and> active up) user_programs
      in drafts_loop (nat num_workouts) e usr exercises programs user_active_programs
           horizon_start total_days (fst cst, st1))"

fun users_loop ::
  "env \<Rightarrow> exercise list \<Rightarrow> program list \<Rightarrow> user_program list \<Rightarrow> datetime \<Rightarrow> datetime
     \<Rightarrow> user list \<Rightarrow> counters \<times> gen_state \<Rightarrow> (py_error + counters) \<times> gen_state" where
  "users_loop e exercises programs user_programs horizon_start end_date [] cst =
     (Inr (fst cst), snd cst)"
| "users_loop e exercises programs user_programs horizon_start end_date (usr # rest) cst =
     (case user_workouts e exercises programs user_programs horizon_start end_date usr cst of
        (Inl err, st1) \<Rightarrow> (Inl err, st1)
      | (Inr c1, st1) \<Rightarrow>
          users_loop e exercises programs user_programs horizon_start end_date rest (c1, st1))"

definition generate_realistic_workout_data ::
  "env \<Rightarrow> user list \<Rightarrow> exercise list \<Rightarrow> program list \<Rightarrow> user_program list \<Rightarrow> gen_state
     \<Rightarrow> (py_error + counters) \<times> gen_state" where
  "generate_realistic_workout_data e users exercises programs user_programs st =
     (let horizon_start = minus_days (now e) 365;
          end_date = now e
      in case users_loop e exercises programs user_programs horizon_start end_date users
                (\<lparr>sessions_created = 0, sets_created = 0\<rparr>, st) of
           (Inl err, st1) \<Rightarrow> (Inl err, st1)
         | (Inr c, st1) \<Rightarrow> (Inr c, commit st1))"

section \<open>The loaders and \<^verbatim>\<open>main\<close>\<close>

fun create_users_loop :: "env \<Rightarrow> user_fixture list \<Rightarrow> user list \<times> gen_state \<Rightarrow> user list \<times> gen_state" where
  "create_users_loop e [] (users, st) = (users, st)"
| "create_users_loop e (user_data # rest) (users, st) =
     (let (i, st1) = uuid4 st;
          usr = \<lparr>u_id = i, email = uf_email user_data,
                 password_hash = bcrypt e (uf_password user_data)\<rparr>
      in create_users_loop e rest (users @ [usr], add (EUser usr) st1))"

definition create_users :: "env \<Rightarrow> gen_state \<Rightarrow> user list \<times> gen_state" where
  "create_users e st =
     (let (users, st1) = create_users_loop e (users_json e) ([], st) in (users, commit st1))"

fun create_exercises_loop ::
  "user list \<Rightarrow> exercise_fixture list \<Rightarrow> exercise list \<times> gen_state
     \<Rightarrow> (py_error + exercise list) \<times> gen_state" where
  "create_exercises_loop users [] (exercises, st) = (Inr exercises, st)"
| "create_exercises_loop users (exercise_data # rest) (exercises, st) =
     (case choice users st of
        (Inl err, st1) \<Rightarrow> (Inl err, st1)
      | (Inr creator, st1) \<Rightarrow>
          (let (i, st2) = uuid4 st1;
               ex = \<lparr>ex_id = i, slug = ef_slug exercise_data, ex_name = ef_name exercise_data,
                     ex_description = ef_description exercise_data,
                     target_muscles = ef_target_muscles exercise_data,
                     created_by = u_id creator\<rparr>
           in create_exercises_loop users rest (exercises @ [ex], add (EExercise ex) st2)))"

definition create_exercises ::
  "env \<Rightarrow> user list \<Rightarrow> gen_state \<Rightarrow> (py_error + exercise list) \<times> gen_state" where
  "create_exercises e users st =
     (case create_exercises_loop users (exercises_json e) ([], st) of
        (Inl err, st1) \<Rightarrow> (Inl err, st1)
      | (Inr exercises, st1) \<Rightarrow> (Inr exercises, commit st1))"

text \<open>
  \<^verbatim>\<open>{ex.slug: ex for ex in exercises}\<close>: a later exercise with the same slug replaces
  an earlier one. Subscripting raises \<^verbatim>\<open>KeyError\<close> on a missing key.
\<close>

definition exercise_lookup :: "exercise list \<Rightarrow> string \<Rightarrow> exercise option" where
  "exercise_lookup exercises = map_of (rev (map (\<lambda>ex. (slug ex, ex)) exercises))"

fun create_entries_loop ::
  "(string \<Rightarrow> exercise option) \<Rightarrow> uuid \<Rightarrow> entry_fixture list \<Rightarrow> program_entry list \<times> gen_state
     \<Rightarrow> (py_error + program_entry list) \<times> gen_state" where
  "create_entries_loop lookup pid [] (acc, st) = (Inr acc, st)"
| "create_entries_loop lookup pid (entry_data # rest) (acc, st) =
     (case lookup (nf_exercise_slug entry_data) of
        None \<Rightarrow> (Inl (KeyError (nf_exercise_slug entry_data)), st)
      | Some ex \<Rightarrow>
          (let (i, st1) = uuid4 st;
               program_entry = \<lparr>pe_id = i, pe_program_id = pid, pe_exercise_id = ex_id ex,
                                day_of_week = nf_day_of_week entry_data,
                                position = nf_position entry_data\<rparr>
           in create_entries_loop lookup pid rest
                (acc @ [program_entry], add (EProgramEntry program_entry) st1)))"

text \<open>
  The program is added and flushed before its entries exist; the program appended to
  \<open>programs\<close> carries them, as \<^verbatim>\<open>program.entries\<close> does when it is read later.
\<close>

fun create_programs_loop ::
  "user list \<Rightarrow> (string \<Rightarrow> exercise option) \<Rightarrow> program_fixture list \<Rightarrow> program list \<times> gen_state
     \<Rightarrow> (py_error + program list) \<times> gen_state" where
  "create_programs_loop users lookup [] (programs, st) = (Inr programs, st)"
| "create_programs_loop users lookup (program_data # rest) (programs, st) =
     (case choice users st of
        (Inl err, st1) \<Rightarrow> (Inl err, st1)
      | (Inr owner, st1) \<Rightarrow>
          (let (i, st2) = uuid4 st1;
               prog = \<lparr>p_id = i, p_name = pf_name program_data,
                       p_description = pf_description program_data,
                       owner_id = u_id owner, entries = []\<rparr>;
               st3 = flush (add (EProgram prog) st2)
           in case create_entries_loop lookup i (pf_entries program_data) ([], st3) of
                (Inl err, st4) \<Rightarrow> (Inl err, st4)
              | (Inr es, st4) \<Rightarrow>
                  create_programs_loop users lookup rest
                    (programs @ [prog\<lparr>entries := es\<rparr>], st4)))"

definition create_programs ::
  "env \<Rightarrow> user list \<Rightarrow> exercise list \<Rightarrow> gen_state \<Rightarrow> (py_error + program list) \<times> gen_state" where
  "create_programs e users exercises st =
     (case create_programs_loop users (exercise_lookup exercises) (programs_json e) ([], st) of
        (Inl err, st1) \<Rightarrow> (Inl err, st1)
      | (Inr programs, st1) \<Rightarrow> (Inr programs, commit st1))"

text \<open>\<^verbatim>\<open>for program in assigned_programs\<close>.\<close>

fun assign_loop ::
  "env \<Rightarrow> user \<Rightarrow> program list \<Rightarrow> user_program list \<times> gen_state
     \<Rightarrow> user_program list \<times> gen_state" where
  "assign_loop e usr [] (ups, st) = (ups, st)"
| "assign_loop e usr (prog # rest) (ups, st) =
     (let (days, st1) = randint 30 365 st;
          start = strftime_date (minus_days (now e) days);
          (i, st2) = uuid4 st1;
          (a, st3) = choice_lit True [False] st2;
          up = \<lparr>up_id = i, up_user_id = u_id usr, up_program_id = p_id prog,
                start_date = start, active = a\<rparr>
      in assign_loop e usr rest (ups @ [up], add (EUserProgram up) st3))"

fun create_user_programs_loop ::
  "env \<Rightarrow> program list \<Rightarrow> user list \<Rightarrow> user_program list \<times> gen_state
     \<Rightarrow> (py_error + user_program list) \<times> gen_state" where
  "create_user_programs_loop e programs [] (ups, st) = (Inr ups, st)"
| "create_user_programs_loop e programs (usr # rest) (ups, st) =
     (let (num_assignments, st1) = randint 1 3 st
      in case sample programs (min num_assignments (int (length programs))) st1 of
           (Inl err, st2) \<Rightarrow> (Inl err, st2)
         | (Inr assigned_programs, st2) \<Rightarrow>
             create_user_programs_loop e programs rest
               (assign_loop e usr assigned_programs (ups, st2)))"

definition create_user_programs ::
  "env \<Rightarrow> user list \<Rightarrow> program list \<Rightarrow> gen_state
     \<Rightarrow> (py_error + user_program list) \<times> gen_state" where
  "create_user_programs e users programs st =
     (case create_user_programs_loop e programs users ([], st) of
        (Inl err, st1) \<Rightarrow> (Inl err, st1)
      | (Inr ups, st1) \<Rightarrow> (Inr ups, commit st1))"

text \<open>
  \<^verbatim>\<open>main\<close>: the \<^verbatim>\<open>except\<close> clause rolls back and raises again, the
  \<^verbatim>\<open>finally\<close> clause closes the session.
\<close>

definition on_error :: "py_error \<Rightarrow> gen_state \<Rightarrow> (py_error + unit) \<times> gen_state" where
  "on_error err st = (Inl err, close (rollback st))"

definition main :: "env \<Rightarrow> gen_state \<Rightarrow> (py_error + unit) \<times> gen_state" where
  "main e st =
     (let (users, st1) = create_users e st
      in case create_exercises e users st1 of
           (Inl err, st2) \<Rightarrow> on_error err st2
         | (Inr exercises, st2) \<Rightarrow>
             (case create_programs e users exercises st2 of
                (Inl err, st3) \<Rightarrow> on_error err st3
              | (Inr programs, st3) \<Rightarrow>
                  (case create_user_programs e users programs st3 of
                     (Inl err, st4) \<Rightarrow> on_error err st4
                   | (Inr user_programs, st4) \<Rightarrow>
                       (case generate_realistic_workout_data e users exercises programs
                               user_programs st4 of
                          (Inl err, st5) \<Rightarrow> on_error err st5
                        | (Inr c, st5) \<Rightarrow> (Inr (), close st5)))))"

text \<open>
  The persistence gateway, as far as the script relies on it: what is in storage after
  a sequence of calls. \<open>Commit\<close> makes the pending entities durable, \<open>Rollback\<close>
  drops them.
\<close>

fun gateway_step :: "db_event \<Rightarrow> entity list \<times> entity list \<Rightarrow> entity list \<times> entity list" where
  "gateway_step (Add x) (pending, stored) = (pending @ [x], stored)"
| "gateway_step Commit (pending, stored) = ([], stored @ pending)"
| "gateway_step Rollback (pending, stored) = ([], stored)"
| "gateway_step Flush (pending, stored) = (pending, stored)"
| "gateway_step Close (pending, stored) = ([], stored)"

definition committed :: "gen_state \<Rightarrow> entity list" where
  "committed st = snd (fold gateway_step (log st) ([], []))"

section \<open>Reference definitions, following the specification\<close>

text \<open>
  The weight model as the specification words it: a base weight from the table, 20 for
  a slug the table does not have; 0 at once for a base of 0; otherwise the base times
  the tier multiplier \<open>0.6 + 0.2 * tier\<close> times the jitter, rounded to one decimal.
  First in exact arithmetic: the product is the product of the three numbers, and the
  result is the decimal with one digit nearest to it.
\<close>

definition tier_multiplier_exact :: "int \<Rightarrow> rat" where
  "tier_multiplier_exact tier = 6 / 10 + 2 / 10 * of_int tier"

definition round1_exact :: "rat \<Rightarrow> rat" where
  "round1_exact x = of_int (py_round (x * 10)) / 10"

definition weight_reference_exact ::
  "(string \<Rightarrow> int option) \<Rightarrow> string \<Rightarrow> int \<Rightarrow> rat \<Rightarrow> rat" where
  "weight_reference_exact table s tier jitter =
     (let base = (case table s of None \<Rightarrow> 20 | Some b \<Rightarrow> b)
      in if base = 0 then 0
         else round1_exact (of_int base * tier_multiplier_exact tier * jitter))"

text \<open>
  The same in double arithmetic: the literals are doubles, every sum and product is
  rounded to a double, the products are taken from left to right.
\<close>

definition tier_multiplier :: "int \<Rightarrow> rat" where
  "tier_multiplier tier = fadd (fl (6 / 10)) (fmul (fl (2 / 10)) (of_int tier))"

definition weight_product :: "int \<Rightarrow> int \<Rightarrow> rat \<Rightarrow> rat" where
  "weight_product base tier jitter = fmul (fmul (of_int base) (tier_multiplier tier)) jitter"

definition weight_reference :: "(string \<Rightarrow> int option) \<Rightarrow> string \<Rightarrow> int \<Rightarrow> rat \<Rightarrow> rat" where
  "weight_reference table s tier jitter =
     (let base = (case table s of None \<Rightarrow> 20 | Some b \<Rightarrow> b)
      in if base = 0 then 0 else round1 (weight_product base tier jitter))"

text \<open>
  The rep model as the specification words it: a base drawn from the range of the
  slug's category; in the second half of the sets, a draw from 1 to 3 is subtracted,
  floored at 1.
\<close>

datatype rep_category = Compound | Isolation | Endurance | Unclassified

definition rep_category_of :: "string \<Rightarrow> rep_category" where
  "rep_category_of s =
     (if s \<in> set [''squat'', ''deadlift'', ''barbell-bench-press'', ''overhead-press'',
                       ''barbell-row'']
      then Compound
      else if s \<in> set [''bicep-curls'', ''tricep-dips'', ''lateral-raises'', ''calf-raises'']
      then Isolation
      else if s \<in> set [''plank'', ''mountain-climbers'', ''burpees''] then Endurance
      else Unclassified)"

fun rep_range :: "rep_category \<Rightarrow> int \<times> int" where
  "rep_range Compound = (3, 8)"
| "rep_range Isolation = (8, 15)"
| "rep_range Endurance = (10, 30)"
| "rep_range Unclassified = (5, 12)"

definition reps_reference :: "string \<Rightarrow> int \<Rightarrow> int \<Rightarrow> gen_state \<Rightarrow> int \<times> gen_state" where
  "reps_reference s set_number total_sets st =
     (let (base, st1) = randint (fst (rep_range (rep_category_of s)))
                                (snd (rep_range (rep_category_of s))) st
      in if set_number > total_sets div 2
         then (let (f, st2) = randint 1 3 st1 in (max 1 (base - f), st2))
         else (base, st1))"

text \<open>
  The checkpoint policy as the specification words it. A run accepts a sequence of
  sessions, each with its sets; the session that brings the count of accepted sessions
  to a multiple of 100 is followed at once by a commit, and nothing else commits.
\<close>

definition set_events :: "set_record list \<Rightarrow> db_event list" where
  "set_events rs = map (\<lambda>r. Add (ESet r)) rs"

definition block_events :: "int \<Rightarrow> session \<Rightarrow> set_record list \<Rightarrow> db_event list" where
  "block_events n s rs =
     [Add (ESession s), Flush] @ set_events rs @ (if n mod 100 = 0 then [Commit] else [])"

fun render :: "int \<Rightarrow> (session \<times> set_record list) list \<Rightarrow> db_event list" where
  "render n [] = []"
| "render n (b # bs) = block_events (n + 1) (fst b) (snd b) @ render (n + 1) bs"

text \<open>The sessions and the set records that a sequence of calls adds.\<close>

fun sessions_of :: "db_event list \<Rightarrow> session list" where
  "sessions_of [] = []"
| "sessions_of (Add (ESession s) # evs) = s # sessions_of evs"
| "sessions_of (ev # evs) = sessions_of evs"

fun sets_of :: "db_event list \<Rightarrow> set_record list" where
  "sets_of [] = []"
| "sets_of (Add (ESet r) # evs) = r # sets_of evs"
| "sets_of (ev # evs) = sets_of evs"

text \<open>The calls made to the session between two states of one run.\<close>

definition generated :: "gen_state \<Rightarrow> gen_state \<Rightarrow> db_event list" where
  "generated st st' = drop (length (log st)) (log st')"

text \<open>
  The shape of the calls a stretch of the synthesis makes, starting with \<open>n\<close> accepted
  sessions: complete blocks, and after them nothing if the stretch returns, or possibly
  the block of the session during which it raised. \<open>P\<close> holds of every session.
\<close>

definition trace_ok ::
  "(session \<Rightarrow> bool) \<Rightarrow> int \<Rightarrow> db_event list \<Rightarrow> py_error + counters \<Rightarrow> bool" where
  "trace_ok P n evs res =
     (\<exists>bs tl. evs = render n bs @ tl
        \<and> (\<forall>b \<in> set bs. P (fst b) \<and> (\<forall>r \<in> set (snd b). session_id r = s_id (fst b)))
        \<and> (case res of
             Inr c' \<Rightarrow> tl = [] \<and> sessions_created c' = n + int (length bs)
           | Inl err \<Rightarrow>
               tl = [] \<or> (\<exists>s rs. P s \<and> (\<forall>r \<in> set rs. session_id r = s_id s)
                                 \<and> tl = [Add (ESession s), Flush] @ set_events rs)))"

text \<open>
  What Python guarantees of the time-of-day fields of a \<^verbatim>\<open>datetime\<close>.
\<close>

definition well_formed_time :: "datetime \<Rightarrow> bool" where
  "well_formed_time d =
     (0 \<le> hour d \<and> hour d < 24 \<and> 0 \<le> minute d \<and> minute d < 60
      \<and> 0 \<le> second d \<and> second d < 60 \<and> 0 \<le> microsecond d \<and> microsecond d < 1000000)"

text \<open>
  The week index as the specification words it: the floor of the time from the start
  date (at midnight) to \<open>t\<close>, in days, divided by 7.
\<close>

definition weeks_between :: "datetime \<Rightarrow> date_text \<Rightarrow> int" where
  "weeks_between t start =
     \<lfloor>(rat_of_int (dt_sub t (strptime_date start)) / rat_of_int day_us) / 7\<rfloor>"

section \<open>Concrete inputs\<close>

definition clock0 :: datetime where
  "clock0 = \<lparr>ordinal = 739000, hour = 12, minute = 30, second = 15, microsecond = 7\<rparr>"

definition env0 :: env where
  "env0 = \<lparr>users_json = [], exercises_json = [], programs_json = [], now = clock0,
           bcrypt = (\<lambda>p. p), hash_str = (\<lambda>u. int u)\<rparr>"

definition state_a :: gen_state where
  "state_a = \<lparr>rng = [1 / 2, 3 / 4], next_uuid = 0, log = []\<rparr>"

definition state_b :: gen_state where
  "state_b = \<lparr>rng = [3 / 2], next_uuid = 9, log = [Flush]\<rparr>"

text \<open>
  A state whose next draw is a third, and one whose next draw puts the product of the
  weight model for \<open>squat\<close> and tier 0 next to \<open>38.45\<close>.
\<close>

definition state_third :: gen_state where
  "state_third = \<lparr>rng = [1 / 3], next_uuid = 0, log = []\<rparr>"

definition state_tie :: gen_state where
  "state_tie = \<lparr>rng = [23456248059219 / 2 ^ 53], next_uuid = 0, log = []\<rparr>"

text \<open>
  One user, the exercise \<open>squat\<close>, one program with a single entry on Tuesday
  (\<open>day_of_week = 1\<close>), and an active assignment that started 30 days before the clock
  reading. With every draw \<open>0\<close> the first drafted workout falls on the first day of the
  horizon, 365 days before the clock reading, a Tuesday.
\<close>

definition user0 :: user where
  "user0 = \<lparr>u_id = 0, email = ''a@example.com'', password_hash = ''secret''\<rparr>"

definition exercise0 :: exercise where
  "exercise0 = \<lparr>ex_id = 1, slug = ''squat'', ex_name = ''Squat'', ex_description = [],
                target_muscles = [''quadriceps''], created_by = 0\<rparr>"

definition entry0 :: program_entry where
  "entry0 = \<lparr>pe_id = 3, pe_program_id = 2, pe_exercise_id = 1, day_of_week = 1, position = 1\<rparr>"

definition program0 :: program where
  "program0 = \<lparr>p_id = 2, p_name = ''Strength'', p_description = [], owner_id = 0,
               entries = [entry0]\<rparr>"

definition assignment0 :: user_program where
  "assignment0 = \<lparr>up_id = 4, up_user_id = 0, up_program_id = 2, start_date = 738970,
                  active = True\<rparr>"

definition state0 :: gen_state where
  "state0 = \<lparr>rng = [], next_uuid = 5, log = []\<rparr>"

definition session0 :: session where
  "session0 = \<lparr>s_id = 5, s_user_id = 0, user_program_id = Some 4,
               prog_week_index = Some (- 48), prog_day_of_week = Some 1,
               started_at = \<lparr>ordinal = 738635, hour = 6, minute = 0, second = 15,
                              microsecond = 0\<rparr>,
               ended_at = \<lparr>ordinal = 738635, hour = 6, minute = 30, second = 15,
                            microsecond = 0\<rparr>\<rparr>"

text \<open>The same, with the fifth draw \<open>1/2\<close>: the coin says freeform.\<close>

definition state_free :: gen_state where
  "state_free = \<lparr>rng = [0, 0, 0, 0, 1 / 2], next_uuid = 5, log = []\<rparr>"

definition session_free :: session where
  "session_free = \<lparr>s_id = 5, s_user_id = 0, user_program_id = None,
               prog_week_index = None, prog_day_of_week = None,
               started_at = \<lparr>ordinal = 738635, hour = 6, minute = 0, second = 15,
                              microsecond = 0\<rparr>,
               ended_at = \<lparr>ordinal = 738635, hour = 6, minute = 30, second = 15,
                            microsecond = 0\<rparr>\<rparr>"

text \<open>
  A program whose only entry is on Thursday (\<open>day_of_week = 3\<close>), and a state with five
  draws left: the drafted Tuesday workout finds no entry.
\<close>

definition entry_thu :: program_entry where
  "entry_thu = \<lparr>pe_id = 3, pe_program_id = 2, pe_exercise_id = 1, day_of_week = 3,
                position = 1\<rparr>"

definition program_thu :: program where
  "program_thu = \<lparr>p_id = 2, p_name = ''Strength'', p_description = [], owner_id = 0,
                  entries = [entry_thu]\<rparr>"

definition state_skip :: gen_state where
  "state_skip = \<lparr>rng = [0, 0, 0, 0, 0], next_uuid = 5, log = [Commit]\<rparr>"

definition tuesday_six :: datetime where
  "tuesday_six = \<lparr>ordinal = 738635, hour = 6, minute = 0, second = 15, microsecond = 7\<rparr>"

text \<open>
  The key that \<^verbatim>\<open>uq_set_session_exercise_index\<close> in \<^verbatim>\<open>models/session.py\<close> declares
  unique.
\<close>

definition set_key :: "set_record \<Rightarrow> uuid \<times> uuid \<times> int" where
  "set_key r = (session_id r, exercise_id r, set_index r)"

text \<open>
  A whole run of \<open>main\<close>: fixtures with one user, the exercise \<open>squat\<close> and one program
  with a single entry on Tuesday, a fresh session, every draw \<open>0\<close>. The loaders create
  \<open>user0\<close>, \<open>exercise0\<close>, \<open>program0\<close> and \<open>assignment0\<close>.
\<close>

definition env_main :: env where
  "env_main =
     \<lparr>users_json = [\<lparr>uf_email = ''a@example.com'', uf_password = ''secret''\<rparr>],
      exercises_json = [\<lparr>ef_slug = ''squat'', ef_name = ''Squat'', ef_description = [],
                         ef_target_muscles = [''quadriceps'']\<rparr>],
      programs_json = [\<lparr>pf_name = ''Strength'', pf_description = [],
                        pf_entries = [\<lparr>nf_exercise_slug = ''squat'', nf_day_of_week = 1,
                                       nf_position = 1\<rparr>]\<rparr>],
      now = clock0, bcrypt = (\<lambda>p. p), hash_str = (\<lambda>u. int u)\<rparr>"

definition state_init :: gen_state where
  "state_init = \<lparr>rng = [], next_uuid = 0, log = []\<rparr>"

definition after_users :: gen_state where
  "after_users = snd (create_users env_main state_init)"

definition after_exercises :: gen_state where
  "after_exercises = snd (create_exercises env_main [user0] after_users)"

definition after_programs :: gen_state where
  "after_programs = snd (create_programs env_main [user0] [exercise0] after_exercises)"

definition after_assignments :: gen_state where
  "after_assignments = snd (create_user_programs env_main [user0] [program0] after_programs)"

text \<open>
  The same run with a program fixture that schedules \<open>squat\<close> twice on Tuesday, at
  positions 1 and 2.
\<close>

definition env_dup :: env where
  "env_dup =
     \<lparr>users_json = [\<lparr>uf_email = ''a@example.com'', uf_password = ''secret''\<rparr>],
      exercises_json = [\<lparr>ef_slug = ''squat'', ef_name = ''Squat'', ef_description = [],
                         ef_target_muscles = [''quadriceps'']\<rparr>],
      programs_json = [\<lparr>pf_name = ''Strength'', pf_description = [],
                        pf_entries = [\<lparr>nf_exercise_slug = ''squat'', nf_day_of_week = 1,
                                       nf_position = 1\<rparr>,
                                      \<lparr>nf_exercise_slug = ''squat'', nf_day_of_week = 1,
                                       nf_position = 2\<rparr>]\<rparr>],
      now = clock0, bcrypt = (\<lambda>p. p), hash_str = (\<lambda>u. int u)\<rparr>"

definition program_dup :: program where
  "program_dup = \<lparr>p_id = 2, p_name = ''Strength'', p_description = [], owner_id = 0,
                  entries = [entry0,
                             \<lparr>pe_id = 4, pe_program_id = 2, pe_exercise_id = 1,
                              day_of_week = 1, position = 2\<rparr>]\<rparr>"

definition assignment_dup :: user_program where
  "assignment_dup = \<lparr>up_id = 5, up_user_id = 0, up_program_id = 2, start_date = 738970,
                     active = True\<rparr>"

definition dup_after_users :: gen_state where
  "dup_after_users = snd (create_users env_dup state_init)"

definition dup_after_exercises :: gen_state where
  "dup_after_exercises = snd (create_exercises env_dup [user0] dup_after_users)"

definition dup_after_programs :: gen_state where
  "dup_after_programs = snd (create_programs env_dup [user0] [exercise0] dup_after_exercises)"

definition dup_after_assignments :: gen_state where
  "dup_after_assignments =
     snd (create_user_programs env_dup [user0] [program_dup] dup_after_programs)"

text \<open>The assignments that a sequence of calls adds.\<close>

fun assignments_of :: "db_event list \<Rightarrow> user_program list" where
  "assignments_of [] = []"
| "assignments_of (Add (EUserProgram up) # evs) = up # assignments_of evs"
| "assignments_of (ev # evs) = assignments_of evs"

text \<open>The calls that building the programs makes.\<close>

fun program_event :: "db_event \<Rightarrow> bool" where
  "program_event (Add (EProgram p)) = True"
| "program_event (Add (EProgramEntry pe)) = True"
| "program_event Flush = True"
| "program_event other = False"

text \<open>
  Fixtures whose only program entry names \<open>bench-press\<close>, a slug that the exercise
  fixture does not have.
\<close>

definition env_bad :: env where
  "env_bad =
     \<lparr>users_json = [\<lparr>uf_email = ''a@example.com'', uf_password = ''secret''\<rparr>],
      exercises_json = [\<lparr>ef_slug = ''squat'', ef_name = ''Squat'', ef_description = [],
                         ef_target_muscles = [''quadriceps'']\<rparr>],
      programs_json = [\<lparr>pf_name = ''Strength'', pf_description = [],
                        pf_entries = [\<lparr>nf_exercise_slug = ''bench-press'', nf_day_of_week = 1,
                                       nf_position = 1\<rparr>]\<rparr>],
      now = clock0, bcrypt = (\<lambda>p. p), hash_str = (\<lambda>u. int u)\<rparr>"

section \<open>Rounding to a double\<close>

lemma py_round_mono: "x \<le> y \<Longrightarrow> py_round x \<le> py_round y"
proof -
  assume xy: "x \<le> y"
  have fm: "\<lfloor>x\<rfloor> \<le> \<lfloor>y\<rfloor>" using xy by (rule floor_mono)
  have bx: "\<lfloor>x\<rfloor> \<le> py_round x" "py_round x \<le> \<lfloor>x\<rfloor> + 1"
    by (simp_all add: py_round_def Let_def)
  have by': "\<lfloor>y\<rfloor> \<le> py_round y" "py_round y \<le> \<lfloor>y\<rfloor> + 1"
    by (simp_all add: py_round_def Let_def)
  show ?thesis
  proof (cases "\<lfloor>x\<rfloor> = \<lfloor>y\<rfloor>")
    case False
    then have "\<lfloor>x\<rfloor> + 1 \<le> \<lfloor>y\<rfloor>" using fm by simp
    then show ?thesis using bx by' by linarith
  next
    case True
    then have "x - of_int \<lfloor>x\<rfloor> \<le> y - of_int \<lfloor>y\<rfloor>" using xy by simp
    then show ?thesis using True
      by (auto simp: py_round_def Let_def)
  qed
qed

lemma py_round_of_int [simp]: "py_round (of_int n) = n"
  by (simp add: py_round_def)

lemma py_round_nonneg: "0 \<le> x \<Longrightarrow> 0 \<le> py_round x"
  by (auto simp: py_round_def Let_def)

lemma py_round_near: "\<bar>x - of_int (py_round x)\<bar> \<le> 1 / 2"
proof -
  have "of_int \<lfloor>x\<rfloor> \<le> x" "x < of_int \<lfloor>x\<rfloor> + 1" by linarith+
  then show ?thesis by (auto simp: py_round_def Let_def abs_le_iff)
qed

lemma exponent_bounds:
  assumes "0 < x"
  shows "2 powi (exponent x) \<le> x \<and> x < 2 powi (exponent x + 1)"
proof (cases "1 \<le> x")
  case True
  define n where "n = \<lfloor>x\<rfloor>"
  have n: "0 < n" using True by (simp add: n_def)
  have b: "2 ^ nat (bitlen n - 1) \<le> n" "n < 2 ^ nat (bitlen n)"
    using bitlen_bounds [OF n] by simp_all
  have b1: "1 \<le> bitlen n" using n by (simp add: bitlen_alt_def)
  have e: "exponent x = bitlen n - 1" using True by (simp add: exponent_def n_def)
  have "rat_of_int (2 ^ nat (bitlen n - 1)) \<le> rat_of_int n"
    using b(1) by (rule of_int_le_iff [THEN iffD2])
  also have "\<dots> \<le> x" by (simp add: n_def)
  finally have lo: "2 powi (bitlen n - 1) \<le> x"
    using b1 by (simp add: power_int_def)
  have "n + 1 \<le> 2 ^ nat (bitlen n)" using b(2) by simp
  then have "rat_of_int (n + 1) \<le> rat_of_int (2 ^ nat (bitlen n))"
    by (rule of_int_le_iff [THEN iffD2])
  moreover have "x < rat_of_int (n + 1)" unfolding n_def by linarith
  ultimately have hi: "x < 2 powi (bitlen n)"
    using b1 by (simp add: power_int_def)
  show ?thesis using lo hi e by simp
next
  case False
  define z where "z = 1 / x"
  define m where "m = \<lceil>z\<rceil> - 1"
  have z1: "1 < z" using False assms by (simp add: z_def)
  have m: "0 < m" using z1 by (simp add: m_def)
  have b: "2 ^ nat (bitlen m - 1) \<le> m" "m < 2 ^ nat (bitlen m)"
    using bitlen_bounds [OF m] by simp_all
  have b1: "1 \<le> bitlen m" using m by (simp add: bitlen_alt_def)
  have e: "exponent x = - bitlen m" using False by (simp add: exponent_def m_def z_def)
  have mz: "rat_of_int m < z" "z \<le> rat_of_int (m + 1)"
    unfolding m_def by linarith+
  have "m + 1 \<le> 2 ^ nat (bitlen m)" using b(2) by simp
  then have "rat_of_int (m + 1) \<le> rat_of_int (2 ^ nat (bitlen m))"
    by (rule of_int_le_iff [THEN iffD2])
  then have zle: "z \<le> 2 ^ nat (bitlen m)" using mz(2) by simp
  have "rat_of_int (2 ^ nat (bitlen m - 1)) \<le> rat_of_int m"
    using b(1) by (rule of_int_le_iff [THEN iffD2])
  moreover have "rat_of_int (2 ^ nat (bitlen m - 1)) = 2 ^ nat (bitlen m - 1)" by simp
  ultimately have zgt: "2 ^ nat (bitlen m - 1) < z" using mz(1) by linarith
  have x: "x = 1 / z" by (simp add: z_def)
  have lo: "1 / 2 ^ nat (bitlen m) \<le> x"
    unfolding x using zle z1 by (simp add: frac_le)
  have hi: "x < 1 / 2 ^ nat (bitlen m - 1)"
    unfolding x using zgt by (simp add: frac_less2)
  have p1: "(2::rat) powi (- bitlen m) = 1 / 2 ^ nat (bitlen m)"
    using b1 by (simp add: power_int_def field_simps)
  have p2: "(2::rat) powi (- bitlen m + 1) = 1 / 2 ^ nat (bitlen m - 1)"
  proof (cases "bitlen m = 1")
    case True
    then show ?thesis by simp
  next
    case False
    then have "- bitlen m + 1 < 0" using b1 by simp
    moreover have "nat (- (- bitlen m + 1)) = nat (bitlen m - 1)" by simp
    ultimately show ?thesis by (simp add: power_int_def field_simps)
  qed
  show ?thesis using lo hi e p1 p2 by simp
qed

lemma fl_zero [simp]: "fl 0 = 0"
  by (simp add: fl_def)

lemma fl_pos_eq:
  "0 < x \<Longrightarrow>
     fl x = of_int (py_round (x / 2 powi (exponent x - 52))) * 2 powi (exponent x - 52)"
  by (simp add: fl_def Let_def)

lemma scaled_bounds:
  assumes "0 < x"
  shows "2 ^ 52 \<le> x / 2 powi (exponent x - 52)" and "x / 2 powi (exponent x - 52) \<le> 2 ^ 53"
proof -
  have p: "(0::rat) < 2 powi (exponent x - 52)" by simp
  have e: "2 powi (exponent x) \<le> x" "x < 2 powi (exponent x + 1)"
    using exponent_bounds [OF assms] by simp_all
  have a: "(2::rat) powi (exponent x) = 2 ^ 52 * 2 powi (exponent x - 52)"
    using power_int_add [of "2::rat" 52 "exponent x - 52"] by simp
  have b: "(2::rat) powi (exponent x + 1) = 2 ^ 53 * 2 powi (exponent x - 52)"
    using power_int_add [of "2::rat" 53 "exponent x - 52"] by (simp add: add.commute)
  show "2 ^ 52 \<le> x / 2 powi (exponent x - 52)"
    using e(1) p unfolding a by (simp add: pos_le_divide_eq)
  show "x / 2 powi (exponent x - 52) \<le> 2 ^ 53"
    using e(2) p unfolding b by (simp add: pos_divide_le_eq)
qed

lemma fl_pos_bounds:
  assumes "0 < x"
  shows "2 powi (exponent x) \<le> fl x" and "fl x \<le> 2 powi (exponent x + 1)"
proof -
  define u where "u = (2::rat) powi (exponent x - 52)"
  have p: "0 < u" by (simp add: u_def)
  have s: "2 ^ 52 \<le> x / u" "x / u \<le> 2 ^ 53"
    using scaled_bounds [OF assms] by (simp_all add: u_def)
  have "py_round (of_int (2 ^ 52)) \<le> py_round (x / u)"
    using s(1) by (intro py_round_mono) simp
  then have lo: "2 ^ 52 \<le> py_round (x / u)" by (simp only: py_round_of_int)
  have "py_round (x / u) \<le> py_round (of_int (2 ^ 53))"
    using s(2) by (intro py_round_mono) simp
  then have hi: "py_round (x / u) \<le> 2 ^ 53" by (simp only: py_round_of_int)
  have f: "fl x = of_int (py_round (x / u)) * u"
    using assms by (simp add: fl_pos_eq u_def)
  have a: "(2::rat) powi (exponent x) = 2 ^ 52 * u"
    using power_int_add [of "2::rat" 52 "exponent x - 52"] by (simp add: u_def)
  have b: "(2::rat) powi (exponent x + 1) = 2 ^ 53 * u"
    using power_int_add [of "2::rat" 53 "exponent x - 52"] by (simp add: u_def add.commute)
  have "rat_of_int (2 ^ 52) \<le> rat_of_int (py_round (x / u))"
    using lo by (rule of_int_le_iff [THEN iffD2])
  then show "2 powi (exponent x) \<le> fl x"
    unfolding f a using p by (simp add: mult_right_mono)
  have "rat_of_int (py_round (x / u)) \<le> rat_of_int (2 ^ 53)"
    using hi by (rule of_int_le_iff [THEN iffD2])
  then show "fl x \<le> 2 powi (exponent x + 1)"
    unfolding f b using p by (simp add: mult_right_mono)
qed

lemma fl_nonneg: "0 \<le> x \<Longrightarrow> 0 \<le> fl x"
proof (cases "x = 0")
  case True
  then show ?thesis by simp
next
  case False
  assume "0 \<le> x"
  then have x: "0 < x" using False by simp
  have "(0::rat) < 2 powi (exponent x)" by simp
  then show ?thesis using fl_pos_bounds(1) [OF x] by linarith
qed

lemma exponent_mono:
  assumes "0 < x" and "x \<le> y"
  shows "exponent x \<le> exponent y"
proof -
  have y: "0 < y" using assms by simp
  have "(2::rat) powi (exponent x) \<le> x" using exponent_bounds [OF assms(1)] by simp
  also have "\<dots> \<le> y" by (rule assms(2))
  also have "\<dots> < 2 powi (exponent y + 1)" using exponent_bounds [OF y] by simp
  finally have lt: "(2::rat) powi (exponent x) < 2 powi (exponent y + 1)" .
  show ?thesis
  proof (rule ccontr)
    assume "\<not> exponent x \<le> exponent y"
    then have "exponent y + 1 \<le> exponent x" by simp
    then have "(2::rat) powi (exponent y + 1) \<le> 2 powi (exponent x)"
      by (intro power_int_increasing) simp_all
    then show False using lt by simp
  qed
qed

text \<open>Rounding to a double is monotone.\<close>

lemma fl_mono:
  assumes "0 \<le> x" and "x \<le> y"
  shows "fl x \<le> fl y"
proof (cases "x = 0")
  case True
  then show ?thesis using fl_nonneg [of y] assms by simp
next
  case False
  then have x: "0 < x" using assms by simp
  then have y: "0 < y" using assms by simp
  have em: "exponent x \<le> exponent y" using x assms(2) by (rule exponent_mono)
  show ?thesis
  proof (cases "exponent x = exponent y")
    case True
    define u where "u = (2::rat) powi (exponent y - 52)"
    have p: "0 < u" by (simp add: u_def)
    have "x / u \<le> y / u" using assms(2) p by (simp add: divide_right_mono)
    then have "py_round (x / u) \<le> py_round (y / u)" by (rule py_round_mono)
    then have "rat_of_int (py_round (x / u)) \<le> rat_of_int (py_round (y / u))"
      by (rule of_int_le_iff [THEN iffD2])
    then have "rat_of_int (py_round (x / u)) * u \<le> rat_of_int (py_round (y / u)) * u"
      using p by (simp add: mult_right_mono)
    then show ?thesis
      using x y True by (simp add: fl_pos_eq u_def)
  next
    case False
    then have "exponent x + 1 \<le> exponent y" using em by simp
    then have "(2::rat) powi (exponent x + 1) \<le> 2 powi (exponent y)"
      by (intro power_int_increasing) simp_all
    then show ?thesis
      using fl_pos_bounds(2) [OF x] fl_pos_bounds(1) [OF y] by linarith
  qed
qed

text \<open>
  The value of \<open>fl\<close> at a rational whose binade is known: the significand is rounded
  there.
\<close>

lemma exponent_eqI:
  assumes "2 powi e \<le> x" and "x < 2 powi (e + 1)"
  shows "exponent x = e"
proof -
  have "(0::rat) < 2 powi e" by simp
  then have x: "0 < x" using assms(1) by linarith
  have b: "2 powi (exponent x) \<le> x" "x < 2 powi (exponent x + 1)"
    using exponent_bounds [OF x] by simp_all
  have "\<not> exponent x < e"
  proof
    assume "exponent x < e"
    then have "exponent x + 1 \<le> e" by simp
    then have "(2::rat) powi (exponent x + 1) \<le> 2 powi e"
      by (intro power_int_increasing) simp_all
    then show False using b(2) assms(1) by linarith
  qed
  moreover have "\<not> e < exponent x"
  proof
    assume "e < exponent x"
    then have "e + 1 \<le> exponent x" by simp
    then have "(2::rat) powi (e + 1) \<le> 2 powi (exponent x)"
      by (intro power_int_increasing) simp_all
    then show False using b(1) assms(2) by linarith
  qed
  ultimately show ?thesis by simp
qed

lemma fl_eqI:
  assumes "2 powi e \<le> x" and "x < 2 powi (e + 1)"
    and "of_int (py_round (x / 2 powi (e - 52))) * 2 powi (e - 52) = y"
  shows "fl x = y"
proof -
  have "(0::rat) < 2 powi e" by simp
  then have x: "0 < x" using assms(1) by linarith
  have "exponent x = e" using assms(1,2) by (rule exponent_eqI)
  then show ?thesis using x assms(3) by (simp add: fl_pos_eq)
qed

lemma floor_rat_numeral_div:
  "\<lfloor>(numeral a :: rat) / numeral b\<rfloor> = numeral a div numeral b"
  using floor_divide_of_int_eq [of "numeral a" "numeral b", where ?'a = rat] by simp

lemma floor_rat_one_div: "\<lfloor>(1::rat) / numeral b\<rfloor> = 1 div numeral b"
  using floor_divide_of_int_eq [of 1 "numeral b", where ?'a = rat] by simp

lemmas fl_eval = py_round_def Let_def floor_rat_numeral_div floor_rat_one_div

text \<open>The doubles that the concrete computations below go through.\<close>

lemma fl_table:
  "fl (21127510003801716987202668681 / 20282409603651670423947251286016) = 2401919801264025 / 2305843009213693952"
  "fl (1352160640243444094449866436335 / 10141204801825835211973625643008) = 4803839602528527 / 36028797018963968"
  "fl (900719925474099 / 4503599627370496) = 900719925474099 / 4503599627370496"
  "fl (1 / 5) = 3602879701896397 / 18014398509481984"
  "fl (3602879701896397 / 18014398509481984) = 3602879701896397 / 18014398509481984"
  "fl (900719925474099 / 2251799813685248) = 900719925474099 / 2251799813685248"
  "fl (1 / 2) = 1 / 2"
  "fl (5404319552844595 / 9007199254740992) = 5404319552844595 / 9007199254740992"
  "fl (3 / 5) = 5404319552844595 / 9007199254740992"
  "fl (14411518807585587 / 18014398509481984) = 3602879701896397 / 4503599627370496"
  "fl (4 / 5) = 3602879701896397 / 4503599627370496"
  "fl (3602879701896397 / 4503599627370496) = 3602879701896397 / 4503599627370496"
  "fl (1847076327172219289 / 2305843009213693952) = 3607570951508241 / 4503599627370496"
  "fl (33626877217699703 / 36028797018963968) = 4203359652212463 / 4503599627370496"
  "fl 1 = 1"
  "fl (5404319552844595 / 4503599627370496) = 5404319552844595 / 4503599627370496"
  "fl (6 / 5) = 5404319552844595 / 4503599627370496"
  "fl (3 / 2) = 3 / 2"
  "fl 2 = 2"
  "fl (5 / 2) = 5 / 2"
  "fl (9 / 2) = 9 / 2"
  "fl (192 / 5) = 5404319552844595 / 140737488355328"
  "fl (10808639105689191 / 281474976710656) = 1351079888211149 / 35184372088832"
  "fl (10822712854524723 / 281474976710656) = 2705678213631181 / 70368744177664"
  "fl (77 / 2) = 77 / 2"
  "fl (27021597764222975 / 562949953421312) = 48"
  "fl (597 / 10) = 4201014027406541 / 70368744177664"
  "fl (4203359652212463 / 70368744177664) = 4203359652212463 / 70368744177664"
  "fl 64 = 64"
  "fl (18014398509481985 / 281474976710656) = 64"
  "fl (1825 / 14) = 4586534218722743 / 35184372088832"
  "fl (1825 / 2) = 1825 / 2"
  "fl 1800000000 = 1800000000"
proof -
  show "fl (21127510003801716987202668681 / 20282409603651670423947251286016) = 2401919801264025 / 2305843009213693952"
    by (rule fl_eqI [of "-10"]) (simp_all add: fl_eval)
  show "fl (1352160640243444094449866436335 / 10141204801825835211973625643008) = 4803839602528527 / 36028797018963968"
    by (rule fl_eqI [of "-3"]) (simp_all add: fl_eval)
  show "fl (900719925474099 / 4503599627370496) = 900719925474099 / 4503599627370496"
    by (rule fl_eqI [of "-3"]) (simp_all add: fl_eval)
  show "fl (1 / 5) = 3602879701896397 / 18014398509481984"
    by (rule fl_eqI [of "-3"]) (simp_all add: fl_eval)
  show "fl (3602879701896397 / 18014398509481984) = 3602879701896397 / 18014398509481984"
    by (rule fl_eqI [of "-3"]) (simp_all add: fl_eval)
  show "fl (900719925474099 / 2251799813685248) = 900719925474099 / 2251799813685248"
    by (rule fl_eqI [of "-2"]) (simp_all add: fl_eval)
  show "fl (1 / 2) = 1 / 2"
    by (rule fl_eqI [of "-1"]) (simp_all add: fl_eval)
  show "fl (5404319552844595 / 9007199254740992) = 5404319552844595 / 9007199254740992"
    by (rule fl_eqI [of "-1"]) (simp_all add: fl_eval)
  show "fl (3 / 5) = 5404319552844595 / 9007199254740992"
    by (rule fl_eqI [of "-1"]) (simp_all add: fl_eval)
  show "fl (14411518807585587 / 18014398509481984) = 3602879701896397 / 4503599627370496"
    by (rule fl_eqI [of "-1"]) (simp_all add: fl_eval)
  show "fl (4 / 5) = 3602879701896397 / 4503599627370496"
    by (rule fl_eqI [of "-1"]) (simp_all add: fl_eval)
  show "fl (3602879701896397 / 4503599627370496) = 3602879701896397 / 4503599627370496"
    by (rule fl_eqI [of "-1"]) (simp_all add: fl_eval)
  show "fl (1847076327172219289 / 2305843009213693952) = 3607570951508241 / 4503599627370496"
    by (rule fl_eqI [of "-1"]) (simp_all add: fl_eval)
  show "fl (33626877217699703 / 36028797018963968) = 4203359652212463 / 4503599627370496"
    by (rule fl_eqI [of "-1"]) (simp_all add: fl_eval)
  show "fl 1 = 1"
    by (rule fl_eqI [of 0]) (simp_all add: fl_eval)
  show "fl (5404319552844595 / 4503599627370496) = 5404319552844595 / 4503599627370496"
    by (rule fl_eqI [of 0]) (simp_all add: fl_eval)
  show "fl (6 / 5) = 5404319552844595 / 4503599627370496"
    by (rule fl_eqI [of 0]) (simp_all add: fl_eval)
  show "fl (3 / 2) = 3 / 2"
    by (rule fl_eqI [of 0]) (simp_all add: fl_eval)
  show "fl 2 = 2"
    by (rule fl_eqI [of 1]) (simp_all add: fl_eval)
  show "fl (5 / 2) = 5 / 2"
    by (rule fl_eqI [of 1]) (simp_all add: fl_eval)
  show "fl (9 / 2) = 9 / 2"
    by (rule fl_eqI [of 2]) (simp_all add: fl_eval)
  show "fl (192 / 5) = 5404319552844595 / 140737488355328"
    by (rule fl_eqI [of 5]) (simp_all add: fl_eval)
  show "fl (10808639105689191 / 281474976710656) = 1351079888211149 / 35184372088832"
    by (rule fl_eqI [of 5]) (simp_all add: fl_eval)
  show "fl (10822712854524723 / 281474976710656) = 2705678213631181 / 70368744177664"
    by (rule fl_eqI [of 5]) (simp_all add: fl_eval)
  show "fl (77 / 2) = 77 / 2"
    by (rule fl_eqI [of 5]) (simp_all add: fl_eval)
  show "fl (27021597764222975 / 562949953421312) = 48"
    by (rule fl_eqI [of 5]) (simp_all add: fl_eval)
  show "fl (597 / 10) = 4201014027406541 / 70368744177664"
    by (rule fl_eqI [of 5]) (simp_all add: fl_eval)
  show "fl (4203359652212463 / 70368744177664) = 4203359652212463 / 70368744177664"
    by (rule fl_eqI [of 5]) (simp_all add: fl_eval)
  show "fl 64 = 64"
    by (rule fl_eqI [of 6]) (simp_all add: fl_eval)
  show "fl (18014398509481985 / 281474976710656) = 64"
    by (rule fl_eqI [of 6]) (simp_all add: fl_eval)
  show "fl (1825 / 14) = 4586534218722743 / 35184372088832"
    by (rule fl_eqI [of 7]) (simp_all add: fl_eval)
  show "fl (1825 / 2) = 1825 / 2"
    by (rule fl_eqI [of 9]) (simp_all add: fl_eval)
  show "fl 1800000000 = 1800000000"
    by (rule fl_eqI [of 30]) (simp_all add: fl_eval)
qed

lemmas float_ops = fadd_def fsub_def fmul_def fdiv_def fl_table

lemma round1_nonneg: "0 \<le> x \<Longrightarrow> 0 \<le> round1 x"
  by (simp add: round1_def py_round_nonneg fl_nonneg)

text \<open>
  \<open>round1\<close> returns the double of a decimal with one digit, and that decimal is a
  nearest one to the argument.
\<close>

lemma round1_nearest:
  "\<exists>n. round1 x = fl (of_int n / 10) \<and> \<bar>x * 10 - of_int n\<bar> \<le> 1 / 2"
  using py_round_near [of "x * 10"] by (auto simp: round1_def)

section \<open>Properties of the random draws\<close>

lemma random_unit_range: "0 \<le> fst (random_unit st) \<and> fst (random_unit st) < 1"
proof (cases "rng st")
  case Nil
  then show ?thesis by (simp add: random_unit_def)
next
  case (Cons r rs)
  have f: "0 \<le> frac r" "frac r < 1" by (simp_all add: frac_lt_1)
  have "0 \<le> frac r * 2 ^ 53" using f by simp
  then have lo: "0 \<le> \<lfloor>frac r * 2 ^ 53\<rfloor>" by simp
  have "frac r * 2 ^ 53 < 2 ^ 53" using f by simp
  then have "\<lfloor>frac r * 2 ^ 53\<rfloor> < 2 ^ 53" by (simp add: floor_less_iff)
  then have "rat_of_int \<lfloor>frac r * 2 ^ 53\<rfloor> < rat_of_int (2 ^ 53)"
    by (rule of_int_less_iff [THEN iffD2])
  then have hi: "rat_of_int \<lfloor>frac r * 2 ^ 53\<rfloor> / 2 ^ 53 < 1" by simp
  show ?thesis using lo hi Cons by (simp add: random_unit_def)
qed

lemma random_unit_log [simp]: "log (snd (random_unit st)) = log st"
  by (simp add: random_unit_def split: list.splits)

lemma random_unit_uuid [simp]: "next_uuid (snd (random_unit st)) = next_uuid st"
  by (simp add: random_unit_def split: list.splits)

text \<open>
  The draw of \<^verbatim>\<open>uniform(a, b)\<close> lies between the double of \<open>a\<close> and the value it takes
  for a unit draw of 1.
\<close>

lemma uniform_range:
  assumes "0 \<le> a" and "a \<le> b"
  shows "fl a \<le> fst (uniform a b st) \<and> fst (uniform a b st) \<le> fl (a + fl (fl (b - a)))"
proof -
  obtain u st' where u: "random_unit st = (u, st')" by (cases "random_unit st")
  with random_unit_range [of st] have r: "0 \<le> u" "u < 1" by simp_all
  define d where "d = fl (b - a)"
  have d: "0 \<le> d" unfolding d_def using assms by (intro fl_nonneg) simp
  have "d * u \<le> d * 1" using d r by (intro mult_left_mono) simp_all
  then have du: "d * u \<le> d" by simp
  have du0: "0 \<le> d * u" using d r by simp
  have f0: "0 \<le> fl (d * u)" using du0 by (rule fl_nonneg)
  have f1: "fl (d * u) \<le> fl d" using du0 du by (rule fl_mono)
  have lo: "fl a \<le> fl (a + fl (d * u))" using assms(1) f0 by (intro fl_mono) simp_all
  have hi: "fl (a + fl (d * u)) \<le> fl (a + fl d)"
    using assms(1) f0 f1 by (intro fl_mono) simp_all
  show ?thesis
    using lo hi by (simp add: uniform_def u fadd_def fmul_def fsub_def d_def)
qed

lemma jitter_literals:
  "0 \<le> fl (8 / 10)" "fl (8 / 10) \<le> fl (12 / 10)" "8 / 10 \<le> fl (fl (8 / 10))"
  "fl (fl (8 / 10) + fl (fl (fl (12 / 10) - fl (8 / 10)))) \<le> 12 / 10"
  by (simp_all add: fl_table)

lemma jitter_range:
  "8 / 10 \<le> fst (uniform (fl (8 / 10)) (fl (12 / 10)) st)
   \<and> fst (uniform (fl (8 / 10)) (fl (12 / 10)) st) \<le> 12 / 10"
  using uniform_range [OF jitter_literals(1) jitter_literals(2), of st]
    jitter_literals(3) jitter_literals(4)
  by linarith

lemma frequency_literals:
  "5 / 2 \<le> fl (25 / 10)" "fl (25 / 10 + fl (fl (45 / 10 - 25 / 10))) \<le> 9 / 2"
  by (simp_all add: fl_table)

lemma frequency_range:
  "5 / 2 \<le> fst (uniform (25 / 10) (45 / 10) st) \<and> fst (uniform (25 / 10) (45 / 10) st) \<le> 9 / 2"
  using uniform_range [of "25 / 10" "45 / 10" st] frequency_literals
  by simp

lemma uniform_log [simp]: "log (snd (uniform a b st)) = log st"
  by (simp add: uniform_def case_prod_beta)

lemma uniform_uuid [simp]: "next_uuid (snd (uniform a b st)) = next_uuid st"
  by (simp add: uniform_def case_prod_beta)

lemma randbelow_less:
  assumes "0 < n"
  shows "fst (randbelow n st) < n"
proof -
  obtain u st' where u: "random_unit st = (u, st')" by (cases "random_unit st")
  with random_unit_range [of st] have r: "0 \<le> u" "u < 1" by simp_all
  have "u * of_nat n < 1 * of_nat n"
    using assms r by (intro mult_strict_right_mono) simp_all
  then have "\<lfloor>u * of_nat n\<rfloor> < int n"
    by (simp add: floor_less_iff)
  then have "nat \<lfloor>u * of_nat n\<rfloor> < n"
    using assms by linarith
  then show ?thesis by (simp add: randbelow_def u)
qed

lemma randbelow_log [simp]: "log (snd (randbelow n st)) = log st"
  by (simp add: randbelow_def case_prod_beta)

lemma randbelow_uuid [simp]: "next_uuid (snd (randbelow n st)) = next_uuid st"
  by (simp add: randbelow_def case_prod_beta)

lemma randint_range:
  assumes "lo \<le> hi"
  shows "lo \<le> fst (randint lo hi st) \<and> fst (randint lo hi st) \<le> hi"
proof -
  have "fst (randbelow (nat (hi - lo + 1)) st) < nat (hi - lo + 1)"
    using assms by (intro randbelow_less) simp
  then show ?thesis
    by (auto simp: randint_def split: prod.splits)
qed

lemma randint_log [simp]: "log (snd (randint lo hi st)) = log st"
  by (simp add: randint_def case_prod_beta)

lemma randint_uuid [simp]: "next_uuid (snd (randint lo hi st)) = next_uuid st"
  by (simp add: randint_def case_prod_beta)

section \<open>The weight model\<close>

lemma base_weights_all_nonneg: "list_all (\<lambda>kv. 0 \<le> snd kv) base_weights"
  by (simp add: base_weights_def)

lemma base_weights_nonneg: "(s, v) \<in> set base_weights \<Longrightarrow> 0 \<le> v"
  using base_weights_all_nonneg by (auto simp: list_all_iff)

lemma dict_get_base_nonneg: "0 \<le> dict_get base_weights s 20"
  by (auto simp: dict_get_def split: option.splits dest!: map_of_SomeD base_weights_nonneg)

lemma tier_range: "(h::int) mod 3 \<in> {0, 1, 2}"
proof -
  have "0 \<le> h mod 3" "h mod 3 < 3" by simp_all
  then show ?thesis by auto
qed

lemma tier_multiplier_nonneg: "0 \<le> t \<Longrightarrow> 0 \<le> tier_multiplier t"
proof -
  assume t: "0 \<le> t"
  have a: "0 \<le> fl (6 / 10)" by (intro fl_nonneg) simp
  have b: "0 \<le> fl (2 / 10)" by (intro fl_nonneg) simp
  have c: "0 \<le> fl (fl (2 / 10) * of_int t)" using b t by (intro fl_nonneg) simp
  show ?thesis
    unfolding tier_multiplier_def fadd_def fmul_def using a c by (intro fl_nonneg) simp
qed

lemma weight_product_nonneg:
  assumes "0 \<le> b" and "0 \<le> t" and "0 \<le> j"
  shows "0 \<le> weight_product b t j"
proof -
  have m: "0 \<le> tier_multiplier t" using assms(2) by (rule tier_multiplier_nonneg)
  have bm: "0 \<le> fl (of_int b * tier_multiplier t)" using assms(1) m by (intro fl_nonneg) simp
  show ?thesis
    unfolding weight_product_def fmul_def using bm assms(3) by (intro fl_nonneg) simp
qed

lemma weight_value:
  "fst (generate_realistic_weight e s u st) =
     weight_reference (map_of base_weights) s (hash_str e u mod 3)
       (fst (uniform (fl (8 / 10)) (fl (12 / 10)) st))"
  by (simp add: generate_realistic_weight_def weight_reference_def weight_product_def
        tier_multiplier_def fmul_def dict_get_def Let_def case_prod_beta mult.commute)

lemma weight_rounded_product:
  "dict_get base_weights s 20 \<noteq> 0 \<Longrightarrow>
     fst (generate_realistic_weight e s u st) =
       round1 (weight_product (dict_get base_weights s 20) (hash_str e u mod 3)
                 (fst (uniform (fl (8 / 10)) (fl (12 / 10)) st)))"
  by (simp add: generate_realistic_weight_def weight_product_def tier_multiplier_def fmul_def
        Let_def case_prod_beta mult.commute)

lemma weight_nonneg: "0 \<le> fst (generate_realistic_weight e s u st)"
proof (cases "dict_get base_weights s 20 = 0")
  case True
  then show ?thesis by (simp add: generate_realistic_weight_def)
next
  case False
  have b: "0 \<le> dict_get base_weights s 20" by (rule dict_get_base_nonneg)
  have t: "0 \<le> hash_str e u mod 3" by simp
  have j: "0 \<le> fst (uniform (fl (8 / 10)) (fl (12 / 10)) st)"
    using jitter_range [of st] by simp
  show ?thesis
    unfolding weight_rounded_product [OF False]
    using b t j by (intro round1_nonneg weight_product_nonneg)
qed

lemma weight_draws_once:
  "dict_get base_weights s 20 \<noteq> 0 \<Longrightarrow>
     snd (generate_realistic_weight e s u st) = snd (uniform (fl (8 / 10)) (fl (12 / 10)) st)"
  by (simp add: generate_realistic_weight_def Let_def case_prod_beta)

text \<open>
  For the slug \<open>squat\<close>, a user of tier 0 and a unit draw of 0 the weight is the double
  of 38.4. The equation below is the definition with that case computed; it is the
  equation by which the concrete runs further down are evaluated.
\<close>

lemma weight_squat_zero_draw:
  "round1 (fmul (fmul 80 (fadd (fl (6 / 10)) (fmul 0 (fl (2 / 10)))))
             (fadd (fl (8 / 10)) (fmul (fsub (fl (12 / 10)) (fl (8 / 10))) 0)))
   = 5404319552844595 / 140737488355328"
  by (simp add: round1_def float_ops fl_eval)

lemma generate_realistic_weight_code [code]:
  "generate_realistic_weight e exercise_slug user_id st =
     (let base_weight = dict_get base_weights exercise_slug 20
      in if base_weight = 0 then (0, st)
         else (let user_hash = hash_str e user_id mod 3;
                   (u, st') = random_unit st
               in if base_weight = 80 \<and> user_hash = 0 \<and> u = 0
                  then (5404319552844595 / 140737488355328, st')
                  else (round1 (fmul (fmul (of_int base_weight)
                                        (fadd (fl (6 / 10)) (fmul (of_int user_hash) (fl (2 / 10)))))
                                  (fadd (fl (8 / 10)) (fmul (fsub (fl (12 / 10)) (fl (8 / 10))) u))),
                        st')))"
  using weight_squat_zero_draw
  by (simp add: generate_realistic_weight_def uniform_def Let_def case_prod_beta)

text \<open>
  C4, the claim as worded, read in exact arithmetic. For the slug \<open>squat\<close> (base 80), a
  user of tier 0 and the unit draw \<open>23456248059219 / 2 ^ 53\<close>, the function returns
  38.5. The exact product of the base, the multiplier \<open>0.6\<close> and the jitter is below
  38.45, whether the jitter is the double the function computes or the exact
  \<open>0.8 + 0.4 * draw\<close>, so its rounding to one decimal is 38.4: the double product is
  above 38.45 where the exact product is below it.
\<close>

theorem weight_differs_from_exact_rounding:
  "fst (generate_realistic_weight env0 ''squat'' 3 state_tie) = 385 / 10
   \<and> weight_reference_exact (map_of base_weights) ''squat'' (hash_str env0 3 mod 3)
       (fst (uniform (fl (8 / 10)) (fl (12 / 10)) state_tie)) = 384 / 10
   \<and> weight_reference_exact (map_of base_weights) ''squat'' (hash_str env0 3 mod 3)
       (8 / 10 + (12 / 10 - 8 / 10) * fst (random_unit state_tie)) = 384 / 10
   \<and> 80 * tier_multiplier_exact (hash_str env0 3 mod 3)
        * fst (uniform (fl (8 / 10)) (fl (12 / 10)) state_tie) < 3845 / 100
   \<and> 3845 / 100 < weight_product 80 (hash_str env0 3 mod 3)
        (fst (uniform (fl (8 / 10)) (fl (12 / 10)) state_tie))"
proof -
  have r: "random_unit state_tie
           = (23456248059219 / 9007199254740992, state_tie\<lparr>rng := []\<rparr>)"
    by (simp add: random_unit_def state_tie_def frac_def fl_eval)
  have u: "fst (random_unit state_tie) = 23456248059219 / 2 ^ 53"
    by (simp add: r)
  have j: "fst (uniform (fl (8 / 10)) (fl (12 / 10)) state_tie)
           = 3607570951508241 / 4503599627370496"
    by (simp add: uniform_def r float_ops)
  have h: "hash_str env0 3 mod 3 = 0" by (simp add: env0_def)
  have b: "map_of base_weights ''squat'' = Some 80" by (simp add: base_weights_def)
  have p: "weight_product 80 0 (3607570951508241 / 4503599627370496)
           = 2705678213631181 / 70368744177664"
    by (simp add: weight_product_def tier_multiplier_def float_ops)
  have w: "fst (generate_realistic_weight env0 ''squat'' 3 state_tie) = 385 / 10"
    unfolding weight_value j h
    by (simp add: weight_reference_def b p round1_def fl_eval fl_table)
  have x1: "weight_reference_exact (map_of base_weights) ''squat'' 0
              (3607570951508241 / 4503599627370496) = 384 / 10"
    by (simp add: weight_reference_exact_def b tier_multiplier_exact_def round1_exact_def fl_eval)
  have x2: "weight_reference_exact (map_of base_weights) ''squat'' 0
              (8 / 10 + (12 / 10 - 8 / 10) * (23456248059219 / 2 ^ 53)) = 384 / 10"
    by (simp add: weight_reference_exact_def b tier_multiplier_exact_def round1_exact_def fl_eval)
  have lt: "80 * tier_multiplier_exact 0 * (3607570951508241 / 4503599627370496) < 3845 / 100"
    by (simp add: tier_multiplier_exact_def)
  show ?thesis
    unfolding j h u using w x1 x2 lt p unfolding j h by simp
qed

text \<open>
  C4, amended. For every slug, user and state, the weight returned by
  \<open>generate_realistic_weight\<close> is the reference weight computed in double arithmetic,
  for the table \<open>base_weights\<close> (20 for a slug outside it), the tier
  \<open>hash_str e u mod 3\<close> in \<open>{0, 1, 2}\<close> and the jitter drawn from \<open>[0.8, 1.2]\<close>; it is never
  negative; for a base of 0 the function returns 0 without drawing anything; for any
  other base it draws once, and the result is the double of a decimal \<open>n / 10\<close> that
  is a nearest decimal with one digit to the double product of the base, the tier
  multiplier and the jitter.
\<close>

theorem weight_model_refines_float_reference:
  "fst (generate_realistic_weight e s u st) =
     weight_reference (map_of base_weights) s (hash_str e u mod 3)
       (fst (uniform (fl (8 / 10)) (fl (12 / 10)) st))
   \<and> hash_str e u mod 3 \<in> {0, 1, 2}
   \<and> 8 / 10 \<le> fst (uniform (fl (8 / 10)) (fl (12 / 10)) st)
   \<and> fst (uniform (fl (8 / 10)) (fl (12 / 10)) st) \<le> 12 / 10
   \<and> 0 \<le> fst (generate_realistic_weight e s u st)
   \<and> (dict_get base_weights s 20 = 0 \<longrightarrow> generate_realistic_weight e s u st = (0, st))
   \<and> (dict_get base_weights s 20 \<noteq> 0 \<longrightarrow>
        snd (generate_realistic_weight e s u st) = snd (uniform (fl (8 / 10)) (fl (12 / 10)) st)
        \<and> (\<exists>n. fst (generate_realistic_weight e s u st) = fl (of_int n / 10)
              \<and> \<bar>weight_product (dict_get base_weights s 20) (hash_str e u mod 3)
                    (fst (uniform (fl (8 / 10)) (fl (12 / 10)) st)) * 10 - of_int n\<bar> \<le> 1 / 2))"
proof -
  have pin: "dict_get base_weights s 20 \<noteq> 0 \<longrightarrow>
        (\<exists>n. fst (generate_realistic_weight e s u st) = fl (of_int n / 10)
              \<and> \<bar>weight_product (dict_get base_weights s 20) (hash_str e u mod 3)
                    (fst (uniform (fl (8 / 10)) (fl (12 / 10)) st)) * 10 - of_int n\<bar> \<le> 1 / 2)"
    using round1_nearest by (simp add: weight_rounded_product)
  have zero: "dict_get base_weights s 20 = 0 \<longrightarrow> generate_realistic_weight e s u st = (0, st)"
    by (simp add: generate_realistic_weight_def)
  show ?thesis
    using weight_value [of e s u st] weight_nonneg [of e s u st] tier_range [of "hash_str e u"]
      jitter_range [of st] weight_draws_once [of s e u st] pin zero
    by blast
qed

theorem weight_model_witness:
  "dict_get base_weights ''push-ups'' 20 = 0
   \<and> generate_realistic_weight env0 ''push-ups'' 1 state_third = (0, state_third)
   \<and> dict_get base_weights ''squat'' 20 \<noteq> 0
   \<and> fst (generate_realistic_weight env0 ''squat'' 1 state_third) = fl (597 / 10)
   \<and> weight_product 80 (hash_str env0 1 mod 3)
       (fst (uniform (fl (8 / 10)) (fl (12 / 10)) state_third))
     = 4203359652212463 / 70368744177664
   \<and> rng (snd (generate_realistic_weight env0 ''squat'' 1 state_third)) = []"
proof -
  have h: "dict_get base_weights ''push-ups'' 20 = 0" by code_simp
  have k: "dict_get base_weights ''squat'' 20 \<noteq> 0" by code_simp
  have u: "random_unit state_third
           = (1501199875790165 / 4503599627370496, state_third\<lparr>rng := []\<rparr>)"
    by (simp add: random_unit_def state_third_def frac_def fl_eval)
  have j: "fst (uniform (fl (8 / 10)) (fl (12 / 10)) state_third)
           = 4203359652212463 / 4503599627370496"
    by (simp add: uniform_def u float_ops)
  have t: "hash_str env0 1 mod 3 = 1" by (simp add: env0_def)
  have b: "map_of base_weights ''squat'' = Some 80" by (simp add: base_weights_def)
  have p0: "weight_product 80 1 (4203359652212463 / 4503599627370496)
            = 4203359652212463 / 70368744177664"
    by (simp add: weight_product_def tier_multiplier_def float_ops)
  have v0: "weight_reference (map_of base_weights) ''squat'' 1
              (4203359652212463 / 4503599627370496) = fl (597 / 10)"
    by (simp add: weight_reference_def b p0 round1_def fl_eval)
  have p: "weight_product 80 (hash_str env0 1 mod 3)
             (fst (uniform (fl (8 / 10)) (fl (12 / 10)) state_third))
           = 4203359652212463 / 70368744177664"
    unfolding j t by (rule p0)
  have v: "weight_reference (map_of base_weights) ''squat'' (hash_str env0 1 mod 3)
             (fst (uniform (fl (8 / 10)) (fl (12 / 10)) state_third)) = fl (597 / 10)"
    unfolding j t by (rule v0)
  have r: "rng (snd (uniform (fl (8 / 10)) (fl (12 / 10)) state_third)) = []"
    by (simp add: uniform_def u)
  show ?thesis
    using weight_model_refines_float_reference [of env0 "''push-ups''" 1 state_third]
      weight_model_refines_float_reference [of env0 "''squat''" 1 state_third] h k v p r
    by simp
qed

text \<open>
  C6. Two calls of the weight model for the same user and slug, made in any two states
  of the run whose jitter draws agree, return the same weight: nothing else of the
  state reaches the result, and the tier is \<open>hash_str e u mod 3\<close>, a value in
  \<open>{0, 1, 2}\<close> fixed by the user's identifier.
\<close>

theorem tier_stable_across_calls:
  assumes "fst (uniform (fl (8 / 10)) (fl (12 / 10)) st1)
           = fst (uniform (fl (8 / 10)) (fl (12 / 10)) st2)"
  shows "fst (generate_realistic_weight e s u st1) = fst (generate_realistic_weight e s u st2)
         \<and> hash_str e u mod 3 \<in> {0, 1, 2}"
  using assms tier_range [of "hash_str e u"]
  by (simp add: generate_realistic_weight_def Let_def case_prod_beta)

theorem tier_stable_witness:
  "fst (uniform (fl (8 / 10)) (fl (12 / 10)) state_a)
     = fst (uniform (fl (8 / 10)) (fl (12 / 10)) state_b)
   \<and> state_a \<noteq> state_b
   \<and> fst (generate_realistic_weight env0 ''squat'' 1 state_a) =
       fst (generate_realistic_weight env0 ''squat'' 1 state_b)"
proof -
  have h: "fst (uniform (fl (8 / 10)) (fl (12 / 10)) state_a)
           = fst (uniform (fl (8 / 10)) (fl (12 / 10)) state_b)"
    by (simp add: uniform_def random_unit_def state_a_def state_b_def frac_def fl_eval)
  have d: "state_a \<noteq> state_b"
    by (simp add: state_a_def state_b_def)
  show ?thesis
    using tier_stable_across_calls [OF h, of env0 "''squat''" 1] h d by simp
qed

section \<open>The rep model\<close>

lemma reps_source_eq: "generate_realistic_reps s n t st = reps_reference s n t st"
proof -
  have r: "\<And>lo hi st'. 1 \<le> lo \<Longrightarrow> lo \<le> hi \<Longrightarrow> max 1 (fst (randint lo hi st')) = fst (randint lo hi st')"
    using randint_range by (simp add: max_def) (metis order_trans)
  show ?thesis
    by (simp add: generate_realistic_reps_def reps_reference_def rep_category_of_def
          case_prod_beta Let_def r del: list.set)
qed

lemma reps_positive: "1 \<le> fst (generate_realistic_reps s n t st)"
  by (simp add: generate_realistic_reps_def case_prod_beta Let_def del: list.set)

lemma rep_range_ordered: "fst (rep_range c) \<le> snd (rep_range c) \<and> 1 \<le> fst (rep_range c)"
  by (cases c) simp_all

text \<open>
  C5. For every slug, set number and set count, \<open>generate_realistic_reps\<close> is the
  reference rep model; the base draw lies in the range of the slug's category; and the
  result is at least 1.
\<close>

theorem rep_model_refines_reference:
  "generate_realistic_reps s n t st = reps_reference s n t st
   \<and> fst (rep_range (rep_category_of s))
        \<le> fst (randint (fst (rep_range (rep_category_of s))) (snd (rep_range (rep_category_of s))) st)
   \<and> fst (randint (fst (rep_range (rep_category_of s))) (snd (rep_range (rep_category_of s))) st)
        \<le> snd (rep_range (rep_category_of s))
   \<and> 1 \<le> fst (generate_realistic_reps s n t st)"
  using reps_source_eq [of s n t st] reps_positive [of s n t st]
    randint_range [OF conjunct1 [OF rep_range_ordered], of "rep_category_of s" st]
  by simp



section \<open>The calls made by the synthesizer\<close>

lemma weight_log [simp]: "log (snd (generate_realistic_weight e s u st)) = log st"
  by (simp add: generate_realistic_weight_def Let_def case_prod_beta)

lemma reps_log [simp]: "log (snd (generate_realistic_reps s n t st)) = log st"
  by (simp add: generate_realistic_reps_def Let_def case_prod_beta del: list.set)

lemma choice_lit_log [simp]: "log (snd (choice_lit x xs st)) = log st"
  by (simp add: choice_lit_def case_prod_beta)

lemma uuid4_log [simp]: "log (snd (uuid4 st)) = log st"
  by (simp add: uuid4_def)

lemma choice_log [simp]: "log (snd (choice xs st)) = log st"
  by (simp add: choice_def case_prod_beta)

lemma sample_pool_log [simp]: "log (snd (sample_pool pool k st)) = log st"
  by (induction pool k st rule: sample_pool.induct) (simp_all add: case_prod_beta Let_def)

lemma sample_log [simp]: "log (snd (sample xs k st)) = log st"
  by (simp add: sample_def case_prod_beta)

lemma make_set_log:
  "\<exists>r. log (make_set e usr s ex k n st) = log st @ [Add (ESet r)]
       \<and> session_id r = s_id s \<and> exercise_id r = ex_id ex \<and> set_index r = k"
  by (simp add: make_set_def add_def case_prod_beta Let_def)

lemma sets_loop_log:
  "\<exists>rs. log (snd (sets_loop e usr s ex n ks (c, st))) = log st @ set_events rs
        \<and> map set_index rs = ks
        \<and> (\<forall>r \<in> set rs. session_id r = s_id s \<and> exercise_id r = ex_id ex)"
proof (induction ks arbitrary: c st)
  case Nil
  show ?case by (simp add: set_events_def)
next
  case (Cons k ks)
  obtain r where r: "log (make_set e usr s ex k n st) = log st @ [Add (ESet r)]"
      "session_id r = s_id s" "exercise_id r = ex_id ex" "set_index r = k"
    using make_set_log by blast
  obtain rs where rs: "log (snd (sets_loop e usr s ex n ks (c + 1, make_set e usr s ex k n st)))
        = log (make_set e usr s ex k n st) @ set_events rs"
      "map set_index rs = ks"
      "\<forall>r \<in> set rs. session_id r = s_id s \<and> exercise_id r = ex_id ex"
    using Cons.IH by blast
  show ?case
    by (rule exI [of _ "r # rs"]) (simp add: r rs set_events_def)
qed

lemma sets_loop_count: "fst (sets_loop e usr s ex n ks (c, st)) = c + int (length ks)"
  by (induction ks arbitrary: c st) simp_all


lemma program_sets_log:
  "\<exists>rs. log (snd (program_sets e usr s exs pes (c, st))) = log st @ set_events rs
        \<and> (\<forall>r \<in> set rs. session_id r = s_id s)"
proof (induction pes arbitrary: c st)
  case Nil
  show ?case by (simp add: set_events_def)
next
  case (Cons pe pes)
  show ?case
  proof (cases "find (\<lambda>ex. ex_id ex = pe_exercise_id pe) exs")
    case None
    then show ?thesis by (simp add: set_events_def)
  next
    case (Some ex)
    define n where "n = fst (randint 3 6 st)"
    define st1 where "st1 = snd (randint 3 6 st)"
    obtain c2 st2 where l: "sets_loop e usr s ex n [1..n] (c, st1) = (c2, st2)"
      by (cases "sets_loop e usr s ex n [1..n] (c, st1)")
    obtain rs1 where rs1: "log st2 = log st1 @ set_events rs1"
        "\<forall>r \<in> set rs1. session_id r = s_id s \<and> exercise_id r = ex_id ex"
      using sets_loop_log [of e usr s ex n "[1..n]" c st1] l by auto
    obtain rs2 where rs2: "log (snd (program_sets e usr s exs pes (c2, st2))) = log st2 @ set_events rs2"
        "\<forall>r \<in> set rs2. session_id r = s_id s"
      using Cons.IH by blast
    have "log st1 = log st" by (simp add: st1_def)
    then show ?thesis
      using Some l rs1 rs2
      by (intro exI [of _ "rs1 @ rs2"])
         (auto simp: case_prod_beta n_def [symmetric] st1_def [symmetric] set_events_def)
  qed
qed

lemma freeform_loop_log:
  "\<exists>rs. log (snd (freeform_loop e usr s exs (c, st))) = log st @ set_events rs
        \<and> (\<forall>r \<in> set rs. session_id r = s_id s)"
proof (induction exs arbitrary: c st)
  case Nil
  show ?case by (simp add: set_events_def)
next
  case (Cons ex exs)
  define n where "n = fst (randint 2 5 st)"
  define st1 where "st1 = snd (randint 2 5 st)"
  obtain c2 st2 where l: "sets_loop e usr s ex n [1..n] (c, st1) = (c2, st2)"
    by (cases "sets_loop e usr s ex n [1..n] (c, st1)")
  obtain rs1 where rs1: "log st2 = log st1 @ set_events rs1"
      "\<forall>r \<in> set rs1. session_id r = s_id s \<and> exercise_id r = ex_id ex"
    using sets_loop_log [of e usr s ex n "[1..n]" c st1] l by auto
  obtain rs2 where rs2: "log (snd (freeform_loop e usr s exs (c2, st2))) = log st2 @ set_events rs2"
      "\<forall>r \<in> set rs2. session_id r = s_id s"
    using Cons.IH by blast
  have "log st1 = log st" by (simp add: st1_def)
  then show ?case
    using l rs1 rs2
    by (intro exI [of _ "rs1 @ rs2"])
       (auto simp: case_prod_beta n_def [symmetric] st1_def [symmetric] set_events_def)
qed

lemma freeform_sets_log:
  "\<exists>rs. log (snd (freeform_sets e usr s exs (c, st))) = log st @ set_events rs
        \<and> (\<forall>r \<in> set rs. session_id r = s_id s)"
proof -
  define st1 where "st1 = snd (randint 3 8 st)"
  define k where "k = min (fst (randint 3 8 st)) (int (length exs))"
  have l1: "log st1 = log st" by (simp add: st1_def)
  show ?thesis
  proof (cases "sample exs k st1")
    case (Pair r st2)
    have l2: "log st2 = log st"
      using sample_log [of exs k st1] Pair l1 by simp
    show ?thesis
    proof (cases r)
      case (Inl err)
      then show ?thesis using Pair l2
        by (intro exI [of _ "[]"])
           (simp add: freeform_sets_def case_prod_beta k_def [symmetric] st1_def [symmetric] set_events_def)
    next
      case (Inr sel)
      obtain rs where rs: "log (snd (freeform_loop e usr s sel (c, st2))) = log st2 @ set_events rs"
          "\<forall>r \<in> set rs. session_id r = s_id s"
        using freeform_loop_log by blast
      show ?thesis using Pair Inr l2 rs
        by (intro exI [of _ rs])
           (simp add: freeform_sets_def case_prod_beta k_def [symmetric] st1_def [symmetric])
    qed
  qed
qed

lemma draw_workout_date_log [simp]: "log (snd (draw_workout_date hs td st)) = log st"
  by (simp add: draw_workout_date_def case_prod_beta)

lemma draft_session_log [simp]: "log (snd (draft_session e usr progs uaps hs td st)) = log st"
  by (simp add: draft_session_def case_prod_beta Let_def split: sum.splits option.splits prod.splits)


lemma materialise_log:
  "\<exists>rs. (\<forall>r \<in> set rs. session_id r = s_id s)
        \<and> (case fst (materialise e usr exs uaps (b, s, des) (c, st)) of
             Inr c' \<Rightarrow> sessions_created c' = sessions_created c + 1
                       \<and> log (snd (materialise e usr exs uaps (b, s, des) (c, st)))
                           = log st @ block_events (sessions_created c') s rs
           | Inl err \<Rightarrow> log (snd (materialise e usr exs uaps (b, s, des) (c, st)))
                           = log st @ [Add (ESession s), Flush] @ set_events rs)"
proof -
  define st1 where "st1 = flush (add (ESession s) st)"
  define R where "R = (if b \<and> uaps \<noteq> [] \<and> des \<noteq> []
                       then program_sets e usr s exs des (sets_created c, st1)
                       else freeform_sets e usr s exs (sets_created c, st1))"
  have l1: "log st1 = log st @ [Add (ESession s), Flush]"
    by (simp add: st1_def flush_def add_def)
  have "\<exists>rs. log (snd R) = log st1 @ set_events rs \<and> (\<forall>r \<in> set rs. session_id r = s_id s)"
  proof (cases "b \<and> uaps \<noteq> [] \<and> des \<noteq> []")
    case True
    then have "R = program_sets e usr s exs des (sets_created c, st1)" by (simp add: R_def)
    then show ?thesis using program_sets_log [of e usr s exs des "sets_created c" st1] by simp
  next
    case False
    then have "R = freeform_sets e usr s exs (sets_created c, st1)" unfolding R_def by auto
    then show ?thesis using freeform_sets_log [of e usr s exs "sets_created c" st1] by simp
  qed
  then obtain rs where rs: "log (snd R) = log st1 @ set_events rs"
      "\<forall>r \<in> set rs. session_id r = s_id s"
    by blast
  have m: "materialise e usr exs uaps (b, s, des) (c, st) =
             (case R of (Inl err, st2) \<Rightarrow> (Inl err, st2)
              | (Inr n, st2) \<Rightarrow>
                  (Inr \<lparr>sessions_created = sessions_created c + 1, sets_created = n\<rparr>,
                   if (sessions_created c + 1) mod 100 = 0 then commit st2 else st2))"
    by (simp add: materialise_def R_def st1_def Let_def split: prod.splits sum.splits)
  show ?thesis
    using rs l1
    by (intro exI [of _ rs])
       (auto simp: m block_events_def commit_def split: prod.splits sum.splits)
qed


lemma render_append: "render n (bs1 @ bs2) = render n bs1 @ render (n + int (length bs1)) bs2"
  by (induction bs1 arbitrary: n) (simp_all add: add.assoc)

lemma sessions_of_append [simp]: "sessions_of (xs @ ys) = sessions_of xs @ sessions_of ys"
  by (induction xs rule: sessions_of.induct) simp_all

lemma sessions_of_set_events [simp]: "sessions_of (set_events rs) = []"
  by (induction rs) (simp_all add: set_events_def)

lemma sessions_of_block [simp]: "sessions_of (block_events n s rs) = [s]"
  by (simp add: block_events_def)

lemma sessions_of_render [simp]: "sessions_of (render n bs) = map fst bs"
  by (induction bs arbitrary: n) simp_all

lemma trace_ok_nil: "sessions_created c = n \<Longrightarrow> trace_ok P n [] (Inr c)"
  unfolding trace_ok_def by (intro exI [of _ "[]"]) simp

lemma trace_ok_nil_error: "trace_ok P n [] (Inl err)"
  unfolding trace_ok_def by (intro exI [of _ "[]"]) simp

lemma trace_ok_compose:
  assumes "trace_ok P n evs1 (Inr c1)" and "trace_ok P (sessions_created c1) evs2 res"
  shows "trace_ok P n (evs1 @ evs2) res"
proof -
  obtain bs1 where b1: "evs1 = render n bs1"
      "\<forall>b \<in> set bs1. P (fst b) \<and> (\<forall>r \<in> set (snd b). session_id r = s_id (fst b))"
      "sessions_created c1 = n + int (length bs1)"
    using assms(1) by (auto simp: trace_ok_def)
  obtain bs2 tl where b2: "evs2 = render (sessions_created c1) bs2 @ tl"
      "\<forall>b \<in> set bs2. P (fst b) \<and> (\<forall>r \<in> set (snd b). session_id r = s_id (fst b))"
      "case res of
         Inr c' \<Rightarrow> tl = [] \<and> sessions_created c' = sessions_created c1 + int (length bs2)
       | Inl err \<Rightarrow>
           tl = [] \<or> (\<exists>s rs. P s \<and> (\<forall>r \<in> set rs. session_id r = s_id s)
                             \<and> tl = [Add (ESession s), Flush] @ set_events rs)"
    using assms(2) unfolding trace_ok_def by blast
  have "evs1 @ evs2 = render n (bs1 @ bs2) @ tl"
    by (simp add: b1 b2 render_append)
  moreover have "\<forall>b \<in> set (bs1 @ bs2). P (fst b) \<and> (\<forall>r \<in> set (snd b). session_id r = s_id (fst b))"
    using b1(2) b2(2) by auto
  moreover have "case res of
         Inr c' \<Rightarrow> tl = [] \<and> sessions_created c' = n + int (length (bs1 @ bs2))
       | Inl err \<Rightarrow>
           tl = [] \<or> (\<exists>s rs. P s \<and> (\<forall>r \<in> set rs. session_id r = s_id s)
                             \<and> tl = [Add (ESession s), Flush] @ set_events rs)"
    using b2(3) b1(3) by (cases res) simp_all
  ultimately show ?thesis unfolding trace_ok_def by blast
qed

lemma workout_draft_trace:
  assumes Pd: "\<And>b s des st'. draft_session e usr progs uaps hs td st = (Inr (Some (b, s, des)), st') \<Longrightarrow> P s"
  shows "\<exists>evs. log (snd (workout_draft e usr exs progs uaps hs td (c, st))) = log st @ evs
           \<and> trace_ok P (sessions_created c) evs (fst (workout_draft e usr exs progs uaps hs td (c, st)))"
proof -
  obtain r st1 where D: "draft_session e usr progs uaps hs td st = (r, st1)"
    by (cases "draft_session e usr progs uaps hs td st")
  have l: "log st1 = log st"
    using draft_session_log [of e usr progs uaps hs td st] D by simp
  show ?thesis
  proof (cases r)
    case (Inl err)
    then show ?thesis using D l
      by (intro exI [of _ "[]"]) (simp add: workout_draft_def trace_ok_nil_error)
  next
    case (Inr plan)
    show ?thesis
    proof (cases plan)
      case None
      then show ?thesis using D l Inr
        by (intro exI [of _ "[]"]) (simp add: workout_draft_def trace_ok_nil)
    next
      case (Some t)
      obtain b s des where t: "t = (b, s, des)" by (cases t)
      have P: "P s" using Pd D Inr Some t by simp
      have W: "workout_draft e usr exs progs uaps hs td (c, st)
               = materialise e usr exs uaps (b, s, des) (c, st1)"
        using D Inr Some t by (simp add: workout_draft_def)
      obtain rs where rs: "\<forall>r \<in> set rs. session_id r = s_id s"
        "case fst (materialise e usr exs uaps (b, s, des) (c, st1)) of
             Inr c' \<Rightarrow> sessions_created c' = sessions_created c + 1
                       \<and> log (snd (materialise e usr exs uaps (b, s, des) (c, st1)))
                           = log st1 @ block_events (sessions_created c') s rs
           | Inl err \<Rightarrow> log (snd (materialise e usr exs uaps (b, s, des) (c, st1)))
                           = log st1 @ [Add (ESession s), Flush] @ set_events rs"
        using materialise_log [of s e usr exs uaps b des c st1] by blast
      show ?thesis
      proof (cases "fst (materialise e usr exs uaps (b, s, des) (c, st1))")
        case (Inl err)
        have "trace_ok P (sessions_created c) ([Add (ESession s), Flush] @ set_events rs) (Inl err)"
          unfolding trace_ok_def
          using P rs(1)
          by (intro exI [of _ "[]"] exI [of _ "[Add (ESession s), Flush] @ set_events rs"]) auto
        then show ?thesis using rs(2) Inl l W
          by (intro exI [of _ "[Add (ESession s), Flush] @ set_events rs"]) simp
      next
        case (Inr c')
        have c': "sessions_created c' = sessions_created c + 1"
          and lg: "log (snd (materialise e usr exs uaps (b, s, des) (c, st1)))
                     = log st1 @ block_events (sessions_created c') s rs"
          using rs(2) Inr by simp_all
        have "trace_ok P (sessions_created c) (block_events (sessions_created c') s rs) (Inr c')"
          unfolding trace_ok_def
          using P rs(1) c'
          by (intro exI [of _ "[(s, rs)]"] exI [of _ "[]"]) simp
        then show ?thesis using lg Inr l W
          by (intro exI [of _ "block_events (sessions_created c') s rs"]) simp
      qed
    qed
  qed
qed


lemma drafts_loop_trace:
  assumes Pd: "\<And>st b s des st'.
      draft_session e usr progs uaps hs td st = (Inr (Some (b, s, des)), st') \<Longrightarrow> P s"
  shows "\<exists>evs. log (snd (drafts_loop k e usr exs progs uaps hs td (c, st))) = log st @ evs
           \<and> trace_ok P (sessions_created c) evs (fst (drafts_loop k e usr exs progs uaps hs td (c, st)))"
proof (induction k arbitrary: c st)
  case 0
  show ?case by (intro exI [of _ "[]"]) (simp add: trace_ok_nil)
next
  case (Suc k)
  obtain r1 st1 where W: "workout_draft e usr exs progs uaps hs td (c, st) = (r1, st1)"
    by (cases "workout_draft e usr exs progs uaps hs td (c, st)")
  have "\<exists>evs. log (snd (workout_draft e usr exs progs uaps hs td (c, st))) = log st @ evs
           \<and> trace_ok P (sessions_created c) evs (fst (workout_draft e usr exs progs uaps hs td (c, st)))"
    by (rule workout_draft_trace) (rule Pd)
  then obtain evs1 where e1: "log st1 = log st @ evs1" "trace_ok P (sessions_created c) evs1 r1"
    using W by auto
  show ?case
  proof (cases r1)
    case (Inl err)
    then show ?thesis using W e1 by (intro exI [of _ evs1]) simp
  next
    case (Inr c1)
    obtain evs2 where e2: "log (snd (drafts_loop k e usr exs progs uaps hs td (c1, st1))) = log st1 @ evs2"
        "trace_ok P (sessions_created c1) evs2 (fst (drafts_loop k e usr exs progs uaps hs td (c1, st1)))"
      using Suc.IH by blast
    have "trace_ok P (sessions_created c) (evs1 @ evs2)
            (fst (drafts_loop k e usr exs progs uaps hs td (c1, st1)))"
      using e1(2) e2(2) Inr by (intro trace_ok_compose [of P _ evs1 c1]) simp_all
    then show ?thesis using W Inr e1(1) e2(1)
      by (intro exI [of _ "evs1 @ evs2"]) simp
  qed
qed

lemma user_workouts_trace:
  assumes Pd: "\<And>st b s des st'.
      draft_session e usr progs (filter (\<lambda>up. up_user_id up = u_id usr \<and> active up) ups) hs
        (td_days (dt_sub ed hs)) st = (Inr (Some (b, s, des)), st') \<Longrightarrow> P s"
  shows "\<exists>evs. log (snd (user_workouts e exs progs ups hs ed usr (c, st))) = log st @ evs
           \<and> trace_ok P (sessions_created c) evs (fst (user_workouts e exs progs ups hs ed usr (c, st)))"
proof -
  define st1 where "st1 = snd (uniform (25 / 10) (45 / 10) st)"
  define f where "f = fst (uniform (25 / 10) (45 / 10) st)"
  have l: "log st1 = log st" by (simp add: st1_def)
  have U: "user_workouts e exs progs ups hs ed usr (c, st) =
           drafts_loop (nat (py_int (fdiv (fmul (of_int (td_days (dt_sub ed hs))) f) 7))) e usr exs progs
             (filter (\<lambda>up. up_user_id up = u_id usr \<and> active up) ups) hs (td_days (dt_sub ed hs)) (c, st1)"
    by (simp add: user_workouts_def case_prod_beta Let_def st1_def f_def)
  have "\<exists>evs. log (snd (drafts_loop (nat (py_int (fdiv (fmul (of_int (td_days (dt_sub ed hs))) f) 7))) e usr exs progs
             (filter (\<lambda>up. up_user_id up = u_id usr \<and> active up) ups) hs (td_days (dt_sub ed hs)) (c, st1)))
             = log st1 @ evs
           \<and> trace_ok P (sessions_created c) evs
               (fst (drafts_loop (nat (py_int (fdiv (fmul (of_int (td_days (dt_sub ed hs))) f) 7))) e usr exs progs
             (filter (\<lambda>up. up_user_id up = u_id usr \<and> active up) ups) hs (td_days (dt_sub ed hs)) (c, st1)))"
    by (rule drafts_loop_trace) (rule Pd)
  then show ?thesis
    unfolding U using l by simp
qed

lemma users_loop_trace:
  assumes Pd: "\<And>usr st b s des st'. usr \<in> set users \<Longrightarrow>
      draft_session e usr progs (filter (\<lambda>up. up_user_id up = u_id usr \<and> active up) ups) hs
        (td_days (dt_sub ed hs)) st = (Inr (Some (b, s, des)), st') \<Longrightarrow> P s"
  shows "\<exists>evs. log (snd (users_loop e exs progs ups hs ed users (c, st))) = log st @ evs
           \<and> trace_ok P (sessions_created c) evs (fst (users_loop e exs progs ups hs ed users (c, st)))"
  using Pd
proof (induction users arbitrary: c st)
  case Nil
  show ?case by (intro exI [of _ "[]"]) (simp add: trace_ok_nil)
next
  case (Cons usr rest)
  obtain r1 st1 where W: "user_workouts e exs progs ups hs ed usr (c, st) = (r1, st1)"
    by (cases "user_workouts e exs progs ups hs ed usr (c, st)")
  have Pu: "\<And>st b s des st'.
      draft_session e usr progs (filter (\<lambda>up. up_user_id up = u_id usr \<and> active up) ups) hs
        (td_days (dt_sub ed hs)) st = (Inr (Some (b, s, des)), st') \<Longrightarrow> P s"
    using Cons.prems [of usr] by simp
  have "\<exists>evs. log (snd (user_workouts e exs progs ups hs ed usr (c, st))) = log st @ evs
           \<and> trace_ok P (sessions_created c) evs (fst (user_workouts e exs progs ups hs ed usr (c, st)))"
    by (rule user_workouts_trace) (rule Pu)
  then obtain evs1 where e1: "log st1 = log st @ evs1" "trace_ok P (sessions_created c) evs1 r1"
    using W by auto
  show ?case
  proof (cases r1)
    case (Inl err)
    then show ?thesis using W e1 by (intro exI [of _ evs1]) simp
  next
    case (Inr c1)
    have "\<exists>evs. log (snd (users_loop e exs progs ups hs ed rest (c1, st1))) = log st1 @ evs
             \<and> trace_ok P (sessions_created c1) evs (fst (users_loop e exs progs ups hs ed rest (c1, st1)))"
    proof (rule Cons.IH)
      fix u st b s des st'
      assume "u \<in> set rest"
        and "draft_session e u progs (filter (\<lambda>up. up_user_id up = u_id u \<and> active up) ups) hs
               (td_days (dt_sub ed hs)) st = (Inr (Some (b, s, des)), st')"
      then show "P s" using Cons.prems [of u st b s des st'] by simp
    qed
    then obtain evs2 where e2: "log (snd (users_loop e exs progs ups hs ed rest (c1, st1))) = log st1 @ evs2"
        "trace_ok P (sessions_created c1) evs2 (fst (users_loop e exs progs ups hs ed rest (c1, st1)))"
      by blast
    have "trace_ok P (sessions_created c) (evs1 @ evs2)
            (fst (users_loop e exs progs ups hs ed rest (c1, st1)))"
      using e1(2) e2(2) Inr by (intro trace_ok_compose [of P _ evs1 c1]) simp_all
    then show ?thesis using W Inr e1(1) e2(1)
      by (intro exI [of _ "evs1 @ evs2"]) simp
  qed
qed


lemma generate_trace:
  assumes Pd: "\<And>usr st b s des st'. usr \<in> set users \<Longrightarrow>
      draft_session e usr progs (filter (\<lambda>up. up_user_id up = u_id usr \<and> active up) ups)
        (minus_days (now e) 365) (td_days (dt_sub (now e) (minus_days (now e) 365))) st
        = (Inr (Some (b, s, des)), st') \<Longrightarrow> P s"
  shows "\<exists>bs tl. log (snd (generate_realistic_workout_data e users exs progs ups st))
                   = log st @ render 0 bs @ tl
           \<and> (\<forall>b \<in> set bs. P (fst b) \<and> (\<forall>r \<in> set (snd b). session_id r = s_id (fst b)))
           \<and> (case fst (generate_realistic_workout_data e users exs progs ups st) of
                Inr c \<Rightarrow> tl = [Commit] \<and> sessions_created c = int (length bs)
              | Inl err \<Rightarrow>
                  tl = [] \<or> (\<exists>s rs. P s \<and> (\<forall>r \<in> set rs. session_id r = s_id s)
                                    \<and> tl = [Add (ESession s), Flush] @ set_events rs))"
proof -
  define c0 where "c0 = \<lparr>sessions_created = 0, sets_created = 0\<rparr>"
  define U where "U = users_loop e exs progs ups (minus_days (now e) 365) (now e) users (c0, st)"
  have "\<exists>evs. log (snd U) = log st @ evs \<and> trace_ok P (sessions_created c0) evs (fst U)"
    unfolding U_def by (rule users_loop_trace) (rule Pd)
  then obtain evs where ev: "log (snd U) = log st @ evs" "trace_ok P 0 evs (fst U)"
    by (auto simp: c0_def)
  from ev(2) obtain bs tl where t0: "evs = render 0 bs @ tl"
      "\<forall>b \<in> set bs. P (fst b) \<and> (\<forall>r \<in> set (snd b). session_id r = s_id (fst b))"
      "case fst U of
         Inr c' \<Rightarrow> tl = [] \<and> sessions_created c' = 0 + int (length bs)
       | Inl err \<Rightarrow>
           tl = [] \<or> (\<exists>s rs. P s \<and> (\<forall>r \<in> set rs. session_id r = s_id s)
                             \<and> tl = [Add (ESession s), Flush] @ set_events rs)"
    unfolding trace_ok_def by blast
  have t: "log (snd U) = log st @ render 0 bs @ tl" using ev(1) t0(1) by simp
  have G: "generate_realistic_workout_data e users exs progs ups st =
           (case U of (Inl err, st1) \<Rightarrow> (Inl err, st1) | (Inr c, st1) \<Rightarrow> (Inr c, commit st1))"
    by (simp add: generate_realistic_workout_data_def U_def c0_def Let_def)
  show ?thesis
  proof (cases "fst U")
    case (Inl err)
    then have "generate_realistic_workout_data e users exs progs ups st = (Inl err, snd U)"
      unfolding G by (cases U) simp
    then show ?thesis using t t0 Inl
      by (intro exI [of _ bs] exI [of _ tl]) simp
  next
    case (Inr c)
    then have "generate_realistic_workout_data e users exs progs ups st = (Inr c, commit (snd U))"
      unfolding G by (cases U) simp
    then show ?thesis using t t0 Inr
      by (intro exI [of _ bs] exI [of _ "[Commit]"]) (simp add: commit_def)
  qed
qed

lemma generated_append [simp]: "log st' = log st @ evs \<Longrightarrow> generated st st' = evs"
  by (simp add: generated_def)

lemma generate_sessions:
  assumes Pd: "\<And>usr st b s des st'. usr \<in> set users \<Longrightarrow>
      draft_session e usr progs (filter (\<lambda>up. up_user_id up = u_id usr \<and> active up) ups)
        (minus_days (now e) 365) (td_days (dt_sub (now e) (minus_days (now e) 365))) st
        = (Inr (Some (b, s, des)), st') \<Longrightarrow> P s"
    and s: "s \<in> set (sessions_of (generated st (snd (generate_realistic_workout_data e users exs progs ups st))))"
  shows "P s"
proof -
  have "\<exists>bs tl. log (snd (generate_realistic_workout_data e users exs progs ups st))
                   = log st @ render 0 bs @ tl
           \<and> (\<forall>b \<in> set bs. P (fst b) \<and> (\<forall>r \<in> set (snd b). session_id r = s_id (fst b)))
           \<and> (case fst (generate_realistic_workout_data e users exs progs ups st) of
                Inr c \<Rightarrow> tl = [Commit] \<and> sessions_created c = int (length bs)
              | Inl err \<Rightarrow>
                  tl = [] \<or> (\<exists>s rs. P s \<and> (\<forall>r \<in> set rs. session_id r = s_id s)
                                    \<and> tl = [Add (ESession s), Flush] @ set_events rs))"
    by (rule generate_trace) (rule Pd)
  then obtain bs tl where t: "log (snd (generate_realistic_workout_data e users exs progs ups st))
                   = log st @ render 0 bs @ tl"
      "\<forall>b \<in> set bs. P (fst b) \<and> (\<forall>r \<in> set (snd b). session_id r = s_id (fst b))"
      "case fst (generate_realistic_workout_data e users exs progs ups st) of
                Inr c \<Rightarrow> tl = [Commit] \<and> sessions_created c = int (length bs)
              | Inl err \<Rightarrow>
                  tl = [] \<or> (\<exists>s rs. P s \<and> (\<forall>r \<in> set rs. session_id r = s_id s)
                                    \<and> tl = [Add (ESession s), Flush] @ set_events rs)"
    by blast
  have g: "generated st (snd (generate_realistic_workout_data e users exs progs ups st)) = render 0 bs @ tl"
    using t(1) by simp
  have tl: "\<forall>x \<in> set (sessions_of tl). P x"
    using t(3) by (auto split: sum.splits)
  have bs: "\<forall>x \<in> set (map fst bs). P x" using t(2) by simp
  show ?thesis using s bs tl unfolding g by auto
qed

lemma horizon_days: "td_days (dt_sub d (minus_days d 365)) = 365"
  by (simp add: td_days_def dt_sub_def minus_days_def to_micros_def day_us_def algebra_simps)

lemma num_workouts_positive:
  assumes "5 / 2 \<le> f"
  shows "130 \<le> py_int (fdiv (fmul (of_int 365) f) 7)"
proof -
  have "(1825 / 2 :: rat) \<le> 365 * f" using assms by simp
  then have "fl (1825 / 2) \<le> fl (365 * f)" by (intro fl_mono) simp_all
  then have m: "1825 / 2 \<le> fl (365 * f)" by (simp add: fl_table)
  then have "(1825 / 14 :: rat) \<le> fl (365 * f) / 7" by simp
  then have "fl (1825 / 14) \<le> fl (fl (365 * f) / 7)" by (intro fl_mono) simp_all
  then have d: "130 \<le> fl (fl (365 * f) / 7)" by (simp add: fl_table)
  then have "130 \<le> \<lfloor>fl (fl (365 * f) / 7)\<rfloor>" by (simp add: le_floor_iff)
  then show ?thesis using d by (simp add: py_int_def fdiv_def fmul_def)
qed


section \<open>What a drafted session looks like\<close>

lemma draft_session_kind:
  assumes "draft_session e usr progs uaps hs td st = (Inr (Some (b, s, des)), st')"
  shows "(b \<longrightarrow> des \<noteq> []
              \<and> (\<exists>prog \<in> set progs.
                    des = filter (\<lambda>pe. day_of_week pe = weekday (started_at s)) (entries prog))
              \<and> user_program_id s \<noteq> None \<and> prog_week_index s \<noteq> None
              \<and> prog_day_of_week s \<noteq> None)
         \<and> (\<not> b \<longrightarrow> des = [] \<and> user_program_id s = None \<and> prog_week_index s = None
              \<and> prog_day_of_week s = None)"
proof -
  have w: "\<And>d. weekday (strftime_secs d) = weekday d"
    by (simp add: weekday_def strftime_secs_def)
  have f: "\<And>P xs x. find P xs = Some x \<Longrightarrow> x \<in> set xs"
    by (auto simp: find_Some_iff)
  show ?thesis
    using assms
    by (auto simp: draft_session_def Let_def case_prod_beta w dest: f
             split: if_splits sum.splits option.splits prod.splits)
qed

lemma time_of_day_bounds:
  assumes "well_formed_time d"
  shows "0 \<le> to_micros d - ordinal d * day_us" and "to_micros d - ordinal d * day_us < day_us"
proof -
  have h: "0 \<le> hour d" "hour d \<le> 23" "0 \<le> minute d" "minute d \<le> 59"
    "0 \<le> second d" "second d \<le> 59" "0 \<le> microsecond d" "microsecond d \<le> 999999"
    using assms by (simp_all add: well_formed_time_def)
  have eq: "to_micros d - ordinal d * day_us
            = hour d * 3600000000 + minute d * 60000000 + second d * 1000000 + microsecond d"
    by (simp add: to_micros_def day_us_def algebra_simps)
  have "0 \<le> hour d * 3600000000 + minute d * 60000000 + second d * 1000000 + microsecond d"
    using h by simp
  then show "0 \<le> to_micros d - ordinal d * day_us" using eq by simp
  have "hour d * 3600000000 + minute d * 60000000 + second d * 1000000 + microsecond d
        < 86400000000"
    using h by simp
  then show "to_micros d - ordinal d * day_us < day_us" using eq by (simp add: day_us_def)
qed

lemma days_since_midnight:
  assumes "well_formed_time d"
  shows "td_days (dt_sub d (strptime_date sd)) = ordinal d - sd"
proof -
  define r where "r = to_micros d - ordinal d * day_us"
  have r: "0 \<le> r" "r < day_us" using time_of_day_bounds [OF assms] by (simp_all add: r_def)
  have "dt_sub d (strptime_date sd) = (ordinal d - sd) * day_us + r"
    by (simp add: dt_sub_def r_def strptime_date_def to_micros_def day_us_def algebra_simps)
  moreover have "((ordinal d - sd) * day_us + r) div day_us = ordinal d - sd"
    using r by (simp add: day_us_def)
  ultimately show ?thesis by (simp add: td_days_def)
qed

lemma strftime_secs_wf: "well_formed_time d \<Longrightarrow> well_formed_time (strftime_secs d)"
  by (simp add: well_formed_time_def strftime_secs_def)

lemma weeks_between_eq:
  assumes "well_formed_time d"
  shows "weeks_between (strftime_secs d) sd = td_days (dt_sub d (strptime_date sd)) div 7"
proof -
  have a: "td_days (dt_sub (strftime_secs d) (strptime_date sd)) = ordinal d - sd"
    using days_since_midnight [OF strftime_secs_wf [OF assms], of sd]
    by (simp add: strftime_secs_def)
  have "weeks_between (strftime_secs d) sd
        = \<lfloor>rat_of_int (dt_sub (strftime_secs d) (strptime_date sd)) / rat_of_int (day_us * 7)\<rfloor>"
    by (simp add: weeks_between_def)
  also have "\<dots> = dt_sub (strftime_secs d) (strptime_date sd) div (day_us * 7)"
    by (rule floor_divide_of_int_eq)
  also have "\<dots> = (dt_sub (strftime_secs d) (strptime_date sd) div day_us) div 7"
    by (rule zdiv_zmult2_eq) simp
  also have "\<dots> = (ordinal d - sd) div 7"
    using a by (simp add: td_days_def)
  finally show ?thesis using days_since_midnight [OF assms, of sd] by simp
qed

lemma draw_workout_date_wf:
  assumes "well_formed_time hs"
  shows "well_formed_time (fst (draw_workout_date hs td st))"
proof -
  define st1 where "st1 = snd (randint 0 td st)"
  define st2 where "st2 = snd (randint 6 20 st1)"
  have h: "6 \<le> fst (randint 6 20 st1)" "fst (randint 6 20 st1) \<le> 20"
    using randint_range [of 6 20 st1] by simp_all
  have m: "0 \<le> fst (randint 0 59 st2)" "fst (randint 0 59 st2) \<le> 59"
    using randint_range [of 0 59 st2] by simp_all
  show ?thesis
    using assms h m
    by (simp add: draw_workout_date_def case_prod_beta well_formed_time_def replace_hm_def
          plus_days_def st1_def st2_def)
qed

lemma choice_mem: "fst (choice xs st) = Inr x \<Longrightarrow> x \<in> set xs"
  using randbelow_less [of "length xs" st]
  by (auto simp: choice_def case_prod_beta split: if_splits)

lemma draft_session_week_day:
  assumes wf: "well_formed_time hs"
    and d: "draft_session e usr progs uaps hs td st = (Inr (Some (b, s, des)), st')"
    and u: "user_program_id s = Some upid"
  shows "\<exists>up \<in> set uaps. up_id up = upid
           \<and> prog_day_of_week s = Some (weekday (started_at s))
           \<and> prog_week_index s = Some (weeks_between (started_at s) (start_date up))"
proof -
  define wd where "wd = fst (draw_workout_date hs td st)"
  have w: "well_formed_time wd" unfolding wd_def by (rule draw_workout_date_wf [OF wf])
  have wk: "\<And>sd. weeks_between (strftime_secs wd) sd = td_days (dt_sub wd (strptime_date sd)) div 7"
    by (rule weeks_between_eq [OF w])
  have dy: "weekday (strftime_secs wd) = weekday wd"
    by (simp add: weekday_def strftime_secs_def)
  show ?thesis
    using d u
    by (auto simp: draft_session_def Let_def case_prod_beta wd_def [symmetric] wk dy
           split: if_splits sum.splits option.splits prod.splits dest!: choice_mem intro: bexI)
qed


section \<open>The first draft of a run\<close>

lemma drafts_loop_extends:
  "\<exists>evs. log (snd (drafts_loop k e usr exs progs uaps hs td (c, st))) = log st @ evs"
proof -
  have "\<exists>evs. log (snd (drafts_loop k e usr exs progs uaps hs td (c, st))) = log st @ evs
           \<and> trace_ok (\<lambda>_. True) (sessions_created c) evs
                (fst (drafts_loop k e usr exs progs uaps hs td (c, st)))"
    by (rule drafts_loop_trace) simp
  then show ?thesis by blast
qed

lemma users_loop_extends:
  "\<exists>evs. log (snd (users_loop e exs progs ups hs ed users (c, st))) = log st @ evs"
proof -
  have "\<exists>evs. log (snd (users_loop e exs progs ups hs ed users (c, st))) = log st @ evs
           \<and> trace_ok (\<lambda>_. True) (sessions_created c) evs
                (fst (users_loop e exs progs ups hs ed users (c, st)))"
    by (rule users_loop_trace) simp
  then show ?thesis by blast
qed

lemma generate_extends_first_draft:
  assumes W: "workout_draft e usr exs progs
                (filter (\<lambda>up. up_user_id up = u_id usr \<and> active up) ups)
                (minus_days (now e) 365) 365
                (\<lparr>sessions_created = 0, sets_created = 0\<rparr>, snd (uniform (25 / 10) (45 / 10) st))
              = (Inr c1, st2)"
  shows "\<exists>evs. log (snd (generate_realistic_workout_data e (usr # rest) exs progs ups st))
               = log st2 @ evs"
proof -
  define c0 where "c0 = \<lparr>sessions_created = 0, sets_created = 0\<rparr>"
  define hs where "hs = minus_days (now e) 365"
  define uaps where "uaps = filter (\<lambda>up. up_user_id up = u_id usr \<and> active up) ups"
  define f where "f = fst (uniform (25 / 10) (45 / 10) st)"
  define st1 where "st1 = snd (uniform (25 / 10) (45 / 10) st)"
  have td: "td_days (dt_sub (now e) hs) = 365" unfolding hs_def by (rule horizon_days)
  have "5 / 2 \<le> f" using frequency_range [of st] by (simp add: f_def)
  then have "130 \<le> py_int (fdiv (fmul (of_int 365) f) 7)" by (rule num_workouts_positive)
  then obtain k where k: "nat (py_int (fdiv (fmul (of_int 365) f) 7)) = Suc k"
    by (cases "nat (py_int (fdiv (fmul (of_int 365) f) 7))") simp_all
  have U: "user_workouts e exs progs ups hs (now e) usr (c0, st)
           = drafts_loop (Suc k) e usr exs progs uaps hs 365 (c0, st1)"
    using k by (simp add: user_workouts_def case_prod_beta Let_def td f_def st1_def uaps_def)
  have W': "workout_draft e usr exs progs uaps hs 365 (c0, st1) = (Inr c1, st2)"
    using W by (simp add: c0_def hs_def uaps_def st1_def)
  have U2: "user_workouts e exs progs ups hs (now e) usr (c0, st)
            = drafts_loop k e usr exs progs uaps hs 365 (c1, st2)"
    unfolding U using W' by simp
  obtain r3 st3 where D: "drafts_loop k e usr exs progs uaps hs 365 (c1, st2) = (r3, st3)"
    by (cases "drafts_loop k e usr exs progs uaps hs 365 (c1, st2)")
  obtain evs1 where e1: "log st3 = log st2 @ evs1"
    using drafts_loop_extends [of k e usr exs progs uaps hs 365 c1 st2] D by auto
  have "\<exists>evs. log (snd (users_loop e exs progs ups hs (now e) (usr # rest) (c0, st))) = log st3 @ evs"
  proof (cases r3)
    case (Inl err)
    then show ?thesis using U2 D by simp
  next
    case (Inr c3)
    then show ?thesis
      using U2 D users_loop_extends [of e exs progs ups hs "now e" rest c3 st3] by simp
  qed
  then obtain evs2 where e2:
    "log (snd (users_loop e exs progs ups hs (now e) (usr # rest) (c0, st))) = log st3 @ evs2"
    by blast
  obtain r4 st4 where L: "users_loop e exs progs ups hs (now e) (usr # rest) (c0, st) = (r4, st4)"
    by (cases "users_loop e exs progs ups hs (now e) (usr # rest) (c0, st)")
  have G: "generate_realistic_workout_data e (usr # rest) exs progs ups st =
           (case r4 of Inl err \<Rightarrow> (Inl err, st4) | Inr c \<Rightarrow> (Inr c, commit st4))"
    using L by (simp add: generate_realistic_workout_data_def Let_def hs_def c0_def split: sum.splits)
  have l4: "log st4 = log st2 @ evs1 @ evs2" using e2 L e1 by simp
  show ?thesis
  proof (cases r4)
    case (Inl err)
    then show ?thesis using G l4 by simp
  next
    case (Inr c)
    then show ?thesis using G l4 by (simp add: commit_def)
  qed
qed

lemma first_draft_generated:
  assumes W: "fst (workout_draft e usr exs progs
                (filter (\<lambda>up. up_user_id up = u_id usr \<and> active up) ups)
                (minus_days (now e) 365) 365
                (\<lparr>sessions_created = 0, sets_created = 0\<rparr>, snd (uniform (25 / 10) (45 / 10) st)))
              = Inr c1"
  shows "\<exists>evs. generated st (snd (generate_realistic_workout_data e (usr # rest) exs progs ups st))
           = generated st (snd (workout_draft e usr exs progs
                (filter (\<lambda>up. up_user_id up = u_id usr \<and> active up) ups)
                (minus_days (now e) 365) 365
                (\<lparr>sessions_created = 0, sets_created = 0\<rparr>, snd (uniform (25 / 10) (45 / 10) st))))
             @ evs"
proof -
  define c0 where "c0 = \<lparr>sessions_created = 0, sets_created = 0\<rparr>"
  define st1 where "st1 = snd (uniform (25 / 10) (45 / 10) st)"
  define D where "D = workout_draft e usr exs progs
                (filter (\<lambda>up. up_user_id up = u_id usr \<and> active up) ups)
                (minus_days (now e) 365) 365 (c0, st1)"
  have l1: "log st1 = log st" by (simp add: st1_def)
  have "\<exists>evs. log (snd D) = log st1 @ evs \<and> trace_ok (\<lambda>_. True) (sessions_created c0) evs (fst D)"
    unfolding D_def by (rule workout_draft_trace) simp
  then obtain evs0 where e0: "log (snd D) = log st @ evs0" using l1 by auto
  have "D = (Inr c1, snd D)" using W by (simp add: D_def c0_def st1_def prod_eq_iff)
  then have "\<exists>evs. log (snd (generate_realistic_workout_data e (usr # rest) exs progs ups st))
               = log (snd D) @ evs"
    unfolding D_def c0_def st1_def by (rule generate_extends_first_draft)
  then obtain evs where e: "log (snd (generate_realistic_workout_data e (usr # rest) exs progs ups st))
               = log st @ evs0 @ evs"
    using e0 by auto
  show ?thesis
    using e e0 by (intro exI [of _ evs]) (simp add: D_def c0_def st1_def)
qed

lemma first_draft_eval:
  "fst (workout_draft env0 user0 [exercise0] [program0]
         (filter (\<lambda>up. up_user_id up = u_id user0 \<and> active up) [assignment0])
         (minus_days (now env0) 365) 365
         (\<lparr>sessions_created = 0, sets_created = 0\<rparr>, snd (uniform (25 / 10) (45 / 10) state0)))
     = Inr \<lparr>sessions_created = 1, sets_created = 3\<rparr>"
  by code_simp

lemma first_draft_sessions_eval:
  "sessions_of (generated state0 (snd (workout_draft env0 user0 [exercise0] [program0]
         (filter (\<lambda>up. up_user_id up = u_id user0 \<and> active up) [assignment0])
         (minus_days (now env0) 365) 365
         (\<lparr>sessions_created = 0, sets_created = 0\<rparr>, snd (uniform (25 / 10) (45 / 10) state0)))))
     = [session0]"
  by code_simp

lemma free_draft_eval:
  "fst (workout_draft env0 user0 [exercise0] [program0]
         (filter (\<lambda>up. up_user_id up = u_id user0 \<and> active up) [assignment0])
         (minus_days (now env0) 365) 365
         (\<lparr>sessions_created = 0, sets_created = 0\<rparr>, snd (uniform (25 / 10) (45 / 10) state_free)))
     = Inr \<lparr>sessions_created = 1, sets_created = 2\<rparr>"
  by code_simp

lemma free_draft_sessions_eval:
  "sessions_of (generated state_free (snd (workout_draft env0 user0 [exercise0] [program0]
         (filter (\<lambda>up. up_user_id up = u_id user0 \<and> active up) [assignment0])
         (minus_days (now env0) 365) 365
         (\<lparr>sessions_created = 0, sets_created = 0\<rparr>, snd (uniform (25 / 10) (45 / 10) state_free)))))
     = [session_free]"
  by code_simp


section \<open>Sessions: shape, week index and weekday\<close>

text \<open>
  C10. Every session that \<open>generate_realistic_workout_data\<close> hands to the persistence
  session, in a run that returns or in one that raises, is the session of a draft of
  one of the users. If the draft is program-based (\<open>use_program\<close> holds, and the sets
  of the session are generated from the non-empty list of the entries that one of the
  programs has on the weekday of the session), then \<open>user_program_id\<close>,
  \<open>prog_week_index\<close> and \<open>prog_day_of_week\<close> are all set; if it is freeform, all three
  are \<open>None\<close>.
\<close>

theorem session_shape_by_kind:
  "\<forall>s \<in> set (sessions_of (generated st
        (snd (generate_realistic_workout_data e users exs progs ups st)))).
     \<exists>usr \<in> set users. \<exists>st0 st1 b des.
       draft_session e usr progs (filter (\<lambda>up. up_user_id up = u_id usr \<and> active up) ups)
         (minus_days (now e) 365) 365 st0 = (Inr (Some (b, s, des)), st1)
       \<and> (b \<longrightarrow> des \<noteq> []
              \<and> (\<exists>prog \<in> set progs.
                    des = filter (\<lambda>pe. day_of_week pe = weekday (started_at s)) (entries prog))
              \<and> user_program_id s \<noteq> None \<and> prog_week_index s \<noteq> None
              \<and> prog_day_of_week s \<noteq> None)
       \<and> (\<not> b \<longrightarrow> des = [] \<and> user_program_id s = None \<and> prog_week_index s = None
              \<and> prog_day_of_week s = None)"
proof
  fix s
  assume s: "s \<in> set (sessions_of (generated st
        (snd (generate_realistic_workout_data e users exs progs ups st))))"
  show "\<exists>usr \<in> set users. \<exists>st0 st1 b des.
       draft_session e usr progs (filter (\<lambda>up. up_user_id up = u_id usr \<and> active up) ups)
         (minus_days (now e) 365) 365 st0 = (Inr (Some (b, s, des)), st1)
       \<and> (b \<longrightarrow> des \<noteq> []
              \<and> (\<exists>prog \<in> set progs.
                    des = filter (\<lambda>pe. day_of_week pe = weekday (started_at s)) (entries prog))
              \<and> user_program_id s \<noteq> None \<and> prog_week_index s \<noteq> None
              \<and> prog_day_of_week s \<noteq> None)
       \<and> (\<not> b \<longrightarrow> des = [] \<and> user_program_id s = None \<and> prog_week_index s = None
              \<and> prog_day_of_week s = None)"
  proof (rule generate_sessions [OF _ s])
    fix usr st0 b s' des st1
    assume u: "usr \<in> set users"
      and d: "draft_session e usr progs
                (filter (\<lambda>up. up_user_id up = u_id usr \<and> active up) ups)
                (minus_days (now e) 365) (td_days (dt_sub (now e) (minus_days (now e) 365))) st0
              = (Inr (Some (b, s', des)), st1)"
    have d': "draft_session e usr progs
                (filter (\<lambda>up. up_user_id up = u_id usr \<and> active up) ups)
                (minus_days (now e) 365) 365 st0
              = (Inr (Some (b, s', des)), st1)"
      using d by (simp only: horizon_days)
    show "\<exists>usr \<in> set users. \<exists>st0 st1 b des.
       draft_session e usr progs (filter (\<lambda>up. up_user_id up = u_id usr \<and> active up) ups)
         (minus_days (now e) 365) 365 st0 = (Inr (Some (b, s', des)), st1)
       \<and> (b \<longrightarrow> des \<noteq> []
              \<and> (\<exists>prog \<in> set progs.
                    des = filter (\<lambda>pe. day_of_week pe = weekday (started_at s')) (entries prog))
              \<and> user_program_id s' \<noteq> None \<and> prog_week_index s' \<noteq> None
              \<and> prog_day_of_week s' \<noteq> None)
       \<and> (\<not> b \<longrightarrow> des = [] \<and> user_program_id s' = None \<and> prog_week_index s' = None
              \<and> prog_day_of_week s' = None)"
      using u d' draft_session_kind [OF d'] by blast
  qed
qed

theorem session_shape_by_kind_witness:
  "session0 \<in> set (sessions_of (generated state0
        (snd (generate_realistic_workout_data env0 [user0] [exercise0] [program0] [assignment0]
               state0))))
   \<and> user_program_id session0 = Some 4 \<and> prog_week_index session0 = Some (- 48)
   \<and> prog_day_of_week session0 = Some 1
   \<and> (\<exists>st0 st1.
         draft_session env0 user0 [program0]
           (filter (\<lambda>up. up_user_id up = u_id user0 \<and> active up) [assignment0])
           (minus_days (now env0) 365) 365 st0 = (Inr (Some (True, session0, [entry0])), st1))
   \<and> session_free \<in> set (sessions_of (generated state_free
        (snd (generate_realistic_workout_data env0 [user0] [exercise0] [program0] [assignment0]
               state_free))))
   \<and> user_program_id session_free = None \<and> prog_week_index session_free = None
   \<and> prog_day_of_week session_free = None
   \<and> (\<exists>st0 st1.
         draft_session env0 user0 [program0]
           (filter (\<lambda>up. up_user_id up = u_id user0 \<and> active up) [assignment0])
           (minus_days (now env0) 365) 365 st0 = (Inr (Some (False, session_free, [])), st1))"
proof -
  obtain evs where "generated state0
        (snd (generate_realistic_workout_data env0 [user0] [exercise0] [program0] [assignment0]
               state0))
      = generated state0 (snd (workout_draft env0 user0 [exercise0] [program0]
         (filter (\<lambda>up. up_user_id up = u_id user0 \<and> active up) [assignment0])
         (minus_days (now env0) 365) 365
         (\<lparr>sessions_created = 0, sets_created = 0\<rparr>,
          snd (uniform (25 / 10) (45 / 10) state0)))) @ evs"
    using first_draft_generated [OF first_draft_eval, of "[]"] by blast
  then have "sessions_of (generated state0
        (snd (generate_realistic_workout_data env0 [user0] [exercise0] [program0] [assignment0]
               state0))) = [session0] @ sessions_of evs"
    by (simp only: sessions_of_append first_draft_sessions_eval)
  then have m0: "session0 \<in> set (sessions_of (generated state0
        (snd (generate_realistic_workout_data env0 [user0] [exercise0] [program0] [assignment0]
               state0))))"
    by simp
  obtain evs' where "generated state_free
        (snd (generate_realistic_workout_data env0 [user0] [exercise0] [program0] [assignment0]
               state_free))
      = generated state_free (snd (workout_draft env0 user0 [exercise0] [program0]
         (filter (\<lambda>up. up_user_id up = u_id user0 \<and> active up) [assignment0])
         (minus_days (now env0) 365) 365
         (\<lparr>sessions_created = 0, sets_created = 0\<rparr>,
          snd (uniform (25 / 10) (45 / 10) state_free)))) @ evs'"
    using first_draft_generated [OF free_draft_eval, of "[]"] by blast
  then have "sessions_of (generated state_free
        (snd (generate_realistic_workout_data env0 [user0] [exercise0] [program0] [assignment0]
               state_free))) = [session_free] @ sessions_of evs'"
    by (simp only: sessions_of_append free_draft_sessions_eval)
  then have m1: "session_free \<in> set (sessions_of (generated state_free
        (snd (generate_realistic_workout_data env0 [user0] [exercise0] [program0] [assignment0]
               state_free))))"
    by simp
  have f0: "user_program_id session0 = Some 4" "prog_week_index session0 = Some (- 48)"
    "prog_day_of_week session0 = Some 1" "started_at session0 = started_at session0"
    by (simp_all add: session0_def)
  have f1: "user_program_id session_free = None" "prog_week_index session_free = None"
    "prog_day_of_week session_free = None"
    by (simp_all add: session_free_def)
  have e0: "filter (\<lambda>pe. day_of_week pe = weekday (started_at session0)) (entries program0)
            = [entry0]"
    by code_simp
  from session_shape_by_kind [of state0 env0 "[user0]" "[exercise0]" "[program0]"
        "[assignment0]"] m0
  obtain st0 st1 b des where
    d0: "draft_session env0 user0 [program0]
           (filter (\<lambda>up. up_user_id up = u_id user0 \<and> active up) [assignment0])
           (minus_days (now env0) 365) 365 st0 = (Inr (Some (b, session0, des)), st1)"
    and k0: "b \<longrightarrow> des \<noteq> []
              \<and> (\<exists>prog \<in> set [program0].
                    des = filter (\<lambda>pe. day_of_week pe = weekday (started_at session0))
                            (entries prog))"
    and n0: "\<not> b \<longrightarrow> user_program_id session0 = None"
    by fastforce
  have b0: "b = True" using n0 f0(1) by auto
  then have de: "des = [entry0]" using k0 e0 by simp
  have r0: "\<exists>st0 st1.
         draft_session env0 user0 [program0]
           (filter (\<lambda>up. up_user_id up = u_id user0 \<and> active up) [assignment0])
           (minus_days (now env0) 365) 365 st0 = (Inr (Some (True, session0, [entry0])), st1)"
    by (intro exI) (rule d0 [unfolded b0 de])
  from session_shape_by_kind [of state_free env0 "[user0]" "[exercise0]" "[program0]"
        "[assignment0]"] m1
  obtain st2 st3 b' des' where
    d1: "draft_session env0 user0 [program0]
           (filter (\<lambda>up. up_user_id up = u_id user0 \<and> active up) [assignment0])
           (minus_days (now env0) 365) 365 st2 = (Inr (Some (b', session_free, des')), st3)"
    and k1: "b' \<longrightarrow> user_program_id session_free \<noteq> None"
    and n1: "\<not> b' \<longrightarrow> des' = []"
    by fastforce
  have b1: "b' = False" using k1 f1(1) by auto
  then have de': "des' = []" using n1 by simp
  have r1: "\<exists>st0 st1.
         draft_session env0 user0 [program0]
           (filter (\<lambda>up. up_user_id up = u_id user0 \<and> active up) [assignment0])
           (minus_days (now env0) 365) 365 st0 = (Inr (Some (False, session_free, [])), st1)"
    by (intro exI) (rule d1 [unfolded b1 de'])
  show ?thesis
    using m0 m1 f0(1,2,3) f1 r0 r1 by blast
qed

lemma minus_days_wf: "well_formed_time d \<Longrightarrow> well_formed_time (minus_days d n)"
  by (simp add: well_formed_time_def minus_days_def)

text \<open>
  C2. Every program-based session that \<open>generate_realistic_workout_data\<close> hands to the
  persistence session refers to one of the given assignments, its \<open>prog_day_of_week\<close>
  is the weekday of its \<open>started_at\<close>, and its \<open>prog_week_index\<close> is the floor of the
  time from that assignment's start date to \<open>started_at\<close>, in days, divided by 7.
\<close>

theorem program_session_week_and_day:
  assumes "well_formed_time (now e)"
  shows "\<forall>s \<in> set (sessions_of (generated st
            (snd (generate_realistic_workout_data e users exs progs ups st)))).
           \<forall>upid. user_program_id s = Some upid \<longrightarrow>
             (\<exists>up \<in> set ups. up_id up = upid
                \<and> prog_day_of_week s = Some (weekday (started_at s))
                \<and> prog_week_index s = Some (weeks_between (started_at s) (start_date up)))"
proof
  fix s
  assume s: "s \<in> set (sessions_of (generated st
            (snd (generate_realistic_workout_data e users exs progs ups st))))"
  have wf: "well_formed_time (minus_days (now e) 365)"
    using assms by (rule minus_days_wf)
  show "\<forall>upid. user_program_id s = Some upid \<longrightarrow>
             (\<exists>up \<in> set ups. up_id up = upid
                \<and> prog_day_of_week s = Some (weekday (started_at s))
                \<and> prog_week_index s = Some (weeks_between (started_at s) (start_date up)))"
    using s
  proof (rule generate_sessions [rotated])
    fix usr st0 b s' des st'
    assume d: "draft_session e usr progs (filter (\<lambda>up. up_user_id up = u_id usr \<and> active up) ups)
        (minus_days (now e) 365) (td_days (dt_sub (now e) (minus_days (now e) 365))) st0
        = (Inr (Some (b, s', des)), st')"
    show "\<forall>upid. user_program_id s' = Some upid \<longrightarrow>
             (\<exists>up \<in> set ups. up_id up = upid
                \<and> prog_day_of_week s' = Some (weekday (started_at s'))
                \<and> prog_week_index s' = Some (weeks_between (started_at s') (start_date up)))"
    proof (intro allI impI)
      fix upid
      assume "user_program_id s' = Some upid"
      with draft_session_week_day [OF wf d]
      obtain up where "up \<in> set (filter (\<lambda>up. up_user_id up = u_id usr \<and> active up) ups)"
        "up_id up = upid" "prog_day_of_week s' = Some (weekday (started_at s'))"
        "prog_week_index s' = Some (weeks_between (started_at s') (start_date up))"
        by blast
      then show "\<exists>up \<in> set ups. up_id up = upid
                \<and> prog_day_of_week s' = Some (weekday (started_at s'))
                \<and> prog_week_index s' = Some (weeks_between (started_at s') (start_date up))"
        by auto
    qed
  qed
qed

theorem program_session_week_and_day_witness:
  "well_formed_time (now env0)
   \<and> session0 \<in> set (sessions_of (generated state0
        (snd (generate_realistic_workout_data env0 [user0] [exercise0] [program0] [assignment0]
               state0))))
   \<and> user_program_id session0 = Some (up_id assignment0)
   \<and> prog_day_of_week session0 = Some (weekday (started_at session0))
   \<and> prog_week_index session0 = Some (weeks_between (started_at session0) (start_date assignment0))
   \<and> weeks_between (started_at session0) (start_date assignment0) = - 48
   \<and> weekday (started_at session0) = 1"
proof -
  have wf: "well_formed_time (now env0)" by code_simp
  obtain evs where "generated state0
        (snd (generate_realistic_workout_data env0 [user0] [exercise0] [program0] [assignment0]
               state0))
      = generated state0 (snd (workout_draft env0 user0 [exercise0] [program0]
         (filter (\<lambda>up. up_user_id up = u_id user0 \<and> active up) [assignment0])
         (minus_days (now env0) 365) 365
         (\<lparr>sessions_created = 0, sets_created = 0\<rparr>,
          snd (uniform (25 / 10) (45 / 10) state0)))) @ evs"
    using first_draft_generated [OF first_draft_eval, of "[]"] by blast
  then have "sessions_of (generated state0
        (snd (generate_realistic_workout_data env0 [user0] [exercise0] [program0] [assignment0]
               state0))) = [session0] @ sessions_of evs"
    by (simp only: sessions_of_append first_draft_sessions_eval)
  then have m: "session0 \<in> set (sessions_of (generated state0
        (snd (generate_realistic_workout_data env0 [user0] [exercise0] [program0] [assignment0]
               state0))))"
    by simp
  have u: "user_program_id session0 = Some (up_id assignment0)"
    by (simp add: session0_def assignment0_def)
  have v: "prog_week_index session0 = Some (- 48)" "prog_day_of_week session0 = Some 1"
    by (simp_all add: session0_def)
  from program_session_week_and_day [OF wf, of state0 "[user0]" "[exercise0]" "[program0]"
      "[assignment0]"] m u
  have "prog_day_of_week session0 = Some (weekday (started_at session0))
        \<and> prog_week_index session0 = Some (weeks_between (started_at session0) (start_date assignment0))"
    by fastforce
  then show ?thesis using wf m u v by simp
qed


section \<open>The day-skip and the checkpoints\<close>

lemma draw_workout_date_uuid [simp]:
  "next_uuid (snd (draw_workout_date hs td st)) = next_uuid st"
  by (simp add: draw_workout_date_def case_prod_beta)

lemma choice_lit_uuid [simp]: "next_uuid (snd (choice_lit x xs st)) = next_uuid st"
  by (simp add: choice_lit_def case_prod_beta)

lemma choice_uuid [simp]: "next_uuid (snd (choice xs st)) = next_uuid st"
  by (simp add: choice_def case_prod_beta)

text \<open>
  C3. A draft for which the coin says program, an active assignment is chosen, and the
  assignment's program has no entry on the weekday of the drafted date, is dropped:
  the loop body returns the counters as they were, nothing is handed to the persistence
  session, and no identifier is drawn.
\<close>

theorem day_skip_discards_draft:
  assumes "draw_workout_date hs td st = (workout_date, st1)"
    and "choice_lit True [False] st1 = (True, st2)"
    and "choice uaps st2 = (Inr up, st3)"
    and "find (\<lambda>p. p_id p = up_program_id up) progs = Some prog"
    and "filter (\<lambda>pe. day_of_week pe = weekday workout_date) (entries prog) = []"
  shows "workout_draft e usr exs progs uaps hs td (c, st) = (Inr c, st3)
         \<and> log st3 = log st \<and> next_uuid st3 = next_uuid st"
proof -
  have ne: "uaps \<noteq> []"
    using assms(3) by (auto simp: choice_def)
  have D: "draft_session e usr progs uaps hs td st = (Inr None, st3)"
    using assms ne by (simp add: draft_session_def Let_def)
  have l1: "log st1 = log st" "next_uuid st1 = next_uuid st"
    using draw_workout_date_log [of hs td st] draw_workout_date_uuid [of hs td st] assms(1)
    by simp_all
  have l2: "log st2 = log st1" "next_uuid st2 = next_uuid st1"
    using choice_lit_log [of True "[False]" st1] choice_lit_uuid [of True "[False]" st1] assms(2)
    by simp_all
  have l3: "log st3 = log st2" "next_uuid st3 = next_uuid st2"
    using choice_log [of uaps st2] choice_uuid [of uaps st2] assms(3)
    by simp_all
  show ?thesis
    using D l1 l2 l3 by (simp add: workout_draft_def)
qed

theorem day_skip_witness:
  "draw_workout_date (minus_days (now env0) 365) 365 state_skip
     = (tuesday_six, state_skip\<lparr>rng := [0, 0]\<rparr>)
   \<and> choice_lit True [False] (state_skip\<lparr>rng := [0, 0]\<rparr>) = (True, state_skip\<lparr>rng := [0]\<rparr>)
   \<and> choice [assignment0] (state_skip\<lparr>rng := [0]\<rparr>) = (Inr assignment0, state_skip\<lparr>rng := []\<rparr>)
   \<and> find (\<lambda>p. p_id p = up_program_id assignment0) [program_thu] = Some program_thu
   \<and> filter (\<lambda>pe. day_of_week pe = weekday tuesday_six) (entries program_thu) = []
   \<and> workout_draft env0 user0 [exercise0] [program_thu] [assignment0]
        (minus_days (now env0) 365) 365 (\<lparr>sessions_created = 7, sets_created = 30\<rparr>, state_skip)
      = (Inr \<lparr>sessions_created = 7, sets_created = 30\<rparr>, state_skip\<lparr>rng := []\<rparr>)
   \<and> log (state_skip\<lparr>rng := []\<rparr>) = [Commit]"
proof -
  have h1: "draw_workout_date (minus_days (now env0) 365) 365 state_skip
     = (tuesday_six, state_skip\<lparr>rng := [0, 0]\<rparr>)"
    by code_simp
  have h2: "choice_lit True [False] (state_skip\<lparr>rng := [0, 0]\<rparr>)
              = (True, state_skip\<lparr>rng := [0]\<rparr>)"
    by code_simp
  have h3: "choice [assignment0] (state_skip\<lparr>rng := [0]\<rparr>)
              = (Inr assignment0, state_skip\<lparr>rng := []\<rparr>)"
    by code_simp
  have h4: "find (\<lambda>p. p_id p = up_program_id assignment0) [program_thu] = Some program_thu"
    by code_simp
  have h5: "filter (\<lambda>pe. day_of_week pe = weekday tuesday_six) (entries program_thu) = []"
    by code_simp
  have l: "log (state_skip\<lparr>rng := []\<rparr>) = [Commit]" by (simp add: state_skip_def)
  show ?thesis
    using day_skip_discards_draft [OF h1 h2 h3 h4 h5, of env0 user0 "[exercise0]"
        "\<lparr>sessions_created = 7, sets_created = 30\<rparr>"] h1 h2 h3 h4 h5 l
    by simp
qed

text \<open>
  C8. The calls that \<open>generate_realistic_workout_data\<close> makes are the rendering of a
  list of accepted sessions: each session with its flush and its sets, and a commit
  right after the session that brings the count to a multiple of 100, nowhere else.
  A run that returns ends with one more commit and reports as many sessions as it
  added; a run that raises stops inside or after a block. A dropped draft is no block,
  so it does not count.
\<close>

theorem checkpoint_every_hundred:
  "\<exists>bs tl. generated st (snd (generate_realistic_workout_data e users exs progs ups st))
              = render 0 bs @ tl
      \<and> (case fst (generate_realistic_workout_data e users exs progs ups st) of
           Inr c \<Rightarrow> tl = [Commit] \<and> sessions_created c = int (length bs)
                     \<and> length bs = length (sessions_of (generated st
                          (snd (generate_realistic_workout_data e users exs progs ups st))))
         | Inl err \<Rightarrow> tl = [] \<or> (\<exists>s rs. tl = [Add (ESession s), Flush] @ set_events rs))"
proof -
  have "\<exists>bs tl. log (snd (generate_realistic_workout_data e users exs progs ups st))
                   = log st @ render 0 bs @ tl
           \<and> (\<forall>b \<in> set bs. True \<and> (\<forall>r \<in> set (snd b). session_id r = s_id (fst b)))
           \<and> (case fst (generate_realistic_workout_data e users exs progs ups st) of
                Inr c \<Rightarrow> tl = [Commit] \<and> sessions_created c = int (length bs)
              | Inl err \<Rightarrow>
                  tl = [] \<or> (\<exists>s rs. True \<and> (\<forall>r \<in> set rs. session_id r = s_id s)
                                    \<and> tl = [Add (ESession s), Flush] @ set_events rs))"
    by (rule generate_trace) simp
  then obtain bs tl where t: "log (snd (generate_realistic_workout_data e users exs progs ups st))
                   = log st @ render 0 bs @ tl"
      "case fst (generate_realistic_workout_data e users exs progs ups st) of
                Inr c \<Rightarrow> tl = [Commit] \<and> sessions_created c = int (length bs)
              | Inl err \<Rightarrow>
                  tl = [] \<or> (\<exists>s rs. True \<and> (\<forall>r \<in> set rs. session_id r = s_id s)
                                    \<and> tl = [Add (ESession s), Flush] @ set_events rs)"
    by blast
  have g: "generated st (snd (generate_realistic_workout_data e users exs progs ups st))
             = render 0 bs @ tl"
    using t(1) by simp
  show ?thesis
  proof (cases "fst (generate_realistic_workout_data e users exs progs ups st)")
    case (Inl err)
    then show ?thesis using g t(2)
      by (intro exI [of _ bs] exI [of _ tl]) auto
  next
    case (Inr c)
    then have "tl = [Commit]" "sessions_created c = int (length bs)" using t(2) by simp_all
    then show ?thesis using g Inr
      by (intro exI [of _ bs] exI [of _ tl]) simp
  qed
qed

lemma hundredth_session_example:
  "last (log (snd (workout_draft env0 user0 [exercise0] [program0] [assignment0]
           (minus_days (now env0) 365) 365
           (\<lparr>sessions_created = 99, sets_created = 0\<rparr>, state0)))) = Commit
   \<and> Commit \<notin> set (log (snd (workout_draft env0 user0 [exercise0] [program0] [assignment0]
           (minus_days (now env0) 365) 365
           (\<lparr>sessions_created = 98, sets_created = 0\<rparr>, state0))))"
  by code_simp


section \<open>Whole runs\<close>

lemma sets_of_append [simp]: "sets_of (xs @ ys) = sets_of xs @ sets_of ys"
  by (induction xs rule: sets_of.induct) simp_all

lemma generate_extends:
  "\<exists>evs. log (snd (generate_realistic_workout_data e users exs progs ups st)) = log st @ evs"
proof -
  have "\<exists>bs tl. log (snd (generate_realistic_workout_data e users exs progs ups st))
                   = log st @ render 0 bs @ tl
           \<and> (\<forall>b \<in> set bs. True \<and> (\<forall>r \<in> set (snd b). session_id r = s_id (fst b)))
           \<and> (case fst (generate_realistic_workout_data e users exs progs ups st) of
                Inr c \<Rightarrow> tl = [Commit] \<and> sessions_created c = int (length bs)
              | Inl err \<Rightarrow>
                  tl = [] \<or> (\<exists>s rs. True \<and> (\<forall>r \<in> set rs. session_id r = s_id s)
                                    \<and> tl = [Add (ESession s), Flush] @ set_events rs))"
    by (rule generate_trace) simp
  then show ?thesis by blast
qed

lemma main_extends_generate:
  assumes "create_users e st = (users, st1)"
    and "create_exercises e users st1 = (Inr exs, st2)"
    and "create_programs e users exs st2 = (Inr progs, st3)"
    and "create_user_programs e users progs st3 = (Inr ups, st4)"
  shows "\<exists>evs. log (snd (main e st))
           = log (snd (generate_realistic_workout_data e users exs progs ups st4)) @ evs"
  using assms
  by (simp add: main_def on_error_def close_def rollback_def split: prod.splits sum.splits)

lemma main_first_draft:
  assumes cu: "create_users e st = (usr # rest, st1)"
    and ce: "create_exercises e (usr # rest) st1 = (Inr exs, st2)"
    and cp: "create_programs e (usr # rest) exs st2 = (Inr progs, st3)"
    and ca: "create_user_programs e (usr # rest) progs st3 = (Inr ups, st4)"
    and W: "fst (workout_draft e usr exs progs
                (filter (\<lambda>up. up_user_id up = u_id usr \<and> active up) ups)
                (minus_days (now e) 365) 365
                (\<lparr>sessions_created = 0, sets_created = 0\<rparr>, snd (uniform (25 / 10) (45 / 10) st4)))
              = Inr c1"
  shows "\<exists>pre post. log (snd (main e st))
           = pre @ generated st4 (snd (workout_draft e usr exs progs
                (filter (\<lambda>up. up_user_id up = u_id usr \<and> active up) ups)
                (minus_days (now e) 365) 365
                (\<lparr>sessions_created = 0, sets_created = 0\<rparr>, snd (uniform (25 / 10) (45 / 10) st4))))
             @ post"
proof -
  define G where "G = snd (generate_realistic_workout_data e (usr # rest) exs progs ups st4)"
  define D where "D = generated st4 (snd (workout_draft e usr exs progs
                (filter (\<lambda>up. up_user_id up = u_id usr \<and> active up) ups)
                (minus_days (now e) 365) 365
                (\<lparr>sessions_created = 0, sets_created = 0\<rparr>, snd (uniform (25 / 10) (45 / 10) st4))))"
  obtain evs1 where e1: "log (snd (main e st)) = log G @ evs1"
    using main_extends_generate [OF cu ce cp ca] unfolding G_def by blast
  obtain evs2 where e2: "log G = log st4 @ evs2"
    using generate_extends [of e "usr # rest" exs progs ups st4] unfolding G_def by blast
  obtain evs3 where e3: "generated st4 G = D @ evs3"
    using first_draft_generated [OF W, of rest] unfolding G_def D_def by blast
  have "generated st4 G = evs2" using e2 by simp
  then have "log (snd (main e st)) = log st4 @ D @ evs3 @ evs1"
    using e1 e2 e3 by simp
  then show ?thesis unfolding D_def by blast
qed

lemma main_run_loaders:
  "create_users env_main state_init = ([user0], after_users)"
  "create_exercises env_main [user0] after_users = (Inr [exercise0], after_exercises)"
  "create_programs env_main [user0] [exercise0] after_exercises = (Inr [program0], after_programs)"
  "create_user_programs env_main [user0] [program0] after_programs
     = (Inr [assignment0], after_assignments)"
proof -
  have "fst (create_users env_main state_init) = [user0]" by code_simp
  then show "create_users env_main state_init = ([user0], after_users)"
    by (simp add: after_users_def prod_eq_iff)
  have "fst (create_exercises env_main [user0] after_users) = Inr [exercise0]" by code_simp
  then show "create_exercises env_main [user0] after_users = (Inr [exercise0], after_exercises)"
    by (simp add: after_exercises_def prod_eq_iff)
  have "fst (create_programs env_main [user0] [exercise0] after_exercises) = Inr [program0]"
    by code_simp
  then show "create_programs env_main [user0] [exercise0] after_exercises
               = (Inr [program0], after_programs)"
    by (simp add: after_programs_def prod_eq_iff)
  have "fst (create_user_programs env_main [user0] [program0] after_programs) = Inr [assignment0]"
    by code_simp
  then show "create_user_programs env_main [user0] [program0] after_programs
     = (Inr [assignment0], after_assignments)"
    by (simp add: after_assignments_def prod_eq_iff)
qed

lemma main_run_first_draft:
  "fst (workout_draft env_main user0 [exercise0] [program0]
         (filter (\<lambda>up. up_user_id up = u_id user0 \<and> active up) [assignment0])
         (minus_days (now env_main) 365) 365
         (\<lparr>sessions_created = 0, sets_created = 0\<rparr>,
          snd (uniform (25 / 10) (45 / 10) after_assignments)))
     = Inr \<lparr>sessions_created = 1, sets_created = 3\<rparr>"
  "sessions_of (generated after_assignments (snd (workout_draft env_main user0 [exercise0] [program0]
         (filter (\<lambda>up. up_user_id up = u_id user0 \<and> active up) [assignment0])
         (minus_days (now env_main) 365) 365
         (\<lparr>sessions_created = 0, sets_created = 0\<rparr>,
          snd (uniform (25 / 10) (45 / 10) after_assignments)))))
     = [session0]"
  by code_simp+

text \<open>
  C9. Nothing bounds \<open>prog_week_index\<close> from below. In the run of \<open>main\<close> on
  \<open>env_main\<close> with every draw \<open>0\<close>, the assignment engine gives the user an active
  assignment that started 30 days before the clock reading, the first drafted workout
  falls 365 days before it, and the session that is added has week index \<open>-48\<close>.
\<close>

theorem negative_week_index_reachable:
  "fst (create_user_programs env_main [user0] [program0] after_programs) = Inr [assignment0]
   \<and> start_date assignment0 = strftime_date (minus_days (now env_main) 30)
   \<and> session0 \<in> set (sessions_of (log (snd (main env_main state_init))))
   \<and> user_program_id session0 = Some (up_id assignment0)
   \<and> ordinal (started_at session0) < start_date assignment0
   \<and> prog_week_index session0 = Some (- 48)"
proof -
  obtain pre post where "log (snd (main env_main state_init))
      = pre @ generated after_assignments (snd (workout_draft env_main user0 [exercise0] [program0]
         (filter (\<lambda>up. up_user_id up = u_id user0 \<and> active up) [assignment0])
         (minus_days (now env_main) 365) 365
         (\<lparr>sessions_created = 0, sets_created = 0\<rparr>,
          snd (uniform (25 / 10) (45 / 10) after_assignments)))) @ post"
    using main_first_draft [OF main_run_loaders main_run_first_draft(1)] by blast
  then have "sessions_of (log (snd (main env_main state_init)))
      = sessions_of pre @ [session0] @ sessions_of post"
    by (simp only: sessions_of_append main_run_first_draft(2))
  then have m: "session0 \<in> set (sessions_of (log (snd (main env_main state_init))))"
    by simp
  have a: "fst (create_user_programs env_main [user0] [program0] after_programs) = Inr [assignment0]"
    using main_run_loaders(4) by simp
  have b: "start_date assignment0 = strftime_date (minus_days (now env_main) 30)"
    by code_simp
  show ?thesis using m a b by (simp add: session0_def assignment0_def)
qed


lemma dup_run_loaders:
  "create_users env_dup state_init = ([user0], dup_after_users)"
  "create_exercises env_dup [user0] dup_after_users = (Inr [exercise0], dup_after_exercises)"
  "create_programs env_dup [user0] [exercise0] dup_after_exercises
     = (Inr [program_dup], dup_after_programs)"
  "create_user_programs env_dup [user0] [program_dup] dup_after_programs
     = (Inr [assignment_dup], dup_after_assignments)"
proof -
  have "fst (create_users env_dup state_init) = [user0]" by code_simp
  then show "create_users env_dup state_init = ([user0], dup_after_users)"
    by (simp add: dup_after_users_def prod_eq_iff)
  have "fst (create_exercises env_dup [user0] dup_after_users) = Inr [exercise0]" by code_simp
  then show "create_exercises env_dup [user0] dup_after_users = (Inr [exercise0], dup_after_exercises)"
    by (simp add: dup_after_exercises_def prod_eq_iff)
  have "fst (create_programs env_dup [user0] [exercise0] dup_after_exercises) = Inr [program_dup]"
    by code_simp
  then show "create_programs env_dup [user0] [exercise0] dup_after_exercises
               = (Inr [program_dup], dup_after_programs)"
    by (simp add: dup_after_programs_def prod_eq_iff)
  have "fst (create_user_programs env_dup [user0] [program_dup] dup_after_programs)
          = Inr [assignment_dup]"
    by code_simp
  then show "create_user_programs env_dup [user0] [program_dup] dup_after_programs
     = (Inr [assignment_dup], dup_after_assignments)"
    by (simp add: dup_after_assignments_def prod_eq_iff)
qed

lemma dup_run_first_draft:
  "fst (workout_draft env_dup user0 [exercise0] [program_dup]
         (filter (\<lambda>up. up_user_id up = u_id user0 \<and> active up) [assignment_dup])
         (minus_days (now env_dup) 365) 365
         (\<lparr>sessions_created = 0, sets_created = 0\<rparr>,
          snd (uniform (25 / 10) (45 / 10) dup_after_assignments)))
     = Inr \<lparr>sessions_created = 1, sets_created = 6\<rparr>"
  "map set_key (sets_of (generated dup_after_assignments
       (snd (workout_draft env_dup user0 [exercise0] [program_dup]
         (filter (\<lambda>up. up_user_id up = u_id user0 \<and> active up) [assignment_dup])
         (minus_days (now env_dup) 365) 365
         (\<lparr>sessions_created = 0, sets_created = 0\<rparr>,
          snd (uniform (25 / 10) (45 / 10) dup_after_assignments))))))
     = [(6, 1, 1), (6, 1, 2), (6, 1, 3), (6, 1, 1), (6, 1, 2), (6, 1, 3)]"
  by code_simp+

lemma dup_run_keys:
  "\<exists>pre post. map set_key (sets_of (log (snd (main env_dup state_init))))
      = pre @ [(6, 1, 1), (6, 1, 2), (6, 1, 3), (6, 1, 1), (6, 1, 2), (6, 1, 3)] @ post"
proof -
  obtain pre post where "log (snd (main env_dup state_init))
      = pre @ generated dup_after_assignments (snd (workout_draft env_dup user0 [exercise0]
         [program_dup]
         (filter (\<lambda>up. up_user_id up = u_id user0 \<and> active up) [assignment_dup])
         (minus_days (now env_dup) 365) 365
         (\<lparr>sessions_created = 0, sets_created = 0\<rparr>,
          snd (uniform (25 / 10) (45 / 10) dup_after_assignments)))) @ post"
    using main_first_draft [OF dup_run_loaders dup_run_first_draft(1)] by blast
  then have "map set_key (sets_of (log (snd (main env_dup state_init))))
      = map set_key (sets_of pre)
        @ [(6, 1, 1), (6, 1, 2), (6, 1, 3), (6, 1, 1), (6, 1, 2), (6, 1, 3)]
        @ map set_key (sets_of post)"
    by (simp only: sets_of_append map_append dup_run_first_draft(2))
  then show ?thesis by blast
qed

text \<open>
  C1 fails on the code. In the run of \<open>main\<close> on \<open>env_dup\<close>, whose program schedules
  \<open>squat\<close> twice on Tuesday, the first session gets six sets of \<open>squat\<close> whose indices
  are 1, 2, 3, 1, 2, 3: the set records handed to the persistence session repeat the
  key (session, exercise, set index).
\<close>

theorem repeated_exercise_repeats_set_index:
  "(\<exists>pre post. map set_key (sets_of (log (snd (main env_dup state_init))))
      = pre @ [(6, 1, 1), (6, 1, 2), (6, 1, 3), (6, 1, 1), (6, 1, 2), (6, 1, 3)] @ post)
   \<and> \<not> distinct (map set_key (sets_of (log (snd (main env_dup state_init)))))"
proof -
  obtain pre post where k: "map set_key (sets_of (log (snd (main env_dup state_init))))
      = pre @ [(6, 1, 1), (6, 1, 2), (6, 1, 3), (6, 1, 1), (6, 1, 2), (6, 1, 3)] @ post"
    using dup_run_keys by blast
  have "\<not> distinct (pre @ [(6::nat, 1::nat, 1::int), (6, 1, 2), (6, 1, 3), (6, 1, 1), (6, 1, 2), (6, 1, 3)] @ post)"
    by simp
  then show ?thesis using k dup_run_keys by simp
qed


section \<open>A program entry with an unknown slug\<close>

lemma bad_run_eval:
  "fst (main env_bad state_init) = Inl (KeyError ''bench-press'')"
  "committed (snd (main env_bad state_init)) = [EUser user0, EExercise exercise0]"
  by code_simp+

text \<open>
  C7 as stated fails on the code: in the run of \<open>main\<close> on \<open>env_bad\<close> the lookup of
  \<open>bench-press\<close> raises, and the user and the exercise that the earlier stages
  committed are in storage.
\<close>

theorem unknown_slug_leaves_catalog_committed:
  "nf_exercise_slug (hd (pf_entries (hd (programs_json env_bad))))
      \<notin> set (map ef_slug (exercises_json env_bad))
   \<and> fst (main env_bad state_init) = Inl (KeyError ''bench-press'')
   \<and> committed (snd (main env_bad state_init)) = [EUser user0, EExercise exercise0]
   \<and> committed (snd (main env_bad state_init)) \<noteq> []"
proof -
  have "nf_exercise_slug (hd (pf_entries (hd (programs_json env_bad))))
      \<notin> set (map ef_slug (exercises_json env_bad))"
    by code_simp
  then show ?thesis using bad_run_eval by simp
qed


lemma create_users_loop_trace:
  "\<exists>us. fst (create_users_loop e ufs (acc, st)) = acc @ us
        \<and> log (snd (create_users_loop e ufs (acc, st))) = log st @ map (\<lambda>u. Add (EUser u)) us
        \<and> map email us = map uf_email ufs"
proof (induction ufs arbitrary: acc st)
  case Nil
  show ?case by (intro exI [of _ "[]"]) simp
next
  case (Cons uf ufs)
  define u where "u = \<lparr>u_id = fst (uuid4 st), email = uf_email uf,
                       password_hash = bcrypt e (uf_password uf)\<rparr>"
  define st1 where "st1 = add (EUser u) (snd (uuid4 st))"
  have l1: "log st1 = log st @ [Add (EUser u)]" by (simp add: st1_def add_def)
  have step: "create_users_loop e (uf # ufs) (acc, st) = create_users_loop e ufs (acc @ [u], st1)"
    by (simp add: case_prod_beta Let_def u_def st1_def)
  obtain us where us: "fst (create_users_loop e ufs (acc @ [u], st1)) = (acc @ [u]) @ us"
      "log (snd (create_users_loop e ufs (acc @ [u], st1)))
         = log st1 @ map (\<lambda>u. Add (EUser u)) us"
      "map email us = map uf_email ufs"
    using Cons.IH by blast
  show ?case
    unfolding step using us l1
    by (intro exI [of _ "u # us"]) (simp add: u_def)
qed

lemma create_users_trace:
  "log (snd (create_users e st))
     = log st @ map (\<lambda>u. Add (EUser u)) (fst (create_users e st)) @ [Commit]
   \<and> map email (fst (create_users e st)) = map uf_email (users_json e)"
proof -
  obtain us where "fst (create_users_loop e (users_json e) ([], st)) = [] @ us"
      "log (snd (create_users_loop e (users_json e) ([], st)))
         = log st @ map (\<lambda>u. Add (EUser u)) us"
      "map email us = map uf_email (users_json e)"
    using create_users_loop_trace by blast
  then show ?thesis
    by (simp add: create_users_def case_prod_beta commit_def)
qed

lemma create_exercises_loop_trace:
  "\<exists>xs. log (snd (create_exercises_loop users efs (acc, st)))
          = log st @ map (\<lambda>x. Add (EExercise x)) xs
        \<and> (\<forall>exs. fst (create_exercises_loop users efs (acc, st)) = Inr exs \<longrightarrow> exs = acc @ xs)"
proof (induction efs arbitrary: acc st)
  case Nil
  show ?case by (intro exI [of _ "[]"]) simp
next
  case (Cons ef efs)
  show ?case
  proof (cases "fst (choice users st)")
    case (Inl err)
    then show ?thesis
      by (intro exI [of _ "[]"]) (simp add: case_prod_beta split: sum.splits)
  next
    case (Inr creator)
    define st1 where "st1 = snd (choice users st)"
    define x where "x = \<lparr>ex_id = fst (uuid4 st1), slug = ef_slug ef, ex_name = ef_name ef,
                     ex_description = ef_description ef,
                     target_muscles = ef_target_muscles ef,
                     created_by = u_id creator\<rparr>"
    define st2 where "st2 = add (EExercise x) (snd (uuid4 st1))"
    have l: "log st2 = log st @ [Add (EExercise x)]" by (simp add: st2_def st1_def add_def)
    have step: "create_exercises_loop users (ef # efs) (acc, st)
                = create_exercises_loop users efs (acc @ [x], st2)"
      using Inr by (simp add: case_prod_beta Let_def x_def st2_def st1_def split: sum.splits)
    obtain xs where "log (snd (create_exercises_loop users efs (acc @ [x], st2)))
                       = log st2 @ map (\<lambda>x. Add (EExercise x)) xs"
        "\<forall>exs. fst (create_exercises_loop users efs (acc @ [x], st2)) = Inr exs
           \<longrightarrow> exs = (acc @ [x]) @ xs"
      using Cons.IH by blast
    then show ?thesis unfolding step using l
      by (intro exI [of _ "x # xs"]) simp
  qed
qed

lemma create_exercises_loop_succeeds:
  "users \<noteq> [] \<Longrightarrow> \<exists>exs. fst (create_exercises_loop users efs (acc, st)) = Inr exs"
proof (induction efs arbitrary: acc st)
  case Nil
  show ?case by simp
next
  case (Cons ef efs)
  obtain k st1 where k: "randbelow (length users) st = (k, st1)"
    by (cases "randbelow (length users) st")
  have c: "choice users st = (Inr (users ! k), st1)"
    using Cons.prems by (simp add: choice_def k)
  show ?case
    using Cons.IH [OF Cons.prems] by (simp add: c case_prod_beta Let_def)
qed

lemma create_exercises_loop_slugs:
  "fst (create_exercises_loop users efs (acc, st)) = Inr exs
     \<Longrightarrow> map slug exs = map slug acc @ map ef_slug efs"
proof (induction efs arbitrary: acc st)
  case Nil
  then show ?case by simp
next
  case (Cons ef efs)
  show ?case
  proof (cases "fst (choice users st)")
    case (Inl err)
    then show ?thesis using Cons.prems by (simp add: case_prod_beta split: sum.splits)
  next
    case (Inr creator)
    define st1 where "st1 = snd (choice users st)"
    define x where "x = \<lparr>ex_id = fst (uuid4 st1), slug = ef_slug ef, ex_name = ef_name ef,
                     ex_description = ef_description ef,
                     target_muscles = ef_target_muscles ef,
                     created_by = u_id creator\<rparr>"
    define st2 where "st2 = add (EExercise x) (snd (uuid4 st1))"
    have step: "create_exercises_loop users (ef # efs) (acc, st)
                = create_exercises_loop users efs (acc @ [x], st2)"
      using Inr by (simp add: case_prod_beta Let_def x_def st2_def st1_def split: sum.splits)
    have "map slug exs = map slug (acc @ [x]) @ map ef_slug efs"
      using Cons.prems unfolding step by (rule Cons.IH)
    then show ?thesis by (simp add: x_def)
  qed
qed

lemma exercise_lookup_none:
  "s \<notin> set (map slug exs) \<Longrightarrow> exercise_lookup exs s = None"
  by (simp add: exercise_lookup_def map_of_eq_None_iff image_iff)

lemma create_entries_loop_log:
  "\<exists>evs. log (snd (create_entries_loop lookup pid nfs (acc, st))) = log st @ evs
         \<and> list_all program_event evs"
proof (induction nfs arbitrary: acc st)
  case Nil
  show ?case by (intro exI [of _ "[]"]) simp
next
  case (Cons nf nfs)
  show ?case
  proof (cases "lookup (nf_exercise_slug nf)")
    case None
    then show ?thesis by (intro exI [of _ "[]"]) simp
  next
    case (Some ex)
    define pe where "pe = \<lparr>pe_id = fst (uuid4 st), pe_program_id = pid, pe_exercise_id = ex_id ex,
                          day_of_week = nf_day_of_week nf, position = nf_position nf\<rparr>"
    define st1 where "st1 = add (EProgramEntry pe) (snd (uuid4 st))"
    have l: "log st1 = log st @ [Add (EProgramEntry pe)]" by (simp add: st1_def add_def)
    have step: "create_entries_loop lookup pid (nf # nfs) (acc, st)
                = create_entries_loop lookup pid nfs (acc @ [pe], st1)"
      using Some by (simp add: case_prod_beta Let_def pe_def st1_def)
    obtain evs where "log (snd (create_entries_loop lookup pid nfs (acc @ [pe], st1))) = log st1 @ evs"
        "list_all program_event evs"
      using Cons.IH by blast
    then show ?thesis unfolding step using l
      by (intro exI [of _ "Add (EProgramEntry pe) # evs"]) simp
  qed
qed

lemma create_entries_loop_fails:
  "\<exists>nf \<in> set nfs. lookup (nf_exercise_slug nf) = None
     \<Longrightarrow> \<exists>err. fst (create_entries_loop lookup pid nfs (acc, st)) = Inl err"
proof (induction nfs arbitrary: acc st)
  case Nil
  then show ?case by simp
next
  case (Cons nf nfs)
  show ?case
  proof (cases "lookup (nf_exercise_slug nf)")
    case None
    then show ?thesis by simp
  next
    case (Some ex)
    then have "\<exists>nf \<in> set nfs. lookup (nf_exercise_slug nf) = None"
      using Cons.prems by auto
    then show ?thesis using Some Cons.IH
      by (simp add: case_prod_beta Let_def)
  qed
qed


lemma create_programs_loop_log:
  "\<exists>evs. log (snd (create_programs_loop users lookup pfs (acc, st))) = log st @ evs
         \<and> list_all program_event evs"
proof (induction pfs arbitrary: acc st)
  case Nil
  show ?case by (intro exI [of _ "[]"]) simp
next
  case (Cons pf pfs)
  show ?case
  proof (cases "fst (choice users st)")
    case (Inl err)
    then show ?thesis
      by (intro exI [of _ "[]"]) (simp add: case_prod_beta split: sum.splits)
  next
    case (Inr owner)
    define st1 where "st1 = snd (choice users st)"
    define prog where "prog = \<lparr>p_id = fst (uuid4 st1), p_name = pf_name pf,
                       p_description = pf_description pf,
                       owner_id = u_id owner, entries = []\<rparr>"
    define st3 where "st3 = flush (add (EProgram prog) (snd (uuid4 st1)))"
    define E where "E = create_entries_loop lookup (fst (uuid4 st1)) (pf_entries pf) ([], st3)"
    have l3: "log st3 = log st @ [Add (EProgram prog), Flush]"
      by (simp add: st3_def st1_def add_def flush_def)
    obtain evs1 where e1: "log (snd E) = log st3 @ evs1" "list_all program_event evs1"
      using create_entries_loop_log unfolding E_def by blast
    have step: "create_programs_loop users lookup (pf # pfs) (acc, st)
                = (case E of (Inl err, st4) \<Rightarrow> (Inl err, st4)
                   | (Inr es, st4) \<Rightarrow>
                       create_programs_loop users lookup pfs (acc @ [prog\<lparr>entries := es\<rparr>], st4))"
      using Inr
      by (simp add: case_prod_beta Let_def prog_def st3_def st1_def E_def split: sum.splits)
    show ?thesis
    proof (cases "fst E")
      case (Inl err)
      then have "create_programs_loop users lookup (pf # pfs) (acc, st) = (Inl err, snd E)"
        unfolding step by (cases E) simp
      then show ?thesis using e1 l3
        by (intro exI [of _ "[Add (EProgram prog), Flush] @ evs1"]) simp
    next
      case (Inr es)
      then have s2: "create_programs_loop users lookup (pf # pfs) (acc, st)
                 = create_programs_loop users lookup pfs (acc @ [prog\<lparr>entries := es\<rparr>], snd E)"
        unfolding step by (cases E) simp
      obtain evs2 where "log (snd (create_programs_loop users lookup pfs
                                (acc @ [prog\<lparr>entries := es\<rparr>], snd E))) = log (snd E) @ evs2"
          "list_all program_event evs2"
        using Cons.IH by blast
      then show ?thesis unfolding s2 using e1 l3
        by (intro exI [of _ "[Add (EProgram prog), Flush] @ evs1 @ evs2"]) simp
    qed
  qed
qed

lemma create_programs_loop_fails:
  "\<exists>pf \<in> set pfs. \<exists>nf \<in> set (pf_entries pf). lookup (nf_exercise_slug nf) = None
     \<Longrightarrow> \<exists>err. fst (create_programs_loop users lookup pfs (acc, st)) = Inl err"
proof (induction pfs arbitrary: acc st)
  case Nil
  then show ?case by simp
next
  case (Cons pf pfs)
  show ?case
  proof (cases "fst (choice users st)")
    case (Inl err)
    then show ?thesis by (simp add: case_prod_beta split: sum.splits)
  next
    case (Inr owner)
    define st1 where "st1 = snd (choice users st)"
    define prog where "prog = \<lparr>p_id = fst (uuid4 st1), p_name = pf_name pf,
                       p_description = pf_description pf,
                       owner_id = u_id owner, entries = []\<rparr>"
    define st3 where "st3 = flush (add (EProgram prog) (snd (uuid4 st1)))"
    define E where "E = create_entries_loop lookup (fst (uuid4 st1)) (pf_entries pf) ([], st3)"
    have step: "create_programs_loop users lookup (pf # pfs) (acc, st)
                = (case E of (Inl err, st4) \<Rightarrow> (Inl err, st4)
                   | (Inr es, st4) \<Rightarrow>
                       create_programs_loop users lookup pfs (acc @ [prog\<lparr>entries := es\<rparr>], st4))"
      using Inr
      by (simp add: case_prod_beta Let_def prog_def st3_def st1_def E_def split: sum.splits)
    show ?thesis
    proof (cases "fst E")
      case (Inl err)
      then show ?thesis unfolding step by (cases E) simp
    next
      case (Inr es)
      have "\<not> (\<exists>nf \<in> set (pf_entries pf). lookup (nf_exercise_slug nf) = None)"
      proof
        assume "\<exists>nf \<in> set (pf_entries pf). lookup (nf_exercise_slug nf) = None"
        then have "\<exists>err. fst E = Inl err"
          unfolding E_def by (rule create_entries_loop_fails)
        then show False using Inr by simp
      qed
      then have "\<exists>pf \<in> set pfs. \<exists>nf \<in> set (pf_entries pf). lookup (nf_exercise_slug nf) = None"
        using Cons.prems by auto
      then have "\<exists>err. fst (create_programs_loop users lookup pfs
                               (acc @ [prog\<lparr>entries := es\<rparr>], snd E)) = Inl err"
        by (rule Cons.IH)
      then show ?thesis unfolding step using Inr by (cases E) simp
    qed
  qed
qed

lemma fold_gateway_adds:
  "fold gateway_step (map (\<lambda>x. Add (f x)) xs) (p, s) = (p @ map f xs, s)"
  by (induction xs arbitrary: p) simp_all

lemma fold_gateway_program_events:
  "list_all program_event evs \<Longrightarrow> snd (fold gateway_step evs (p, s)) = s"
proof (induction evs arbitrary: p)
  case Nil
  show ?case by simp
next
  case (Cons ev evs)
  then show ?case by (cases ev rule: program_event.cases) simp_all
qed

lemma program_events_no_sessions:
  "list_all program_event evs \<Longrightarrow> sessions_of evs = [] \<and> sets_of evs = []"
proof (induction evs)
  case Nil
  show ?case by simp
next
  case (Cons ev evs)
  then show ?case by (cases ev rule: program_event.cases) simp_all
qed

lemma user_adds_no_sessions [simp]:
  "sessions_of (map (\<lambda>u. Add (EUser u)) us) = []" "sets_of (map (\<lambda>u. Add (EUser u)) us) = []"
  by (induction us) simp_all

lemma exercise_adds_no_sessions [simp]:
  "sessions_of (map (\<lambda>x. Add (EExercise x)) xs) = []"
  "sets_of (map (\<lambda>x. Add (EExercise x)) xs) = []"
  by (induction xs) simp_all


lemma assignments_of_append [simp]:
  "assignments_of (xs @ ys) = assignments_of xs @ assignments_of ys"
  by (induction xs rule: assignments_of.induct) simp_all

lemma program_events_no_assignments:
  "list_all program_event evs \<Longrightarrow> assignments_of evs = []"
proof (induction evs)
  case Nil
  show ?case by simp
next
  case (Cons ev evs)
  then show ?case by (cases ev rule: program_event.cases) simp_all
qed

lemma user_adds_no_assignments [simp]:
  "assignments_of (map (\<lambda>u. Add (EUser u)) us) = []"
  by (induction us) simp_all

lemma exercise_adds_no_assignments [simp]:
  "assignments_of (map (\<lambda>x. Add (EExercise x)) xs) = []"
  by (induction xs) simp_all

lemma fold_gateway_program_events_pair:
  assumes "list_all program_event evs"
  shows "\<exists>p'. fold gateway_step evs (p, s) = (p', s)"
proof -
  have "snd (fold gateway_step evs (p, s)) = s"
    using assms by (rule fold_gateway_program_events)
  then show ?thesis by (cases "fold gateway_step evs (p, s)") simp
qed

text \<open>
  C7, amended. If a program entry of the fixture names a slug that the exercise fixture
  does not have, \<open>main\<close> on a fresh session raises, and its last two calls to the
  persistence session are the rollback and the close. What is in storage afterwards
  is exactly the users that \<open>create_users\<close> returned, one for every record of the user
  fixture, followed by the exercises that \<open>create_exercises\<close> returned (none if that
  stage raised, which it cannot when the user fixture is not empty; then there is one
  exercise for every record of the exercise fixture). No program and no program entry
  is in storage, and no assignment, no session and no set was handed to the
  persistence session at all.
\<close>

theorem unknown_slug_aborts_before_programs:
  assumes bad: "\<exists>pf \<in> set (programs_json e). \<exists>nf \<in> set (pf_entries pf).
                  nf_exercise_slug nf \<notin> set (map ef_slug (exercises_json e))"
    and fresh: "log st = []"
  shows "(\<exists>err. fst (main e st) = Inl err)
         \<and> (\<exists>evs. log (snd (main e st)) = evs @ [Rollback, Close])
         \<and> committed (snd (main e st))
             = map EUser (fst (create_users e st))
               @ (case fst (create_exercises e (fst (create_users e st))
                              (snd (create_users e st))) of
                    Inl err \<Rightarrow> []
                  | Inr exs \<Rightarrow> map EExercise exs)
         \<and> map email (fst (create_users e st)) = map uf_email (users_json e)
         \<and> (users_json e \<noteq> [] \<longrightarrow>
              (\<exists>exs. fst (create_exercises e (fst (create_users e st))
                             (snd (create_users e st))) = Inr exs
                   \<and> map slug exs = map ef_slug (exercises_json e)))
         \<and> assignments_of (log (snd (main e st))) = []
         \<and> sessions_of (log (snd (main e st))) = []
         \<and> sets_of (log (snd (main e st))) = []"
proof -
  define users where "users = fst (create_users e st)"
  define st1 where "st1 = snd (create_users e st)"
  define L where "L = create_exercises_loop users (exercises_json e) ([], st1)"
  have l1: "log st1 = map (\<lambda>u. Add (EUser u)) users @ [Commit]"
    and em: "map email users = map uf_email (users_json e)"
    using create_users_trace [of e st] fresh unfolding st1_def users_def by simp_all
  obtain xs where l2: "log (snd L) = log st1 @ map (\<lambda>x. Add (EExercise x)) xs"
    and rx: "\<forall>exs. fst L = Inr exs \<longrightarrow> exs = xs"
    using create_exercises_loop_trace [of users "exercises_json e" "[]" st1]
    unfolding L_def by auto
  have cu: "create_users e st = (users, st1)" by (simp add: users_def st1_def)
  have ne: "users_json e \<noteq> [] \<longrightarrow> (\<exists>exs. fst L = Inr exs)"
  proof
    assume "users_json e \<noteq> []"
    then have "map email users \<noteq> []" using em by simp
    then have "users \<noteq> []" by auto
    then show "\<exists>exs. fst L = Inr exs"
      unfolding L_def by (rule create_exercises_loop_succeeds)
  qed
  show ?thesis
  proof (cases "fst L")
    case (Inl err)
    then have CE: "create_exercises e users st1 = (Inl err, snd L)"
      by (cases L) (simp add: create_exercises_def L_def)
    have m: "main e st = (Inl err, close (rollback (snd L)))"
      by (simp add: main_def cu CE on_error_def)
    have lg: "log (snd (main e st))
              = (map (\<lambda>u. Add (EUser u)) users @ [Commit] @ map (\<lambda>x. Add (EExercise x)) xs)
                @ [Rollback, Close]"
      using l1 l2 by (simp add: m close_def rollback_def)
    have c: "committed (snd (main e st)) = map EUser users"
      unfolding committed_def lg by (simp add: fold_gateway_adds)
    have n: "users_json e = []" using ne Inl by auto
    have a: "assignments_of (log (snd (main e st))) = []"
      "sessions_of (log (snd (main e st))) = []" "sets_of (log (snd (main e st))) = []"
      unfolding lg by simp_all
    have r: "\<exists>evs. log (snd (main e st)) = evs @ [Rollback, Close]"
      using lg by blast
    have f: "\<exists>err. fst (main e st) = Inl err" using m by simp
    have ce: "fst (create_exercises e (fst (create_users e st)) (snd (create_users e st)))
              = Inl err"
      using CE by (simp add: users_def st1_def)
    have c': "committed (snd (main e st))
             = map EUser (fst (create_users e st))
               @ (case fst (create_exercises e (fst (create_users e st))
                              (snd (create_users e st))) of
                    Inl err \<Rightarrow> []
                  | Inr exs \<Rightarrow> map EExercise exs)"
      unfolding ce using c by (simp add: users_def)
    have em': "map email (fst (create_users e st)) = map uf_email (users_json e)"
      using em by (simp add: users_def)
    show ?thesis
      using f r c' em' n a by blast
  next
    case (Inr exs)
    define st2 where "st2 = commit (snd L)"
    have xe: "exs = xs" using rx Inr by simp
    have CE: "create_exercises e users st1 = (Inr exs, st2)"
      using Inr by (cases L) (simp add: create_exercises_def L_def st2_def)
    have sl: "map slug exs = map ef_slug (exercises_json e)"
      using create_exercises_loop_slugs [of users "exercises_json e" "[]" st1 exs] Inr
      by (simp add: L_def)
    define P where "P = create_programs_loop users (exercise_lookup exs) (programs_json e) ([], st2)"
    have "\<exists>pf \<in> set (programs_json e). \<exists>nf \<in> set (pf_entries pf).
            exercise_lookup exs (nf_exercise_slug nf) = None"
      using bad sl exercise_lookup_none [of _ exs] by metis
    then obtain err where pe: "fst P = Inl err"
      using create_programs_loop_fails unfolding P_def by blast
    obtain evs where l3: "log (snd P) = log st2 @ evs" "list_all program_event evs"
      using create_programs_loop_log unfolding P_def by blast
    have CP: "create_programs e users exs st2 = (Inl err, snd P)"
      using pe by (cases P) (simp add: create_programs_def P_def)
    have m: "main e st = (Inl err, close (rollback (snd P)))"
      by (simp add: main_def cu CE CP on_error_def)
    have lg: "log (snd (main e st))
              = (map (\<lambda>u. Add (EUser u)) users @ [Commit] @ map (\<lambda>x. Add (EExercise x)) xs
                 @ [Commit] @ evs) @ [Rollback, Close]"
      using l1 l2 l3 by (simp add: m close_def rollback_def st2_def commit_def)
    obtain p' where f: "fold gateway_step evs ([], map EUser users @ map EExercise xs)
                         = (p', map EUser users @ map EExercise xs)"
      using fold_gateway_program_events_pair [OF l3(2)] by blast
    have c: "committed (snd (main e st)) = map EUser users @ map EExercise exs"
      unfolding committed_def lg xe by (simp add: fold_gateway_adds f)
    have z: "sessions_of evs = []" "sets_of evs = []" "assignments_of evs = []"
      using program_events_no_sessions [OF l3(2)] program_events_no_assignments [OF l3(2)]
      by simp_all
    have a: "assignments_of (log (snd (main e st))) = []"
      "sessions_of (log (snd (main e st))) = []" "sets_of (log (snd (main e st))) = []"
      unfolding lg using z by simp_all
    have r: "\<exists>evs. log (snd (main e st)) = evs @ [Rollback, Close]"
      using lg by blast
    have f: "\<exists>err. fst (main e st) = Inl err" using m by simp
    have ce: "fst (create_exercises e (fst (create_users e st)) (snd (create_users e st)))
              = Inr exs"
      using CE by (simp add: users_def st1_def)
    have c': "committed (snd (main e st))
             = map EUser (fst (create_users e st))
               @ (case fst (create_exercises e (fst (create_users e st))
                              (snd (create_users e st))) of
                    Inl err \<Rightarrow> []
                  | Inr exs \<Rightarrow> map EExercise exs)"
      unfolding ce using c by (simp add: users_def)
    have em': "map email (fst (create_users e st)) = map uf_email (users_json e)"
      using em by (simp add: users_def)
    show ?thesis
      using f r c' em' ce sl a by blast
  qed
qed

theorem unknown_slug_aborts_witness:
  "(\<exists>pf \<in> set (programs_json env_bad). \<exists>nf \<in> set (pf_entries pf).
             nf_exercise_slug nf \<notin> set (map ef_slug (exercises_json env_bad)))
   \<and> log state_init = []
   \<and> users_json env_bad \<noteq> []
   \<and> fst (main env_bad state_init) = Inl (KeyError ''bench-press'')
   \<and> (\<exists>evs. log (snd (main env_bad state_init)) = evs @ [Rollback, Close])
   \<and> committed (snd (main env_bad state_init)) = [EUser user0, EExercise exercise0]
   \<and> fst (create_users env_bad state_init) = [user0]
   \<and> fst (create_exercises env_bad (fst (create_users env_bad state_init))
             (snd (create_users env_bad state_init))) = Inr [exercise0]
   \<and> assignments_of (log (snd (main env_bad state_init))) = []
   \<and> sessions_of (log (snd (main env_bad state_init))) = []
   \<and> sets_of (log (snd (main env_bad state_init))) = []"
proof -
  have h1: "\<exists>pf \<in> set (programs_json env_bad). \<exists>nf \<in> set (pf_entries pf).
             nf_exercise_slug nf \<notin> set (map ef_slug (exercises_json env_bad))"
    by code_simp
  have h2: "log state_init = []" by (simp add: state_init_def)
  have h3: "users_json env_bad \<noteq> []" by (simp add: env_bad_def)
  have u: "fst (create_users env_bad state_init) = [user0]" by code_simp
  have x: "fst (create_exercises env_bad (fst (create_users env_bad state_init))
             (snd (create_users env_bad state_init))) = Inr [exercise0]"
    by code_simp
  show ?thesis
    using unknown_slug_aborts_before_programs [OF h1 h2] h1 h2 h3 u x bad_run_eval
    by blast
qed

end
